(* ===== verification/Prelude.thy ===== *)
theory Prelude
  imports Main "HOL-Library.Word" "HOL-Library.Multiset"
begin

text \<open>
  What every component shares: the machine integers of the Rust code as words, its
  fallible conversions, sums that wrap, the laziness of \<open>Iterator::map\<close>, the contract
  of a machine whose steps keep an invariant, and that of one whose output only grows.

  Integers. \<open>u8\<close>, \<open>u32\<close>, \<open>i32\<close>, \<open>u64\<close> and \<open>i64\<close> are words of that width; the
  signed ones are read with \<open>sint\<close>. The service is built with \<open>cargo install\<close>
  (\<open>Rust_Dockerfile\<close>), hence in the release profile, where \<open>+\<close>, \<open>-\<close> and \<open>sum\<close>
  wrap around. A \<open>usize\<close> is a length or an index of something in memory and is a \<open>nat\<close>.
\<close>

named_theorems uaas_defs "definitions of the operations, for unfolding in component proofs"
named_theorems uaas_wf "preservation of well-formedness by the operations"

section \<open>Machine integers\<close>

type_synonym u8 = "8 word"
type_synonym u32 = "32 word"
type_synonym i32 = "32 word"
type_synonym u64 = "64 word"
type_synonym i64 = "64 word"
type_synonym usize = nat

text \<open>The conversions the code writes as \<open>try_into\<close>: \<open>None\<close> is its \<open>Err\<close>.\<close>

definition i32_of_u32 :: "u32 \<Rightarrow> i32 option" where
  "i32_of_u32 x = (if unat x < 2 ^ 31 then Some x else None)"

definition u32_of_i32 :: "i32 \<Rightarrow> u32 option" where
  "u32_of_i32 x = (if 0 \<le> sint x then Some x else None)"

definition usize_of_i32 :: "i32 \<Rightarrow> usize option" where
  "usize_of_i32 x = (if 0 \<le> sint x then Some (unat x) else None)"

definition u32_of_usize :: "usize \<Rightarrow> u32 option" where
  "u32_of_usize n = (if n < 2 ^ 32 then Some (of_nat n) else None)"

definition u64_of_i64 :: "i64 \<Rightarrow> u64 option" where
  "u64_of_i64 x = (if 0 \<le> sint x then Some x else None)"

text \<open>The truncating cast \<open>n as u32\<close> of a length.\<close>

definition usize_as_u32 :: "usize \<Rightarrow> u32" where
  "usize_as_u32 n = of_nat n"

text \<open>\<open>cmp::max\<close> on \<open>i64\<close>, and \<open>sum::<i64>()\<close>, which wraps.\<close>

definition max_i64 :: "i64 \<Rightarrow> i64 \<Rightarrow> i64" where
  "max_i64 a b = (if sint b < sint a then a else b)"

definition sum_i64 :: "i64 list \<Rightarrow> i64" where
  "sum_i64 xs = foldl (+) 0 xs"

lemma bit_top_iff:
  fixes x :: "'a::len word"
  shows "bit x (LENGTH('a) - 1) \<longleftrightarrow> 2 ^ (LENGTH('a) - 1) \<le> unat x"
proof -
  let ?m = "LENGTH('a) - 1"
  have lt: "unat x < 2 * 2 ^ ?m"
    using unsigned_less [of x, where ?'a = nat] by (cases "LENGTH('a)") simp_all
  have "bit x ?m \<longleftrightarrow> bit (unat x) ?m" by (simp add: bit_unsigned_iff)
  also have "\<dots> \<longleftrightarrow> odd (unat x div 2 ^ ?m)" by (simp add: bit_iff_odd)
  also have "\<dots> \<longleftrightarrow> 2 ^ ?m \<le> unat x"
  proof (cases "unat x < 2 ^ ?m")
    case True then show ?thesis by simp
  next
    case False
    then have "unat x div 2 ^ ?m = 1" using lt by (simp add: div_nat_eqI)
    then show ?thesis using False by simp
  qed
  finally show ?thesis .
qed

lemma sint_nonneg_iff:
  fixes x :: "'a::len word"
  shows "0 \<le> sint x \<longleftrightarrow> unat x < 2 ^ (LENGTH('a) - 1)"
proof -
  have "0 \<le> sint x \<longleftrightarrow> \<not> bit x (LENGTH('a) - 1)"
    by (simp add: sint_uint signed_take_bit_nonnegative_iff bit_unsigned_iff)
  then show ?thesis using bit_top_iff [of x] by auto
qed

lemma sint_eq_unat:
  fixes x :: "'a::len word"
  assumes "unat x < 2 ^ (LENGTH('a) - 1)" shows "sint x = int (unat x)"
proof -
  have nb: "\<not> bit (uint x) (LENGTH('a) - 1)"
    using assms bit_top_iff [of x] by (simp add: bit_unsigned_iff)
  have "int (unat x) < int (2 ^ (LENGTH('a) - 1))" using assms by (simp only: of_nat_less_iff)
  then have "take_bit (LENGTH('a) - 1) (uint x) = uint x"
    by (intro take_bit_int_eq_self) simp_all
  with nb show ?thesis
    by (simp add: sint_uint signed_take_bit_eq_if_positive)
qed

lemma unat_of_usize: "n < 2 ^ 32 \<Longrightarrow> unat (of_nat n :: u32) = n"
  by (simp add: unsigned_of_nat take_bit_nat_eq_self)

lemma int_unat_eq_iff: "int (unat (a :: 'a::len word)) = int (unat b) \<longleftrightarrow> a = b"
  by (metis of_nat_eq_iff word_unat_eq_iff)

lemma i32_of_u32_sint:
  assumes "i32_of_u32 x = Some y"
  shows "sint y = int (unat x)"
proof -
  have "y = x" and "unat x < 2 ^ 31" using assms by (auto simp: i32_of_u32_def split: if_splits)
  then show ?thesis using sint_eq_unat [of x] by simp
qed

lemma u32_of_usize_Some: "u32_of_usize n = Some w \<longleftrightarrow> n < 2 ^ 32 \<and> w = of_nat n"
  by (auto simp: u32_of_usize_def)

lemma max_i64_sint: "sint (max_i64 a b) = max (sint a) (sint b)"
  by (simp add: max_i64_def)

text \<open>A wrapping sum is the sum of the integers, reduced to 64 bits.\<close>

lemma foldl_word_sum: "foldl (+) (a :: 'a::len word) xs = a + of_int (sum_list (map sint xs))"
  by (induction xs arbitrary: a) (simp_all add: algebra_simps)

lemma sint_of_int_small:
  assumes "- (2 ^ 63) \<le> k" and "k < 2 ^ 63"
  shows "sint (of_int k :: i64) = k"
  using assms by (simp add: signed_of_int signed_take_bit_int_eq_self)

lemma sint_sum_i64:
  assumes "- (2 ^ 63) \<le> sum_list (map sint xs)" and "sum_list (map sint xs) < 2 ^ 63"
  shows "sint (sum_i64 xs) = sum_list (map sint xs)"
  unfolding sum_i64_def foldl_word_sum using sint_of_int_small [OF assms] by simp

section \<open>Iterator adaptors\<close>

text \<open>
  \<open>Iterator::map\<close> of Rust is lazy: it returns a value that holds the closure and the
  underlying iterator, and calls the closure once for each item that is taken out of it. A
  \<open>lazy_map\<close> is that value. Its closure works on a state \<open>'s\<close>, what it borrows
  mutably. \<open>iter_poll\<close> is one call of \<open>next\<close>; a consumer such as \<open>collect\<close> or
  \<open>for_each\<close> polls until the items are used up (\<open>iter_consume\<close>), and dropping the
  value, as \<open>let _ = ...\<close> does, polls it not at all (\<open>iter_drop\<close>).
\<close>

datatype ('a, 's) lazy_map = Lazy_Map "'a \<Rightarrow> 's \<Rightarrow> 's" "'a list"

fun iter_poll :: "('a, 's) lazy_map \<Rightarrow> 's \<Rightarrow> ('a, 's) lazy_map \<times> 's" where
  "iter_poll (Lazy_Map f []) s = (Lazy_Map f [], s)"
| "iter_poll (Lazy_Map f (x # xs)) s = (Lazy_Map f xs, f x s)"

fun iter_polls :: "nat \<Rightarrow> ('a, 's) lazy_map \<Rightarrow> 's \<Rightarrow> 's" where
  "iter_polls 0 it s = s"
| "iter_polls (Suc n) it s = (let (it', s') = iter_poll it s in iter_polls n it' s')"

fun iter_items :: "('a, 's) lazy_map \<Rightarrow> 'a list" where
  "iter_items (Lazy_Map f xs) = xs"

definition iter_drop :: "('a, 's) lazy_map \<Rightarrow> 's \<Rightarrow> 's" where
  "iter_drop it s = iter_polls 0 it s"

definition iter_consume :: "('a, 's) lazy_map \<Rightarrow> 's \<Rightarrow> 's" where
  "iter_consume it s = iter_polls (length (iter_items it)) it s"

lemma iter_drop_id [simp]: "iter_drop it s = s"
  by (simp add: iter_drop_def)

lemma iter_consume_fold [simp]: "iter_consume (Lazy_Map f xs) s = fold f xs s"
proof -
  have "iter_polls (length xs) (Lazy_Map f xs) s = fold f xs s"
    by (induction xs arbitrary: s) simp_all
  then show ?thesis by (simp add: iter_consume_def)
qed

section \<open>Machines whose output grows\<close>

text \<open>
  A quantity that no step decreases, whatever the order: the log of what was sent, a counter.
\<close>

locale mono_machine =
  fixes step :: "'e \<Rightarrow> 's \<Rightarrow> 's"
    and out :: "'s \<Rightarrow> 'o list"
  assumes step_extends: "\<exists>zs. out (step e s) = out s @ zs"
begin

lemma run_extends: "\<exists>zs. out (fold step es s) = out s @ zs"
proof (induction es arbitrary: s)
  case Nil
  show ?case by simp
next
  case (Cons e es)
  obtain ys where "out (step e s) = out s @ ys" using step_extends by blast
  moreover obtain zs where "out (fold step es (step e s)) = out (step e s) @ zs"
    using Cons.IH by blast
  ultimately show ?case by simp
qed

lemma run_keeps_sent: "x \<in> set (out s) \<Longrightarrow> x \<in> set (out (fold step es s))"
  using run_extends [of es s] by auto

end

end
