(* ===== verification/Hash_Map.thy ===== *)
theory Hash_Map
  imports Prelude
begin

text \<open>
  \<open>std::collections::HashMap\<close> as the code uses it: \<open>get\<close>, \<open>contains_key\<close>,
  \<open>insert\<close>, \<open>remove\<close>, \<open>retain\<close>, \<open>clear\<close>, \<open>len\<close> and iteration over the
  values. A map is the list of its entries in the order an iteration would visit them, with
  no key twice (\<open>hm_wf\<close>). Rust leaves that order open; here a new key goes to the end,
  and no property of the development depends on it: the facts about iteration speak of the
  set of the entries only. The contract the components rely on is the locale \<open>map_api\<close>,
  interpreted below by these operations.
\<close>

type_synonym ('k, 'v) hash_map = "('k \<times> 'v) list"

abbreviation hm_empty :: "('k, 'v) hash_map" where
  "hm_empty \<equiv> []"

definition hm_wf :: "('k, 'v) hash_map \<Rightarrow> bool" where
  "hm_wf m \<longleftrightarrow> distinct (map fst m)"

definition hm_get :: "('k, 'v) hash_map \<Rightarrow> 'k \<Rightarrow> 'v option" where
  "hm_get m k = map_of m k"

definition hm_contains :: "('k, 'v) hash_map \<Rightarrow> 'k \<Rightarrow> bool" where
  "hm_contains m k = (hm_get m k \<noteq> None)"

fun hm_insert :: "'k \<Rightarrow> 'v \<Rightarrow> ('k, 'v) hash_map \<Rightarrow> ('k, 'v) hash_map" where
  "hm_insert k v [] = [(k, v)]"
| "hm_insert k v ((k', v') # m) = (if k = k' then (k, v) # m else (k', v') # hm_insert k v m)"

definition hm_retain :: "('k \<Rightarrow> 'v \<Rightarrow> bool) \<Rightarrow> ('k, 'v) hash_map \<Rightarrow> ('k, 'v) hash_map" where
  "hm_retain P m = filter (\<lambda>(k, v). P k v) m"

definition hm_remove :: "'k \<Rightarrow> ('k, 'v) hash_map \<Rightarrow> ('k, 'v) hash_map" where
  "hm_remove k m = hm_retain (\<lambda>k' _. k' \<noteq> k) m"

definition hm_values :: "('k, 'v) hash_map \<Rightarrow> 'v list" where
  "hm_values m = map snd m"

definition hm_keys :: "('k, 'v) hash_map \<Rightarrow> 'k list" where
  "hm_keys m = map fst m"

text \<open>\<open>get_mut\<close> followed by a write through the reference.\<close>

definition hm_modify :: "'k \<Rightarrow> ('v \<Rightarrow> 'v) \<Rightarrow> ('k, 'v) hash_map \<Rightarrow> ('k, 'v) hash_map" where
  "hm_modify k f m = map (\<lambda>(k', v). (k', if k' = k then f v else v)) m"

section \<open>The contract\<close>

locale map_api =
  fixes empty :: "'m"
    and get :: "'m \<Rightarrow> 'k \<Rightarrow> 'v option"
    and insert :: "'k \<Rightarrow> 'v \<Rightarrow> 'm \<Rightarrow> 'm"
    and remove :: "'k \<Rightarrow> 'm \<Rightarrow> 'm"
    and retain :: "('k \<Rightarrow> 'v \<Rightarrow> bool) \<Rightarrow> 'm \<Rightarrow> 'm"
    and vals :: "'m \<Rightarrow> 'v list"
    and len :: "'m \<Rightarrow> nat"
    and wf :: "'m \<Rightarrow> bool"
  assumes wf_empty: "wf empty"
    and get_empty: "get empty k = None"
    and wf_insert: "wf m \<Longrightarrow> wf (insert k v m)"
    and get_insert: "get (insert k v m) = (get m)(k := Some v)"
    and wf_retain: "wf m \<Longrightarrow> wf (retain P m)"
    and get_retain: "wf m \<Longrightarrow>
          get (retain P m) k = (case get m k of Some v \<Rightarrow> if P k v then Some v else None | None \<Rightarrow> None)"
    and wf_remove: "wf m \<Longrightarrow> wf (remove k m)"
    and get_remove: "get (remove k m) = (get m)(k := None)"
    and vals_ran: "wf m \<Longrightarrow> set (vals m) = {v. \<exists>k. get m k = Some v}"
    and len_remove: "wf m \<Longrightarrow> get m k = Some v \<Longrightarrow> len (remove k m) < len m"
begin

lemma get_insert_same: "get (insert k v m) k = Some v"
  by (simp add: get_insert)

lemma get_insert_other: "k' \<noteq> k \<Longrightarrow> get (insert k v m) k' = get m k'"
  by (simp add: get_insert)

lemma get_remove_same: "get (remove k m) k = None"
  by (simp add: get_remove)

lemma get_remove_insert: "get m k = None \<Longrightarrow> get (remove k (insert k v m)) = get m"
  by (auto simp: get_insert get_remove fun_eq_iff)

lemma insert_twice: "get (insert k v (insert k w m)) = get (insert k v m)"
  by (simp add: get_insert)

lemma retain_Some: "wf m \<Longrightarrow> get (retain P m) k = Some v \<longleftrightarrow> get m k = Some v \<and> P k v"
  by (auto simp: get_retain split: option.splits if_splits)

lemma retain_twice: "wf m \<Longrightarrow> get (retain P (retain P m)) = get (retain P m)"
  by (auto simp: get_retain wf_retain fun_eq_iff split: option.splits)

text \<open>Inserting a list of entries leaves the last entry of each key.\<close>

lemma wf_insert_all: "wf m \<Longrightarrow> wf (fold (\<lambda>(k, v). insert k v) kvs m)"
  by (induction kvs arbitrary: m) (auto simp: wf_insert)

lemma get_insert_all_other:
  "k \<notin> fst ` set kvs \<Longrightarrow> get (fold (\<lambda>(k, v). insert k v) kvs m) k = get m k"
  by (induction kvs arbitrary: m) (auto simp: get_insert)

lemma get_insert_all:
  "distinct (map fst kvs) \<Longrightarrow> (k, v) \<in> set kvs \<Longrightarrow>
   get (fold (\<lambda>(k, v). insert k v) kvs m) k = Some v"
proof (induction kvs arbitrary: m)
  case Nil
  then show ?case by simp
next
  case (Cons kv kvs)
  obtain a b where kv: "kv = (a, b)" by (cases kv)
  show ?case
  proof (cases "(k, v) = (a, b)")
    case True
    then have "k \<notin> fst ` set kvs" using Cons.prems(1) kv by auto
    then show ?thesis using True kv by (simp add: get_insert_all_other get_insert)
  next
    case False
    then show ?thesis using Cons kv by auto
  qed
qed

end

section \<open>The operations satisfy it\<close>

lemma hm_wf_empty [simp]: "hm_wf []"
  by (simp add: hm_wf_def)

lemma fst_hm_insert: "fst ` set (hm_insert k v m) = insert k (fst ` set m)"
  by (induction k v m rule: hm_insert.induct) auto

lemma hm_wf_insert [simp, intro, uaas_wf]: "hm_wf m \<Longrightarrow> hm_wf (hm_insert k v m)"
  by (induction k v m rule: hm_insert.induct) (auto simp: hm_wf_def fst_hm_insert image_iff)

lemma hm_get_insert: "hm_get (hm_insert k v m) = (hm_get m)(k := Some v)"
  by (induction k v m rule: hm_insert.induct) (auto simp: hm_get_def fun_eq_iff)

lemma hm_wf_retain [simp, intro, uaas_wf]: "hm_wf m \<Longrightarrow> hm_wf (hm_retain P m)"
  by (simp add: hm_wf_def hm_retain_def distinct_map_filter)

lemma hm_get_retain:
  "hm_wf m \<Longrightarrow>
   hm_get (hm_retain P m) k = (case hm_get m k of Some v \<Rightarrow> if P k v then Some v else None | None \<Rightarrow> None)"
proof (induction m)
  case Nil
  then show ?case by (simp add: hm_get_def hm_retain_def)
next
  case (Cons kv m)
  obtain a b where kv: "kv = (a, b)" by (cases kv)
  have "k = a \<Longrightarrow> map_of m k = None" using Cons.prems kv
    by (simp add: hm_wf_def map_of_eq_None_iff image_iff)
  then show ?case using Cons kv
    by (auto simp: hm_get_def hm_retain_def hm_wf_def split: option.splits)
qed

lemma hm_get_remove: "hm_get (hm_remove k m) = (hm_get m)(k := None)"
  by (induction m) (auto simp: hm_get_def hm_remove_def hm_retain_def fun_eq_iff)

lemma hm_wf_remove [simp, intro, uaas_wf]: "hm_wf m \<Longrightarrow> hm_wf (hm_remove k m)"
  by (simp add: hm_remove_def hm_wf_retain)

lemma length_hm_remove: "hm_get m k = Some v \<Longrightarrow> length (hm_remove k m) < length m"
  using map_of_SomeD [of m k v]
  by (auto simp: hm_get_def hm_remove_def hm_retain_def intro!: length_filter_less)

lemma set_hm_values: "hm_wf m \<Longrightarrow> set (hm_values m) = {v. \<exists>k. hm_get m k = Some v}"
  by (force simp: hm_values_def hm_wf_def hm_get_def)

interpretation hm: map_api hm_empty hm_get hm_insert hm_remove hm_retain hm_values length hm_wf
  by unfold_locales
    (simp_all add: hm_get_insert hm_get_retain hm_get_remove length_hm_remove set_hm_values
      hm_wf_insert hm_wf_retain hm_wf_remove, simp_all add: hm_get_def)

lemma length_hm_insert: "length (hm_insert k v m) \<le> Suc (length m)"
  by (induction k v m rule: hm_insert.induct) auto

lemma hm_get_none_empty: "(\<And>k. hm_get m k = None) \<Longrightarrow> m = []"
  using map_of_eq_empty_iff [of m] by (simp add: hm_get_def fun_eq_iff)

lemma hm_contains_iff: "hm_contains m k \<longleftrightarrow> (\<exists>v. hm_get m k = Some v)"
  by (simp add: hm_contains_def)

lemma hm_contains_insert [simp]: "hm_contains (hm_insert k v m) k' \<longleftrightarrow> k' = k \<or> hm_contains m k'"
  by (auto simp: hm_contains_def hm_get_insert)

lemma hm_contains_remove [simp]: "hm_contains (hm_remove k m) k' \<longleftrightarrow> k' \<noteq> k \<and> hm_contains m k'"
  by (auto simp: hm_contains_def hm_get_remove)

lemma hm_get_empty [simp]: "hm_get [] k = None"
  by (simp add: hm_get_def)

lemma hm_contains_empty [simp]: "\<not> hm_contains [] k"
  by (simp add: hm_contains_def)

lemma hm_get_in_set: "hm_wf m \<Longrightarrow> hm_get m k = Some v \<longleftrightarrow> (k, v) \<in> set m"
  by (simp add: hm_wf_def hm_get_def)

lemma keys_hm_modify: "map fst (hm_modify k f m) = map fst m"
  by (induction m) (auto simp: hm_modify_def)

lemma hm_wf_modify [simp, intro, uaas_wf]: "hm_wf m \<Longrightarrow> hm_wf (hm_modify k f m)"
  by (simp add: hm_wf_def keys_hm_modify)

lemma hm_get_modify:
  "hm_get (hm_modify k f m) k' = (if k' = k then map_option f (hm_get m k) else hm_get m k')"
  by (induction m) (auto simp: hm_get_def hm_modify_def)

lemma set_hm_insert: "set (hm_insert k v m) \<subseteq> insert (k, v) (set m)"
  by (induction k v m rule: hm_insert.induct) auto

lemma list_all_hm_insert: "list_all P m \<Longrightarrow> P (k, v) \<Longrightarrow> list_all P (hm_insert k v m)"
  using set_hm_insert [of k v m] by (auto simp: list_all_iff)

lemma list_all_hm_retain: "list_all P m \<Longrightarrow> list_all P (hm_retain Q m)"
  by (simp add: list_all_iff hm_retain_def)

lemma list_all_hm_remove: "list_all P m \<Longrightarrow> list_all P (hm_remove k m)"
  by (simp add: hm_remove_def list_all_hm_retain)

end
