(* ===== verification/Util.thy ===== *)
theory Util
  imports Hash_Map
begin

text \<open>
  The text and time helpers (\<open>rust/src/uaas/util.rs\<close>, \<open>rust/src/uaas/hexslice.rs\<close>):
  writing bytes as hexadecimal digits, reading them back, and the age of a timestamp. A
  \<open>&str\<close> is its UTF-8 bytes, one \<open>char\<close> each. \<open>timestamp_as_string\<close> formats a date with
  the \<open>chrono\<close> crate for the log only and is not modelled.
\<close>

section \<open>Writing hexadecimal digits: \<open>HexSlice\<close>\<close>

definition hex_digit :: "nat \<Rightarrow> char" where
  "hex_digit n = ''0123456789abcdef'' ! n"

text \<open>\<open>{:02x}\<close> of a byte, and the \<open>Display\<close> of a \<open>HexSlice\<close>.\<close>

definition fmt_02x :: "u8 \<Rightarrow> string" where
  "fmt_02x b = [hex_digit (unat b div 16), hex_digit (unat b mod 16)]"

fun hexslice_fmt :: "u8 list \<Rightarrow> string" where
  "hexslice_fmt [] = ''''"
| "hexslice_fmt (byte # bytes) = fmt_02x byte @ hexslice_fmt bytes"

section \<open>Reading them: \<open>decode_hexstr\<close>\<close>

datatype int_error_kind = EmptyInt | InvalidDigit | PosOverflow

datatype decode_hex_error = OddLength | ParseInt int_error_kind

text \<open>The \<open>Display\<close> of the error, with the texts of the standard library for a \<open>ParseIntError\<close>.\<close>

fun parse_int_error_fmt :: "int_error_kind \<Rightarrow> string" where
  "parse_int_error_fmt EmptyInt = ''cannot parse integer from empty string''"
| "parse_int_error_fmt InvalidDigit = ''invalid digit found in string''"
| "parse_int_error_fmt PosOverflow = ''number too large to fit in target type''"

fun decode_hex_error_fmt :: "decode_hex_error \<Rightarrow> string" where
  "decode_hex_error_fmt OddLength = ''input string has an odd number of bytes''"
| "decode_hex_error_fmt (ParseInt e) = parse_int_error_fmt e"

text \<open>A call that may panic: the slice \<open>&s[i..i + 2]\<close> does when it splits a character.\<close>

datatype 'a outcome = Panic | Ret 'a

definition digit16 :: "char \<Rightarrow> nat option" where
  "digit16 c =
     (let n = of_char c :: nat
      in if 48 \<le> n \<and> n \<le> 57 then Some (n - 48)
         else if 97 \<le> n \<and> n \<le> 102 then Some (n - 87)
         else if 65 \<le> n \<and> n \<le> 70 then Some (n - 55)
         else None)"

text \<open>\<open>u8::from_str_radix(_, 16)\<close>: one leading plus sign is accepted.\<close>

fun from_digits16 :: "nat \<Rightarrow> string \<Rightarrow> int_error_kind + u8" where
  "from_digits16 acc [] = Inr (of_nat acc)"
| "from_digits16 acc (c # cs) =
     (case digit16 c of
        None \<Rightarrow> Inl InvalidDigit
      | Some d \<Rightarrow> if 16 * acc + d < 256 then from_digits16 (16 * acc + d) cs else Inl PosOverflow)"

definition from_str_radix16 :: "string \<Rightarrow> int_error_kind + u8" where
  "from_str_radix16 s =
     (case s of
        [] \<Rightarrow> Inl EmptyInt
      | c # cs \<Rightarrow>
          if cs = [] \<and> (c = CHR ''+'' \<or> c = CHR ''-'') then Inl InvalidDigit
          else if c = CHR ''+'' then from_digits16 0 cs
          else from_digits16 0 s)"

text \<open>A byte that continues a character: an index before it is no character boundary.\<close>

definition is_continuation :: "char \<Rightarrow> bool" where
  "is_continuation c = (let n = of_char c :: nat in 128 \<le> n \<and> n < 192)"

definition starts_char :: "string \<Rightarrow> bool" where
  "starts_char s = (case s of [] \<Rightarrow> True | c # _ \<Rightarrow> \<not> is_continuation c)"

text \<open>
  The iteration over the pairs; collecting into a \<open>Result\<close> stops at the first error. A
  slice that starts a character starts where the one before it ended.
\<close>

fun decode_pairs :: "string \<Rightarrow> (decode_hex_error + u8 list) outcome" where
  "decode_pairs (a # b # s) =
     (if \<not> starts_char s then Panic
      else case from_str_radix16 [a, b] of
             Inl e \<Rightarrow> Ret (Inl (ParseInt e))
           | Inr byte \<Rightarrow>
               (case decode_pairs s of
                  Panic \<Rightarrow> Panic
                | Ret (Inl e) \<Rightarrow> Ret (Inl e)
                | Ret (Inr bytes) \<Rightarrow> Ret (Inr (byte # bytes))))"
| "decode_pairs _ = Ret (Inr [])"

definition decode_hexstr :: "string \<Rightarrow> (decode_hex_error + u8 list) outcome" where
  "decode_hexstr s = (if odd (length s) then Ret (Inl OddLength) else decode_pairs s)"

section \<open>Times\<close>

text \<open>
  \<open>now\<close> is the system clock in seconds since the epoch, \<open>None\<close> where the clock is before
  it; the subtraction saturates.
\<close>

definition timestamp_age_as_sec :: "nat option \<Rightarrow> u32 \<Rightarrow> nat" where
  "timestamp_age_as_sec now timestamp =
     (case now of None \<Rightarrow> 0 | Some n \<Rightarrow> n - unat timestamp)"

fun show_nat :: "nat \<Rightarrow> string" where
  "show_nat n = (if n < 10 then [hex_digit n] else show_nat (n div 10) @ [hex_digit (n mod 10)])"

declare show_nat.simps [simp del]

text \<open>\<open>{:0>2}\<close>: right-aligned in two columns, filled with zeros.\<close>

definition pad2 :: "string \<Rightarrow> string" where
  "pad2 s = replicate (2 - length s) (CHR ''0'') @ s"

definition delay_as_string :: "nat \<Rightarrow> string" where
  "delay_as_string secs =
     (let seconds = secs mod 60; mins = (secs div 60) mod 60; hours = secs div 3600
      in show_nat hours @ '':'' @ pad2 (show_nat mins) @ '':'' @ pad2 (show_nat seconds))"

section \<open>Facts\<close>

lemma length_hexslice_fmt [simp]: "length (hexslice_fmt bs) = 2 * length bs"
  by (induction bs) (simp_all add: fmt_02x_def)

lemma less_16_cases: "n < 16 \<Longrightarrow> n \<in> {0, 1, 2, 3, 4, 5, 6, 7, 8, 9, 10, 11, 12, 13, 14, 15 :: nat}"
  unfolding insert_iff empty_iff by presburger

lemma digit16_hex_digit: "n < 16 \<Longrightarrow> digit16 (hex_digit n) = Some n"
  using less_16_cases [of n] by (auto simp: digit16_def hex_digit_def)

lemma hex_digit_plain:
  "n < 16 \<Longrightarrow> hex_digit n \<noteq> CHR ''+'' \<and> hex_digit n \<noteq> CHR ''-'' \<and> \<not> is_continuation (hex_digit n)"
  using less_16_cases [of n] by (auto simp: hex_digit_def is_continuation_def)

lemma unat_u8_div_16: "unat (b :: u8) div 16 < 16"
proof -
  have "unat b < 256" using unsigned_less [of b, where ?'a = nat] by simp
  then show ?thesis by simp
qed

lemma from_str_radix16_fmt: "from_str_radix16 (fmt_02x b) = Inr b"
proof -
  have "unat b div 16 * 16 + unat b mod 16 = unat b" by simp
  moreover have "unat b < 256" using unsigned_less [of b, where ?'a = nat] by simp
  ultimately show ?thesis
    using hex_digit_plain [OF unat_u8_div_16 [of b]] digit16_hex_digit [OF unat_u8_div_16 [of b]]
      digit16_hex_digit [of "unat b mod 16"] unat_u8_div_16 [of b]
    by (simp add: from_str_radix16_def fmt_02x_def mult.commute)
qed

lemma starts_char_hexslice: "starts_char (hexslice_fmt bs)"
  using hex_digit_plain [OF unat_u8_div_16]
  by (cases bs) (simp_all add: starts_char_def fmt_02x_def)

lemma decode_pairs_hexslice: "decode_pairs (hexslice_fmt bs) = Ret (Inr bs)"
proof (induction bs)
  case Nil
  then show ?case by simp
next
  case (Cons b bs)
  then show ?case
    using from_str_radix16_fmt [of b] by (simp add: fmt_02x_def starts_char_hexslice)
qed

lemma decode_pairs_ascii:
  "list_all (\<lambda>c. \<not> is_continuation c) s \<Longrightarrow> decode_pairs s \<noteq> Panic"
  by (induction s rule: decode_pairs.induct)
    (auto simp: starts_char_def split: if_splits sum.splits outcome.splits list.splits)

text \<open>The text of a part of the bytes is a part of the text, and determines the bytes.\<close>

lemma hexslice_fmt_take: "take (2 * n) (hexslice_fmt bs) = hexslice_fmt (take n bs)"
proof (induction bs arbitrary: n)
  case Nil
  then show ?case by simp
next
  case (Cons b bs)
  then show ?case by (cases n) (simp_all add: fmt_02x_def)
qed

lemma hexslice_fmt_drop: "drop (2 * n) (hexslice_fmt bs) = hexslice_fmt (drop n bs)"
proof (induction bs arbitrary: n)
  case Nil
  then show ?case by simp
next
  case (Cons b bs)
  then show ?case by (cases n) (simp_all add: fmt_02x_def)
qed

lemma hexslice_fmt_inj: "hexslice_fmt as = hexslice_fmt bs \<longleftrightarrow> as = bs"
  by (metis decode_pairs_hexslice outcome.inject sum.inject(2))

end
