(* ===== verification/Chain_Types.thy ===== *)
theory Chain_Types
  imports Util
begin

text \<open>
  The values the service receives from and passes to the \<open>chain_gang\<close> library: hashes,
  transactions, blocks and peer messages, as records with the fields that library declares
  and the code reads. The functions of the crates the service calls (\<open>chain_gang\<close>,
  \<open>hex\<close>, \<open>regex\<close>) are not part of the repository: they are the fields of a record
  \<open>ext_lib\<close>, which every operation that calls one takes as its argument. Nothing is
  assumed of them but the laws named here, and only where a theorem states one as its
  hypothesis.
\<close>

type_synonym hash256 = "256 word"
type_synonym script = "u8 list"

record out_point =
  op_hash :: hash256
  op_index :: u32

record tx_in =
  prev_output :: out_point
  unlock_script :: script
  tx_sequence :: u32

record tx_out =
  out_satoshis :: i64
  lock_script :: script

record tx =
  tx_version :: u32
  tx_inputs :: "tx_in list"
  tx_outputs :: "tx_out list"
  tx_lock_time :: u32

record block_header =
  bh_version :: u32
  bh_prev_hash :: hash256
  bh_merkle_root :: hash256
  bh_timestamp :: u32
  bh_bits :: u32
  bh_nonce :: u32

record block =
  blk_header :: block_header
  blk_txns :: "tx list"

record inv_vect =
  iv_obj_type :: u32
  iv_hash :: hash256

text \<open>
  The messages the service sends to a peer. A \<open>BlockLocator\<close> is the library's default
  one with the given hashes pushed onto its \<open>block_locator_hashes\<close>.
\<close>

datatype peer_msg =
    MsgGetData "inv_vect list"
  | MsgGetBlocks "hash256 list"
  | MsgTx tx
  | MsgFeeFilter u64
  | MsgSendCmpct u8 u64

datatype network = BSV_Mainnet | BSV_Testnet | BSV_STN

datatype address_type = P2PKH | OtherAddress

record ext_lib =
  tx_hash :: "tx \<Rightarrow> hash256"
  header_hash :: "block_header \<Rightarrow> hash256"
  hash_encode :: "hash256 \<Rightarrow> string"
  hash_decode :: "string \<Rightarrow> hash256 option"
  tx_size :: "tx \<Rightarrow> usize"
  tx_write :: "tx \<Rightarrow> u8 list option"
  tx_read :: "u8 list \<Rightarrow> tx option"
  block_size :: "block \<Rightarrow> usize"
  hex_encode :: "u8 list \<Rightarrow> string"
  addr_decode :: "string \<Rightarrow> network \<Rightarrow> (u8 list \<times> address_type) option"
  create_lock_script :: "u8 list \<Rightarrow> script"
  regex_new :: "string \<Rightarrow> (string \<Rightarrow> bool) option"

text \<open>
  A compiled \<open>Regex\<close> is its \<open>is_match\<close>. \<open>hex::encode\<close> writes two lower-case digits a
  byte, as \<open>HexSlice\<close> does.
\<close>

definition hex_crate_ok :: "ext_lib \<Rightarrow> bool" where
  "hex_crate_ok L \<longleftrightarrow> (\<forall>bs. hex_encode L bs = hexslice_fmt bs)"

text \<open>\<open>Hash256::decode\<close> reads back what \<open>Hash256::encode\<close> writes.\<close>

definition hash_codec_ok :: "ext_lib \<Rightarrow> bool" where
  "hash_codec_ok L \<longleftrightarrow> (\<forall>h. hash_decode L (hash_encode L h) = Some h)"

lemma hash_encode_inj: "hash_codec_ok L \<Longrightarrow> hash_encode L a = hash_encode L b \<longleftrightarrow> a = b"
  unfolding hash_codec_ok_def by (metis option.inject)

lemma hash_decode_encode: "hash_codec_ok L \<Longrightarrow> hash_decode L (hash_encode L h) = Some h"
  by (simp add: hash_codec_ok_def)

section \<open>A concrete library\<close>

text \<open>
  One library that satisfies the laws, for the witnesses: hashes are written as 256 binary
  digits, a transaction hashes to its lock time and a header to its nonce.
\<close>

definition sample_encode :: "hash256 \<Rightarrow> string" where
  "sample_encode h = map (\<lambda>i. if bit h i then CHR ''1'' else CHR ''0'') [0..<256]"

definition sample_decode :: "string \<Rightarrow> hash256 option" where
  "sample_decode s =
     (if length s = 256 then Some (horner_sum of_bool 2 (map (\<lambda>c. c = CHR ''1'') s)) else None)"

definition sample_lib :: ext_lib where
  "sample_lib = \<lparr>
     tx_hash = (\<lambda>t. ucast (tx_lock_time t)),
     header_hash = (\<lambda>h. ucast (bh_nonce h)),
     hash_encode = sample_encode,
     hash_decode = sample_decode,
     tx_size = (\<lambda>t. 10 + 41 * length (tx_inputs t) + 34 * length (tx_outputs t)),
     tx_write = (\<lambda>t. Some [ucast (tx_version t), ucast (tx_lock_time t)]),
     tx_read = (\<lambda>bs. case bs of
        [v, l] \<Rightarrow> Some \<lparr>tx_version = ucast v, tx_inputs = [], tx_outputs = [], tx_lock_time = ucast l\<rparr>
      | _ \<Rightarrow> None),
     block_size = (\<lambda>b. 81 + length (blk_txns b)),
     hex_encode = hexslice_fmt,
     addr_decode = (\<lambda>a net. if length a = 34 then Some (map of_char (take 20 a), P2PKH) else None),
     create_lock_script = (\<lambda>h. [0x76, 0xa9, 0x14] @ h @ [0x88, 0xac]),
     regex_new = (\<lambda>pat. if pat = ''['' then None else Some (\<lambda>s. take (length pat) s = pat))\<rparr>"

lemma sample_decode_encode: "sample_decode (sample_encode h) = Some h"
proof -
  have "map (\<lambda>c. c = CHR ''1'') (sample_encode h) = map (bit h) [0..<256]"
    by (simp add: sample_encode_def)
  moreover have "horner_sum of_bool 2 (map (bit h) [0..<256]) = h"
    by (simp add: horner_sum_bit_eq_take_bit take_bit_word_eq_self)
  moreover have "length (sample_encode h) = 256"
    by (simp add: sample_encode_def)
  ultimately show ?thesis
    by (simp only: sample_decode_def if_True refl)
qed

lemma sample_codec_ok [simp]: "hash_codec_ok sample_lib"
  by (simp add: hash_codec_ok_def sample_lib_def sample_decode_encode)

lemma sample_hex_ok [simp]: "hex_crate_ok sample_lib"
  by (simp add: hex_crate_ok_def sample_lib_def)

lemma sample_lib_sel [simp]:
  "tx_hash sample_lib t = ucast (tx_lock_time t)"
  "header_hash sample_lib h = ucast (bh_nonce h)"
  "hash_encode sample_lib w = sample_encode w"
  "hash_decode sample_lib s = sample_decode s"
  "tx_size sample_lib t = 10 + 41 * length (tx_inputs t) + 34 * length (tx_outputs t)"
  "tx_write sample_lib t = Some [ucast (tx_version t), ucast (tx_lock_time t)]"
  "block_size sample_lib b = 81 + length (blk_txns b)"
  "hex_encode sample_lib bs = hexslice_fmt bs"
  by (simp_all add: sample_lib_def)

text \<open>A transaction with one input, an output that can be spent and one that cannot.\<close>

definition sample_tx :: tx where
  "sample_tx = \<lparr>tx_version = 1,
     tx_inputs = [\<lparr>prev_output = \<lparr>op_hash = 7, op_index = 0\<rparr>, unlock_script = [], tx_sequence = 0\<rparr>],
     tx_outputs = [\<lparr>out_satoshis = 40, lock_script = [0x76, 0xa9]\<rparr>,
                   \<lparr>out_satoshis = 0, lock_script = [0x00, 0x6a]\<rparr>],
     tx_lock_time = 5\<rparr>"

definition sample_header :: "hash256 \<Rightarrow> u32 \<Rightarrow> u32 \<Rightarrow> block_header" where
  "sample_header prev time nonce = \<lparr>bh_version = 1, bh_prev_hash = prev, bh_merkle_root = 0,
     bh_timestamp = time, bh_bits = 0, bh_nonce = nonce\<rparr>"

definition sample_block :: "hash256 \<Rightarrow> u32 \<Rightarrow> block" where
  "sample_block prev nonce = \<lparr>blk_header = sample_header prev 1000 nonce, blk_txns = [sample_tx]\<rparr>"

end
