(* ===== verification/Db_Ops.thy ===== *)
theory Db_Ops
  imports Chain_Types
begin

text \<open>
  The rows the components hand to the database writer (\<open>rust/src/uaas/database.rs\<close>, the
  part before \<open>struct Database\<close>), the operations they are sent as, and the sending half
  of the channel. The writer itself is the theory \<open>Database\<close>.
\<close>

record utxo_entry_db =
  ue_hash :: string
  ue_pos :: u32
  ue_satoshis :: i64
  ue_height :: i32
  ue_pubkeyhash :: string

record tx_entry_write_db =
  te_hash :: hash256
  te_height :: usize
  te_blockindex :: u32
  te_size :: u32
  te_satoshis :: u64

record block_header_write_db =
  bw_height :: u32
  bw_hash :: hash256
  bw_version :: u32
  bw_prev_hash :: hash256
  bw_merkle_root :: hash256
  bw_timestamp :: u32
  bw_bits :: u32
  bw_nonce :: u32
  bw_position :: u64
  bw_blocksize :: u32
  bw_numtxs :: u32

record orphan_block_header_write_db =
  ow_height :: u32
  ow_hash :: hash256
  ow_version :: u32
  ow_prev_hash :: hash256
  ow_merkle_root :: hash256
  ow_timestamp :: u32
  ow_bits :: u32
  ow_nonce :: u32

record mempool_entry_db =
  me_hash :: hash256
  me_locktime :: u32
  me_fee :: i64
  me_age :: u64
  me_tx :: string

datatype db_operation_type =
    UtxoBatchWrite "utxo_entry_db list"
  | UtxoBatchDelete "out_point list"
  | TxBatchWrite "tx_entry_write_db list"
  | MempoolBatchDelete "hash256 list"
  | MempoolBatchWrite "mempool_entry_db list"
  | BlockHeaderWrite block_header_write_db
  | OrphanBlockHeaderWrite orphan_block_header_write_db
  | BlockHeaderDelete hash256
  | TxDelete u32
  | UtxoDelete u32

text \<open>
  A \<open>mpsc\<close> channel as its senders see it: whether the receiver still exists, and what was
  put into it, oldest first. All clones of a \<open>Sender\<close> feed the same channel, so it is
  passed through the components rather than stored in each. \<open>send\<close> fails when the
  receiver is gone, and the value is lost.
\<close>

record 'a chan =
  rx_alive :: bool
  sent :: "'a list"

type_synonym db_chan = "db_operation_type chan"

definition chan_send :: "'a \<Rightarrow> 'a chan \<Rightarrow> (unit + unit) \<times> 'a chan" where
  "chan_send x c =
     (if rx_alive c then (Inr (), c\<lparr>sent := sent c @ [x]\<rparr>) else (Inl (), c))"

abbreviation open_chan :: "'a chan" where
  "open_chan \<equiv> \<lparr>rx_alive = True, sent = []\<rparr>"

text \<open>Sending several operations one after the other.\<close>

definition chan_sends :: "'a list \<Rightarrow> 'a chan \<Rightarrow> 'a chan" where
  "chan_sends xs c = (if rx_alive c then c\<lparr>sent := sent c @ xs\<rparr> else c)"

lemma rx_alive_chan_sends [simp]: "rx_alive (chan_sends xs c) = rx_alive c"
  by (simp add: chan_sends_def)

lemma chan_sends_Nil [simp]: "chan_sends [] c = c"
  by (simp add: chan_sends_def)

lemma chan_sends_append [simp]: "chan_sends ys (chan_sends xs c) = chan_sends (xs @ ys) c"
  by (simp add: chan_sends_def)

lemma sent_chan_sends: "sent (chan_sends xs c) = sent c @ (if rx_alive c then xs else [])"
  by (simp add: chan_sends_def)

lemma sent_chan_sends_alive [simp]: "rx_alive c \<Longrightarrow> sent (chan_sends xs c) = sent c @ xs"
  by (simp add: chan_sends_def)

end
