(* ===== verification/Height_Store.thy ===== *)
theory Height_Store
  imports Db_Ops
begin

text \<open>
  The contract of a store whose entries carry the height of the block they came from and
  that can drop a height: what \<open>handle_orphan_block\<close> of the transaction analyser relies on
  in \<open>TxDB\<close> and in \<open>Utxo\<close>. Both interpret it.
\<close>

locale height_store =
  fixes prune :: "u32 \<Rightarrow> 's \<Rightarrow> 's"
    and entry :: "'s \<Rightarrow> 'k \<Rightarrow> 'v option"
    and height_of :: "'v \<Rightarrow> int"
    and wf :: "'s \<Rightarrow> bool"
  assumes wf_prune: "wf s \<Longrightarrow> wf (prune h s)"
    and entry_prune: "wf s \<Longrightarrow> entry (prune h s) k =
          (case entry s k of
             Some v \<Rightarrow> if height_of v = int (unat h) then None else Some v
           | None \<Rightarrow> None)"
begin

lemma prune_Some: "wf s \<Longrightarrow> entry (prune h s) k = Some v \<longleftrightarrow> entry s k = Some v \<and> height_of v \<noteq> int (unat h)"
  by (auto simp: entry_prune split: option.splits if_splits)

lemma prune_gone: "wf s \<Longrightarrow> entry (prune h s) k = Some v \<Longrightarrow> height_of v \<noteq> int (unat h)"
  by (simp add: prune_Some)

lemma prune_keeps: "wf s \<Longrightarrow> entry s k = Some v \<Longrightarrow> height_of v \<noteq> int (unat h) \<Longrightarrow>
  entry (prune h s) k = Some v"
  by (simp add: prune_Some)

lemma prune_twice: "wf s \<Longrightarrow> entry (prune h (prune h s)) = entry (prune h s)"
  by (auto simp: entry_prune wf_prune fun_eq_iff split: option.splits)

lemma prune_commute: "wf s \<Longrightarrow> entry (prune g (prune h s)) = entry (prune h (prune g s))"
  by (auto simp: entry_prune wf_prune fun_eq_iff split: option.splits)

text \<open>A height at which the store holds nothing: dropping it changes nothing.\<close>

lemma prune_absent:
  "wf s \<Longrightarrow> (\<And>k v. entry s k = Some v \<Longrightarrow> height_of v \<noteq> int (unat h)) \<Longrightarrow> entry (prune h s) = entry s"
  by (force simp: entry_prune fun_eq_iff split: option.splits)

end

end
