(* ===== verification/Utxo_Table.thy ===== *)
theory Utxo_Table
  imports Utxo
begin

text \<open>
  What the table \<open>utxo\<close> of the database is meant to hold, and which operations of
  \<open>Utxo\<close> keep it so. The table is a map from its primary key \<open>(hash, pos)\<close> to rows, and
  \<open>utxo_table_apply\<close> is the meaning of the SQL statements that \<open>database.rs\<close> issues for
  the three operations on it (\<open>REPLACE\<close>, \<open>DELETE\<close> by key, \<open>DELETE\<close> by height). The
  contract of \<open>Utxo\<close>: what was sent so far, applied to the table, followed by what is
  still waiting, is the set in memory (\<open>utxo_synced\<close>).
\<close>

type_synonym utxo_table = "string \<times> u32 \<rightharpoonup> utxo_entry_db"

fun utxo_table_apply :: "ext_lib \<Rightarrow> db_operation_type \<Rightarrow> utxo_table \<Rightarrow> utxo_table" where
  "utxo_table_apply L (UtxoBatchWrite rows) t = fold (\<lambda>r t. t(row_key r \<mapsto> r)) rows t"
| "utxo_table_apply L (UtxoBatchDelete ps) t = fold (\<lambda>p t. t(op_key L p := None)) ps t"
| "utxo_table_apply L (UtxoDelete h) t =
     (\<lambda>k. case t k of Some r \<Rightarrow> if sint (ue_height r) = int (unat h) then None else Some r
                   | None \<Rightarrow> None)"
| "utxo_table_apply L _ t = t"

definition utxo_table_run :: "ext_lib \<Rightarrow> db_operation_type list \<Rightarrow> utxo_table \<Rightarrow> utxo_table" where
  "utxo_table_run L opers t = fold (utxo_table_apply L) opers t"

definition utxo_pending :: "utxo_db \<Rightarrow> db_operation_type list" where
  "utxo_pending s = [UtxoBatchWrite (hm_values (utxo_entries s)), UtxoBatchDelete (utxo_deletes s)]"

definition utxo_image :: "ext_lib \<Rightarrow> (out_point, utxo_entry) hash_map \<Rightarrow> utxo_table" where
  "utxo_image L m = map_of (map (\<lambda>(p, e). (op_key L p, row_of L p e)) m)"

definition utxo_synced :: "ext_lib \<Rightarrow> utxo_table \<Rightarrow> utxo_db \<Rightarrow> bool" where
  "utxo_synced L t s \<longleftrightarrow> utxo_table_run L (utxo_pending s) t = utxo_image L (utxo s)"

lemma utxo_table_run_simps [simp]:
  "utxo_table_run L [] t = t"
  "utxo_table_run L (oper # opers) t = utxo_table_run L opers (utxo_table_apply L oper t)"
  "utxo_table_run L (xs @ ys) t = utxo_table_run L ys (utxo_table_run L xs t)"
  by (simp_all add: utxo_table_run_def)

section \<open>The statements, key by key\<close>

lemma fold_replace_other: "k \<notin> row_key ` set rows \<Longrightarrow> fold (\<lambda>r t. t(row_key r \<mapsto> r)) rows t k = t k"
  by (induction rows arbitrary: t) auto

lemma fold_replace_same:
  "distinct (map row_key rows) \<Longrightarrow> r \<in> set rows \<Longrightarrow>
   fold (\<lambda>r t. t(row_key r \<mapsto> r)) rows t (row_key r) = Some r"
proof (induction rows arbitrary: t)
  case Nil
  then show ?case by simp
next
  case (Cons x rows)
  then show ?case
    by (cases "r = x") (auto simp: fold_replace_other fun_upd_same simp del: fun_upd_apply)
qed

lemma fold_delete_key:
  "fold (\<lambda>p t. t(op_key L p := None)) ps t k = (if k \<in> op_key L ` set ps then None else t k)"
  by (induction ps arbitrary: t) auto

lemma wf_utxo_row_keys:
  assumes "hash_codec_ok L" and "wf_utxo L s"
  shows "map row_key (hm_values (utxo_entries s)) = map (op_key L) (hm_keys (utxo_entries s))"
    and "distinct (map row_key (hm_values (utxo_entries s)))"
proof -
  show eq: "map row_key (hm_values (utxo_entries s)) = map (op_key L) (hm_keys (utxo_entries s))"
    using assms(2) by (auto simp: wf_utxo_def hm_values_def hm_keys_def list_all_iff)
  have "distinct (hm_keys (utxo_entries s))"
    using assms(2) by (simp add: wf_utxo_def hm_wf_def hm_keys_def)
  then show "distinct (map row_key (hm_values (utxo_entries s)))"
    unfolding eq by (simp add: distinct_map inj_on_def op_key_inj [OF assms(1)])
qed

lemma utxo_pending_lookup:
  assumes L: "hash_codec_ok L" and wf: "wf_utxo L s"
  shows "utxo_table_run L (utxo_pending s) t (op_key L p) =
     (if p \<in> set (utxo_deletes s) then None
      else case hm_get (utxo_entries s) p of Some r \<Rightarrow> Some r | None \<Rightarrow> t (op_key L p))"
proof -
  let ?rows = "hm_values (utxo_entries s)"
  have "fold (\<lambda>r t. t(row_key r \<mapsto> r)) ?rows t (op_key L p) =
      (case hm_get (utxo_entries s) p of Some r \<Rightarrow> Some r | None \<Rightarrow> t (op_key L p))"
  proof (cases "hm_get (utxo_entries s) p")
    case None
    then have "op_key L p \<notin> set (map (op_key L) (hm_keys (utxo_entries s)))"
      by (force simp: op_key_inj [OF L] hm_keys_def hm_get_def map_of_eq_None_iff)
    then have "op_key L p \<notin> row_key ` set ?rows"
      unfolding wf_utxo_row_keys(1) [OF assms, symmetric] by simp
    then show ?thesis using None by (simp add: fold_replace_other)
  next
    case (Some r)
    then have "(p, r) \<in> set (utxo_entries s)" using wf by (simp add: hm_get_in_set wf_utxo_def)
    then have "r \<in> set ?rows" and "row_key r = op_key L p"
      using wf by (force simp: hm_values_def, auto simp: wf_utxo_def list_all_iff)
    then show ?thesis
      using Some fold_replace_same [OF wf_utxo_row_keys(2) [OF assms], of r t] by simp
  qed
  then show ?thesis
    by (auto simp: utxo_pending_def fold_delete_key op_key_inj [OF L] image_iff)
qed

lemma utxo_pending_other:
  assumes "hash_codec_ok L" and "wf_utxo L s" and k: "k \<notin> range (op_key L)"
  shows "utxo_table_run L (utxo_pending s) t k = t k"
proof -
  have "k \<notin> set (map row_key (hm_values (utxo_entries s)))"
    unfolding wf_utxo_row_keys(1) [OF assms(1,2)] using k by auto
  then have "fold (\<lambda>r t. t(row_key r \<mapsto> r)) (hm_values (utxo_entries s)) t k = t k"
    by (intro fold_replace_other) simp
  then show ?thesis using k by (auto simp: utxo_pending_def fold_delete_key)
qed

lemma utxo_image_lookup:
  assumes L: "hash_codec_ok L" and "hm_wf m"
  shows "utxo_image L m (op_key L p) = map_option (row_of L p) (hm_get m p)"
  by (induction m) (auto simp: utxo_image_def hm_get_def op_key_inj [OF L])

lemma utxo_image_other: "k \<notin> range (op_key L) \<Longrightarrow> utxo_image L m k = None"
  by (induction m) (auto simp: utxo_image_def)

text \<open>The contract, one outpoint at a time.\<close>

definition utxo_cell :: "ext_lib \<Rightarrow> utxo_table \<Rightarrow> utxo_db \<Rightarrow> out_point \<Rightarrow> bool" where
  "utxo_cell L t s p \<longleftrightarrow> map_option (row_of L p) (hm_get (utxo s) p) =
     (if p \<in> set (utxo_deletes s) then None
      else case hm_get (utxo_entries s) p of Some r \<Rightarrow> Some r | None \<Rightarrow> t (op_key L p))"

lemma utxo_synced_iff:
  assumes "hash_codec_ok L" and "wf_utxo L s"
  shows "utxo_synced L t s \<longleftrightarrow>
     (\<forall>p. utxo_cell L t s p) \<and> (\<forall>k. k \<notin> range (op_key L) \<longrightarrow> t k = None)"
proof -
  have wf: "hm_wf (utxo s)" using assms(2) by (simp add: wf_utxo_def)
  have ext: "f = g \<longleftrightarrow> (\<forall>p. g (op_key L p) = f (op_key L p)) \<and> (\<forall>k. k \<notin> range (op_key L) \<longrightarrow> f k = g k)"
    for f g :: utxo_table
  proof
    assume r: "(\<forall>p. g (op_key L p) = f (op_key L p)) \<and> (\<forall>k. k \<notin> range (op_key L) \<longrightarrow> f k = g k)"
    show "f = g"
    proof
      fix k
      consider p where "k = op_key L p" | "k \<notin> range (op_key L)" by auto
      then show "f k = g k"
      proof cases
        case 1
        then show ?thesis using r by metis
      next
        case 2
        then show ?thesis using r by blast
      qed
    qed
  qed simp
  show ?thesis
    unfolding utxo_synced_def ext
    by (simp add: utxo_pending_lookup [OF assms] utxo_pending_other [OF assms] utxo_cell_def
        utxo_image_lookup [OF assms(1) wf] utxo_image_other cong: conj_cong)
qed

text \<open>A change that keeps the table keeps the contract when it keeps it at every outpoint.\<close>

lemma utxo_synced_local:
  assumes "hash_codec_ok L" and "wf_utxo L s" and "wf_utxo L s'" and "utxo_synced L t s"
    and "\<And>p. utxo_cell L t s p \<Longrightarrow> utxo_cell L t s' p"
  shows "utxo_synced L t s'"
  using assms(4,5) unfolding utxo_synced_iff [OF assms(1,2)] utxo_synced_iff [OF assms(1,3)] by blast

section \<open>The operations keep the contract\<close>

text \<open>
  Adding an outpoint keeps it unless the outpoint waits to be deleted: \<open>update_db\<close> writes
  before it deletes, so such a row would be written and removed again.
\<close>

lemma utxo_synced_add:
  assumes L: "hash_codec_ok L" and wf: "wf_utxo L s" and sync: "utxo_synced L t s"
    and fresh: "\<lparr>op_hash = hash, op_index = of_nat index\<rparr> \<notin> set (utxo_deletes s)"
  shows "utxo_synced L t (utxo_add L hash index v ht pk s)"
proof (rule utxo_synced_local [OF L wf wf_utxo_add [OF wf] sync])
  fix p
  assume "utxo_cell L t s p"
  then show "utxo_cell L t (utxo_add L hash index v ht pk s) p"
    using fresh
    by (auto simp: utxo_cell_def utxo_add_def Let_def hm_get_insert row_of_def u32_of_usize_Some
        split: option.split_asm option.split)
qed

lemma utxo_synced_delete:
  assumes L: "hash_codec_ok L" and wf: "wf_utxo L s" and sync: "utxo_synced L t s"
  shows "utxo_synced L t (utxo_delete p s)"
proof (rule utxo_synced_local [OF L wf wf_utxo_delete [OF wf] sync])
  fix q
  assume "utxo_cell L t s q"
  then show "utxo_cell L t (utxo_delete p s) q"
    by (auto simp: utxo_cell_def utxo_delete_def hm_get_remove)
qed

lemma utxo_synced_update_db:
  assumes sync: "utxo_synced L t s"
  shows "utxo_synced L (utxo_table_run L (utxo_pending s) t) (fst (utxo_update_db s c))"
  using sync by (simp add: utxo_synced_def utxo_update_db_eq utxo_pending_def hm_values_def)

text \<open>
  Dropping an orphaned height keeps it when no row of that height is still waiting to be
  written.
\<close>

lemma utxo_synced_orphan:
  assumes L: "hash_codec_ok L" and wf: "wf_utxo L s" and sync: "utxo_synced L t s"
    and none: "list_all (\<lambda>(p, r). sint (ue_height r) \<noteq> int (unat h)) (utxo_entries s)"
  shows "utxo_synced L (utxo_table_apply L (UtxoDelete h) t) (fst (utxo_handle_orphan_block h s c))"
proof -
  let ?s' = "fst (utxo_handle_orphan_block h s c)" and ?t' = "utxo_table_apply L (UtxoDelete h) t"
  note pruned = utxo_pruned [OF wf, of h c]
  have same: "utxo_deletes ?s' = utxo_deletes s" "utxo_entries ?s' = utxo_entries s"
    by (simp_all add: utxo_handle_orphan_block_eq split: option.split)
  have pend: "hm_get (utxo_entries s) p = Some r \<Longrightarrow> sint (ue_height r) \<noteq> int (unat h)" for p r
    using none wf by (auto simp: hm_get_in_set wf_utxo_def list_all_iff)
  have "utxo_cell L ?t' ?s' p" if "utxo_cell L t s p" for p
    using that pend [of p]
    by (cases "t (op_key L p)")
      (auto simp: utxo_cell_def pruned same row_of_def split: option.splits if_splits)
  then have "utxo_cell L ?t' ?s' p" for p
    using sync unfolding utxo_synced_iff [OF L wf] by blast
  moreover have "?t' k = None" if "k \<notin> range (op_key L)" for k
  proof -
    have "t k = None" using sync that unfolding utxo_synced_iff [OF L wf] by blast
    then show ?thesis by simp
  qed
  ultimately show ?thesis
    unfolding utxo_synced_iff [OF L wf_utxo_handle_orphan_block [OF wf]] by blast
qed

end
