(* ===== verification/Txdb.thy ===== *)
theory Txdb
  imports Height_Store
begin

text \<open>
  The known transactions (\<open>rust/src/uaas/txdb.rs\<close>): those in blocks with their height,
  those in the mempool, and the rows waiting to be written to or deleted from the tables
  \<open>tx\<close> and \<open>mempool\<close>. The loading methods take the results of their queries, and
  \<open>add_to_mempool\<close> the system time (\<open>None\<close> where reading it fails).
\<close>

record tx_db =
  txs :: "(hash256, u32) hash_map"
  save_txs :: bool
  mempool :: "(hash256, hash256) hash_map"
  hashes_to_delete :: "hash256 list"
  tx_entries :: "tx_entry_write_db list"
  mempool_entries :: "mempool_entry_db list"

section \<open>Operations\<close>

definition txdb_send_db_op :: "db_operation_type \<Rightarrow> db_chan \<Rightarrow> db_chan" where
  "txdb_send_db_op oper c = (case chan_send oper c of (Inl _, c') \<Rightarrow> c' | (Inr _, c') \<Rightarrow> c')"

definition txdb_decode_stored_hash :: "ext_lib \<Rightarrow> string \<Rightarrow> hash256 option" where
  "txdb_decode_stored_hash L value =
     (case hash_decode L value of Some hash \<Rightarrow> Some hash | None \<Rightarrow> None)"

definition txdb_new :: "bool \<Rightarrow> tx_db" where
  "txdb_new save = \<lparr>txs = hm_empty, save_txs = save, mempool = hm_empty,
     hashes_to_delete = [], tx_entries = [], mempool_entries = []\<rparr>"

definition load_tx_entry :: "ext_lib \<Rightarrow> string \<times> u32 \<Rightarrow> tx_db \<Rightarrow> tx_db" where
  "load_tx_entry L entry s =
     (case txdb_decode_stored_hash L (fst entry) of
        None \<Rightarrow> s
      | Some hash \<Rightarrow> s\<lparr>txs := hm_insert hash (snd entry) (txs s)\<rparr>)"

definition load_tx :: "ext_lib \<Rightarrow> (string \<times> u32) list option \<Rightarrow> tx_db \<Rightarrow> tx_db" where
  "load_tx L rows s = (case rows of None \<Rightarrow> s | Some rs \<Rightarrow> fold (load_tx_entry L) rs s)"

definition load_mempool_entry :: "ext_lib \<Rightarrow> string \<Rightarrow> tx_db \<Rightarrow> tx_db" where
  "load_mempool_entry L value s =
     (case txdb_decode_stored_hash L value of
        None \<Rightarrow> s
      | Some hash \<Rightarrow> s\<lparr>mempool := hm_insert hash hash (mempool s)\<rparr>)"

definition load_mempool :: "ext_lib \<Rightarrow> string list option \<Rightarrow> tx_db \<Rightarrow> tx_db" where
  "load_mempool L rows s = (case rows of None \<Rightarrow> s | Some rs \<Rightarrow> fold (load_mempool_entry L) rs s)"

definition save_tx :: "ext_lib \<Rightarrow> tx \<Rightarrow> hash256 \<Rightarrow> u32 \<Rightarrow> usize \<Rightarrow> tx_db \<Rightarrow> tx_db" where
  "save_tx L t hash blockindex height s =
     (let satoshi_sum = sum_i64 (map out_satoshis (tx_outputs t))
      in case u64_of_i64 satoshi_sum of
           None \<Rightarrow> s
         | Some satoshi_out \<Rightarrow>
             s\<lparr>tx_entries := tx_entries s @
                 [\<lparr>te_hash = hash, te_height = height, te_blockindex = blockindex,
                   te_size = usize_as_u32 (tx_size L t), te_satoshis = satoshi_out\<rparr>]\<rparr>)"

text \<open>One transaction of \<open>process_block\<close>, then the loop over \<open>enumerate()\<close>.\<close>

definition txdb_process_tx ::
  "ext_lib \<Rightarrow> usize \<Rightarrow> u32 \<Rightarrow> usize \<times> tx \<Rightarrow> tx_db \<Rightarrow> tx_db" where
  "txdb_process_tx L height_usize height_u32 it s =
     (let (blockindex, t) = it;
          hash = tx_hash L t;
          s = (if hm_contains (mempool s) hash
               then s\<lparr>mempool := hm_remove hash (mempool s),
                      hashes_to_delete := hashes_to_delete s @ [hash]\<rparr>
               else s)
      in if save_txs s
         then (case u32_of_usize blockindex of
                 None \<Rightarrow> s
               | Some blockindex_u32 \<Rightarrow>
                   let s = save_tx L t hash blockindex_u32 height_usize s
                   in s\<lparr>txs := hm_insert hash height_u32 (txs s)\<rparr>)
         else s)"

definition txdb_process_block :: "ext_lib \<Rightarrow> block \<Rightarrow> i32 \<Rightarrow> tx_db \<Rightarrow> tx_db" where
  "txdb_process_block L b height s =
     (case usize_of_i32 height of
        None \<Rightarrow> s
      | Some height_usize \<Rightarrow>
          (case u32_of_i32 height of
             None \<Rightarrow> s
           | Some height_u32 \<Rightarrow>
               fold (txdb_process_tx L height_usize height_u32) (enumerate 0 (blk_txns b)) s))"

definition batch_delete_from_mempool :: "tx_db \<Rightarrow> db_chan \<Rightarrow> tx_db \<times> db_chan" where
  "batch_delete_from_mempool s c =
     (let c = txdb_send_db_op (MempoolBatchDelete (hashes_to_delete s)) c
      in (s\<lparr>hashes_to_delete := []\<rparr>, c))"

definition batch_write_tx_to_table :: "tx_db \<Rightarrow> db_chan \<Rightarrow> tx_db \<times> db_chan" where
  "batch_write_tx_to_table s c =
     (let c = txdb_send_db_op (TxBatchWrite (tx_entries s)) c
      in (s\<lparr>tx_entries := []\<rparr>, c))"

definition batch_write_mempool :: "tx_db \<Rightarrow> db_chan \<Rightarrow> tx_db \<times> db_chan" where
  "batch_write_mempool s c =
     (if mempool_entries s = [] then (s, c)
      else let entries = mempool_entries s;
               s = s\<lparr>mempool_entries := []\<rparr>
           in (s, txdb_send_db_op (MempoolBatchWrite entries) c))"

definition add_to_mempool :: "ext_lib \<Rightarrow> u64 option \<Rightarrow> tx \<Rightarrow> i64 \<Rightarrow> tx_db \<Rightarrow> tx_db" where
  "add_to_mempool L now t fee s =
     (let hash = tx_hash L t;
          age = (case now of Some secs \<Rightarrow> secs | None \<Rightarrow> 0);
          s = s\<lparr>mempool := hm_insert hash hash (mempool s)\<rparr>
      in case tx_write L t of
           None \<Rightarrow> s\<lparr>mempool := hm_remove hash (mempool s)\<rparr>
         | Some b \<Rightarrow>
             s\<lparr>mempool_entries := mempool_entries s @
                 [\<lparr>me_hash = hash, me_locktime = tx_lock_time t, me_fee = fee, me_age = age,
                   me_tx = hexslice_fmt b\<rparr>]\<rparr>)"

definition txdb_tx_exists :: "tx_db \<Rightarrow> hash256 \<Rightarrow> bool" where
  "txdb_tx_exists s hash = (hm_contains (txs s) hash \<or> hm_contains (mempool s) hash)"

definition txdb_handle_orphan_block :: "u32 \<Rightarrow> tx_db \<Rightarrow> db_chan \<Rightarrow> tx_db \<times> db_chan" where
  "txdb_handle_orphan_block height s c =
     (let c = txdb_send_db_op (TxDelete height) c
      in (s\<lparr>txs := hm_retain (\<lambda>_ tx_height. tx_height \<noteq> height) (txs s)\<rparr>, c))"

lemma txdb_send_db_op [simp]: "txdb_send_db_op oper c = chan_sends [oper] c"
  by (simp add: txdb_send_db_op_def chan_send_def chan_sends_def)

lemmas txdb_flush_defs [uaas_defs] =
  batch_delete_from_mempool_def batch_write_tx_to_table_def batch_write_mempool_def
  txdb_handle_orphan_block_def

section \<open>Well-formedness\<close>

definition wf_txdb :: "tx_db \<Rightarrow> bool" where
  "wf_txdb s \<longleftrightarrow> hm_wf (txs s) \<and> hm_wf (mempool s) \<and> list_all (\<lambda>(k, v). v = k) (mempool s)"

lemma wf_txdb_new [simp, uaas_wf]: "wf_txdb (txdb_new b)"
  by (simp add: wf_txdb_def txdb_new_def)

lemma wf_txdb_load_tx [uaas_wf]: "wf_txdb s \<Longrightarrow> wf_txdb (load_tx L rows s)"
proof -
  have "wf_txdb s \<Longrightarrow> wf_txdb (fold (load_tx_entry L) rs s)" for rs
    by (induction rs arbitrary: s) (auto simp: wf_txdb_def load_tx_entry_def split: option.splits)
  then show "wf_txdb s \<Longrightarrow> wf_txdb (load_tx L rows s)" by (simp add: load_tx_def split: option.split)
qed

lemma wf_txdb_load_mempool [uaas_wf]: "wf_txdb s \<Longrightarrow> wf_txdb (load_mempool L rows s)"
proof -
  have "wf_txdb s \<Longrightarrow> wf_txdb (fold (load_mempool_entry L) rs s)" for rs
    by (induction rs arbitrary: s)
      (auto simp: wf_txdb_def load_mempool_entry_def list_all_hm_insert split: option.splits)
  then show "wf_txdb s \<Longrightarrow> wf_txdb (load_mempool L rows s)"
    by (simp add: load_mempool_def split: option.split)
qed

lemma save_tx_frame [simp]:
  "txs (save_tx L t hash i h s) = txs s" "mempool (save_tx L t hash i h s) = mempool s"
  "save_txs (save_tx L t hash i h s) = save_txs s"
  "hashes_to_delete (save_tx L t hash i h s) = hashes_to_delete s"
  "mempool_entries (save_tx L t hash i h s) = mempool_entries s"
  by (simp_all add: save_tx_def Let_def split: option.split)

lemma txdb_process_tx_frame [simp]:
  "save_txs (txdb_process_tx L hs hu it s) = save_txs s"
  "mempool_entries (txdb_process_tx L hs hu it s) = mempool_entries s"
  by (simp_all add: txdb_process_tx_def Let_def split: prod.split option.split)

lemma wf_txdb_process_tx [uaas_wf]: "wf_txdb s \<Longrightarrow> wf_txdb (txdb_process_tx L hs hu it s)"
  by (auto simp: wf_txdb_def txdb_process_tx_def Let_def list_all_hm_remove split: prod.split option.split)

lemma wf_txdb_process_block [uaas_wf]: "wf_txdb s \<Longrightarrow> wf_txdb (txdb_process_block L b h s)"
proof -
  have "wf_txdb s \<Longrightarrow> wf_txdb (fold (txdb_process_tx L hs hu) its s)" for hs hu its
    by (induction its arbitrary: s) (simp_all add: wf_txdb_process_tx)
  then show "wf_txdb s \<Longrightarrow> wf_txdb (txdb_process_block L b h s)"
    by (simp add: txdb_process_block_def split: option.split)
qed

lemma wf_txdb_add_to_mempool [uaas_wf]: "wf_txdb s \<Longrightarrow> wf_txdb (add_to_mempool L now t fee s)"
  by (auto simp: wf_txdb_def add_to_mempool_def Let_def list_all_hm_insert list_all_hm_remove
      split: option.split)

lemma wf_txdb_flush [uaas_wf]:
  "wf_txdb s \<Longrightarrow> wf_txdb (fst (batch_delete_from_mempool s c))"
  "wf_txdb s \<Longrightarrow> wf_txdb (fst (batch_write_tx_to_table s c))"
  "wf_txdb s \<Longrightarrow> wf_txdb (fst (batch_write_mempool s c))"
  "wf_txdb s \<Longrightarrow> wf_txdb (fst (txdb_handle_orphan_block h s c))"
  by (auto simp: wf_txdb_def uaas_defs Let_def)

section \<open>Dropping a height\<close>

lemma txdb_pruned:
  "wf_txdb s \<Longrightarrow> hm_get (txs (fst (txdb_handle_orphan_block h s c))) k =
     (case hm_get (txs s) k of Some v \<Rightarrow> if int (unat v) = int (unat h) then None else Some v | None \<Rightarrow> None)"
  unfolding int_unat_eq_iff
  by (simp add: txdb_handle_orphan_block_def hm_get_retain wf_txdb_def split: option.split)

interpretation txdb_heights: height_store
  "\<lambda>h s. fst (txdb_handle_orphan_block h s c)" "\<lambda>s. hm_get (txs s)" "\<lambda>v. int (unat v)" wf_txdb
  by unfold_locales (simp_all add: wf_txdb_flush txdb_pruned)

section \<open>Processing a block\<close>

text \<open>
  The effect of the loop, field by field, over any list of indexed transactions whose
  indices fit \<open>u32\<close>.
\<close>

lemma txdb_process_mempool:
  "hm_get (mempool (fold (txdb_process_tx L hs hu) its s)) k =
     (if k \<in> tx_hash L ` snd ` set its then None else hm_get (mempool s) k)"
proof (induction its arbitrary: s)
  case Nil
  then show ?case by simp
next
  case (Cons it its)
  have "hm_get (mempool (txdb_process_tx L hs hu it s)) k =
      (if k = tx_hash L (snd it) then None else hm_get (mempool s) k)"
    by (auto simp: txdb_process_tx_def Let_def hm_get_remove hm_contains_def
        split: prod.split option.split)
  then show ?case using Cons.IH by auto
qed

lemma txdb_process_txs:
  assumes "save_txs s" and "list_all (\<lambda>(i, t). i < 2 ^ 32) its"
  shows "hm_get (txs (fold (txdb_process_tx L hs hu) its s)) k =
     (if k \<in> tx_hash L ` snd ` set its then Some hu else hm_get (txs s) k)"
  using assms
proof (induction its arbitrary: s)
  case Nil
  then show ?case by simp
next
  case (Cons it its)
  then have "hm_get (txs (txdb_process_tx L hs hu it s)) k =
      (if k = tx_hash L (snd it) then Some hu else hm_get (txs s) k)"
    by (auto simp: txdb_process_tx_def Let_def hm_get_insert u32_of_usize_def
        split: prod.split option.split)
  then show ?case using Cons by auto
qed

lemma txdb_process_deletes:
  "set (hashes_to_delete (fold (txdb_process_tx L hs hu) its s)) =
     set (hashes_to_delete s) \<union> {k \<in> tx_hash L ` snd ` set its. hm_contains (mempool s) k}"
proof (induction its arbitrary: s)
  case Nil
  then show ?case by simp
next
  case (Cons it its)
  let ?s = "txdb_process_tx L hs hu it s"
  have "hashes_to_delete ?s = hashes_to_delete s @
      (if hm_contains (mempool s) (tx_hash L (snd it)) then [tx_hash L (snd it)] else [])"
    by (auto simp: txdb_process_tx_def Let_def split: prod.split option.split)
  moreover have "hm_contains (mempool ?s) k \<longleftrightarrow> k \<noteq> tx_hash L (snd it) \<and> hm_contains (mempool s) k" for k
    using txdb_process_mempool [of L hs hu "[it]" s k] by (auto simp: hm_contains_def split: if_splits)
  ultimately show ?case using Cons.IH by auto
qed

end
