(* ===== verification/Config.thy ===== *)
theory Config
  imports Complex_Main Chain_Types
begin

text \<open>
  The configuration (\<open>rust/src/config.rs\<close>): the structs as records and the methods that
  read them. Parsing the file and the environment variable (\<open>toml\<close>, \<open>serde_json\<close>) and
  parsing an IP address are parameters; so are the environment variables themselves.
  Error values are the strings the code returns; where an error of a crate is formatted into
  the string, that part is left out.
\<close>

record service =
  sv_user_agent :: string
  sv_network :: string
  sv_rust_address :: string

text \<open>A finite \<open>f64\<close> is a rational number.\<close>

record network_settings =
  ns_ip :: "string list"
  ns_port :: "16 word"
  ns_timeout_period :: rat
  ns_start_block_hash :: string
  ns_start_block_height :: u32
  ns_startup_load_from_database :: bool
  ns_block_file :: string
  ns_save_blocks :: bool
  ns_save_txs :: bool

record database_config =
  dc_mysql_url :: string
  dc_mysql_url_docker :: string
  dc_ms_delay :: u64
  dc_retries :: usize

record orphan_config =
  oc_detect :: bool
  oc_threshold :: usize

record collection_config =
  cc_name :: string
  cc_track_descendants :: bool
  cc_address :: "string option"
  cc_locking_script_pattern :: "string option"

record web_interface_config =
  wi_api_key :: "string option"
  wi_rate_limit_per_minute :: u32
  wi_max_broadcast_tx_bytes :: usize

record config =
  cf_service :: service
  cf_mainnet :: network_settings
  cf_testnet :: network_settings
  cf_database :: database_config
  cf_orphan :: orphan_config
  cf_logging_level :: string
  cf_dynamic_config_filename :: string
  cf_web_interface :: web_interface_config
  cf_collection :: "collection_config list"

definition default_max_broadcast_tx_bytes :: usize where
  "default_max_broadcast_tx_bytes = 1000000"

definition default_web_interface_config :: web_interface_config where
  "default_web_interface_config =
     \<lparr>wi_api_key = None, wi_rate_limit_per_minute = 0,
      wi_max_broadcast_tx_bytes = default_max_broadcast_tx_bytes\<rparr>"

section \<open>Methods of \<open>Config\<close>\<close>

definition get_network :: "config \<Rightarrow> string + network" where
  "get_network cf =
     (let n = sv_network (cf_service cf)
      in if n = ''mainnet'' then Inr BSV_Mainnet
         else if n = ''testnet'' then Inr BSV_Testnet
         else if n = ''stn'' then Inr BSV_STN
         else Inl ''unable to decode network'')"

definition get_network_settings :: "config \<Rightarrow> string + network_settings" where
  "get_network_settings cf =
     (let n = sv_network (cf_service cf)
      in if n = ''mainnet'' then Inr (cf_mainnet cf)
         else if n = ''testnet'' then Inr (cf_testnet cf)
         else if n = ''stn'' then Inl ''no settings for STN''
         else Inl ''unable to decode network'')"

text \<open>The loop of \<open>get_ips\<close>: it stops at the first address that does not parse.\<close>

fun parse_ips :: "(string \<Rightarrow> 'ip option) \<Rightarrow> 'ip list \<Rightarrow> string list \<Rightarrow> string + 'ip list" where
  "parse_ips parse ip_list [] = Inr ip_list"
| "parse_ips parse ip_list (ip # ips) =
     (case parse ip of
        None \<Rightarrow> Inl (''unable to parse ip address '' @ [CHR 0x27] @ ip @ [CHR 0x27])
      | Some value \<Rightarrow> parse_ips parse (ip_list @ [value]) ips)"

definition get_ips :: "(string \<Rightarrow> 'ip option) \<Rightarrow> config \<Rightarrow> string + 'ip list" where
  "get_ips parse cf =
     (case get_network_settings cf of
        Inl e \<Rightarrow> Inl e
      | Inr settings \<Rightarrow> parse_ips parse [] (ns_ip settings))"

definition validate_startup :: "ext_lib \<Rightarrow> (string \<Rightarrow> 'ip option) \<Rightarrow> config \<Rightarrow> string + unit" where
  "validate_startup L parse cf =
     (case get_network_settings cf of
        Inl e \<Rightarrow> Inl e
      | Inr settings \<Rightarrow>
          if ns_ip settings = [] then Inl ''network ip list must not be empty''
          else (case get_ips parse cf of
                  Inl e \<Rightarrow> Inl e
                | Inr _ \<Rightarrow>
                    (case get_network cf of
                       Inl e \<Rightarrow> Inl e
                     | Inr _ \<Rightarrow>
                         (case hash_decode L (ns_start_block_hash settings) of
                            None \<Rightarrow> Inl (''invalid start_block_hash '' @ [CHR 0x27] @
                                     ns_start_block_hash settings @ [CHR 0x27])
                          | Some _ \<Rightarrow> Inr ()))))"

text \<open>The argument is the value of the environment variable \<open>APP_ENV\<close>, if it is set.\<close>

definition get_mysql_url :: "string option \<Rightarrow> config \<Rightarrow> string" where
  "get_mysql_url app_env cf =
     (case app_env of
        Some _ \<Rightarrow> dc_mysql_url_docker (cf_database cf)
      | None \<Rightarrow> dc_mysql_url (cf_database cf))"

datatype log_level = LevelError | LevelWarn | LevelInfo | LevelDebug | LevelTrace

definition get_log_level :: "config \<Rightarrow> log_level" where
  "get_log_level cf =
     (let l = cf_logging_level cf
      in if l = ''error'' then LevelError
         else if l = ''warn'' \<or> l = ''warning'' then LevelWarn
         else if l = ''info'' \<or> l = ''information'' then LevelInfo
         else if l = ''debug'' then LevelDebug
         else if l = ''trace'' then LevelTrace
         else LevelWarn)"

text \<open>
  \<open>get_config\<close>: the environment variable (\<open>Some None\<close> where it is not UTF-8) wins over the
  file (\<open>None\<close> where it cannot be read). The parsers of the crates are arguments.
\<close>

definition read_config :: "(string \<Rightarrow> config option) \<Rightarrow> string option \<Rightarrow> string + config" where
  "read_config from_toml file =
     (case file of
        None \<Rightarrow> Inl ''io error''
      | Some content \<Rightarrow> (case from_toml content of None \<Rightarrow> Inl ''invalid data'' | Some cf \<Rightarrow> Inr cf))"

definition get_config ::
  "(string \<Rightarrow> config option) \<Rightarrow> (string \<Rightarrow> config option) \<Rightarrow> string option option \<Rightarrow> string option \<Rightarrow>
   string + config" where
  "get_config from_json from_toml env_var file =
     (case env_var of
        Some content \<Rightarrow>
          (case content of
             None \<Rightarrow> Inl ''environment variable contains invalid UTF-8''
           | Some val \<Rightarrow>
               (case from_json val of
                  None \<Rightarrow> Inl ''error parsing JSON environment variable''
                | Some cf \<Rightarrow> Inr cf))
      | None \<Rightarrow>
          (case read_config from_toml file of
             Inl err \<Rightarrow> Inl (''error reading config file: '' @ err)
           | Inr cf \<Rightarrow> Inr cf))"

section \<open>Facts\<close>

lemma parse_ips_Inr:
  "parse_ips parse acc ips = Inr vs \<longleftrightarrow> (\<exists>ws. map parse ips = map Some ws \<and> vs = acc @ ws)"
proof (induction ips arbitrary: acc vs)
  case Nil
  then show ?case by auto
next
  case (Cons ip ips)
  show ?case
  proof (cases "parse ip")
    case None
    then show ?thesis by (auto simp: map_eq_Cons_conv dest!: sym [of "None # _"])
  next
    case (Some v)
    then show ?thesis using Cons.IH [of "acc @ [v]" vs]
      by (auto simp: Cons_eq_map_conv)
  qed
qed

lemma get_network_of_settings:
  "get_network_settings cf = Inr settings \<Longrightarrow> \<exists>n. get_network cf = Inr n"
  by (auto simp: get_network_settings_def get_network_def Let_def split: if_splits)

text \<open>What a validated configuration provides.\<close>

lemma validate_startup_ok:
  "validate_startup L parse cf = Inr () \<longleftrightarrow>
     (\<exists>settings ips start. get_network_settings cf = Inr settings \<and> ns_ip settings \<noteq> [] \<and>
        get_ips parse cf = Inr ips \<and> length ips = length (ns_ip settings) \<and>
        hash_decode L (ns_start_block_hash settings) = Some start)"
proof (cases "get_network_settings cf")
  case (Inl e)
  then show ?thesis by (simp add: validate_startup_def)
next
  case (Inr settings)
  obtain n where n: "get_network cf = Inr n" using get_network_of_settings [OF Inr] by blast
  have len: "get_ips parse cf = Inr ips \<Longrightarrow> length ips = length (ns_ip settings)" for ips
    using Inr by (auto simp: get_ips_def parse_ips_Inr dest: map_eq_imp_length_eq)
  then show ?thesis using Inr n
    by (auto simp: validate_startup_def split: sum.splits option.splits)
qed

text \<open>A configuration, for the witnesses.\<close>

definition sample_settings :: network_settings where
  "sample_settings = \<lparr>ns_ip = [''ip''], ns_port = 8333, ns_timeout_period = 240, ns_start_block_hash = sample_encode 1,
     ns_start_block_height = 0, ns_startup_load_from_database = True, ns_block_file = ''blocks'',
     ns_save_blocks = False, ns_save_txs = True\<rparr>"

definition sample_config :: config where
  "sample_config = \<lparr>cf_service = \<lparr>sv_user_agent = ''uaas'', sv_network = ''mainnet'', sv_rust_address = ''web''\<rparr>,
     cf_mainnet = sample_settings, cf_testnet = sample_settings,
     cf_database = \<lparr>dc_mysql_url = ''url'', dc_mysql_url_docker = ''url'', dc_ms_delay = 300, dc_retries = 3\<rparr>,
     cf_orphan = \<lparr>oc_detect = False, oc_threshold = 100\<rparr>,
     cf_logging_level = ''info'', cf_dynamic_config_filename = ''dynamic'',
     cf_web_interface = default_web_interface_config, cf_collection = []\<rparr>"

end
