(* ===== verification/Db_Server.thy ===== *)
theory Db_Server
  imports Db_Ops
begin

text \<open>
  The MySQL server and the \<open>retry\<close> crate as the code calls them. A statement with its
  parameters is a value of \<open>sql_stmt\<close>, one constructor for each \<open>exec_batch\<close> or
  \<open>exec_drop\<close> of the code that writes rows. The server is a function that answers a statement and
  changes its own state, also where it reports an error: a batch is not a transaction, and
  may fail half way. Both are fields of a record \<open>db_env\<close> that the writing operations take.
\<close>

datatype sql_stmt =
    ReplaceUtxo "utxo_entry_db list"
  | DeleteUtxo "(string \<times> u32) list"
  | InsertTx "(string \<times> usize \<times> u32 \<times> u32 \<times> u64) list"
  | InsertMempool "(string \<times> u32 \<times> i64 \<times> u64 \<times> string) list"
  | DeleteMempool "string list"
  | InsertBlock u32 string u32 string string u32 u32 u32 u64 u32 u32
  | DeleteBlock string
  | DeleteTxAtHeight u32
  | DeleteUtxoAtHeight u32
  | InsertOrphan u32 string u32 string string u32 u32 u32
  | InsertCollection string string string
  | InsertAddr string u64 "16 word"
  | InsertConnect string string string

type_synonym 'db db_call = "'db \<Rightarrow> (unit + unit) \<times> 'db"

record 'db db_env =
  server :: "sql_stmt \<Rightarrow> 'db db_call"
  retry :: "u64 list \<Rightarrow> 'db db_call \<Rightarrow> 'db db_call"
  ms_delay :: u64
  retries :: usize

text \<open>\<open>retry(delay::Fixed::from_millis(self.ms_delay).take(self.retries), || exec)\<close>\<close>

definition retry_stmt :: "'db db_env \<Rightarrow> sql_stmt \<Rightarrow> 'db db_call" where
  "retry_stmt E stmt = retry E (replicate (retries E) (ms_delay E)) (server E stmt)"

text \<open>
  The documented behaviour of the crate: the call is repeated while it fails and delays are
  left, and the last answer is returned.
\<close>

definition retry_crate_ok :: "'db db_env \<Rightarrow> bool" where
  "retry_crate_ok E \<longleftrightarrow>
     (\<forall>call db. retry E [] call db = call db) \<and>
     (\<forall>d ds call db. retry E (d # ds) call db =
        (case call db of (Inr u, db') \<Rightarrow> (Inr u, db') | (Inl e, db') \<Rightarrow> retry E ds call db'))"

text \<open>A server that accepts every statement at once.\<close>

definition never_fails :: "'db db_env \<Rightarrow> bool" where
  "never_fails E \<longleftrightarrow> (\<forall>stmt db. \<exists>db'. server E stmt db = (Inr (), db'))"

lemma retry_stmt_ok:
  assumes "retry_crate_ok E" and "server E stmt db = (Inr (), db')"
  shows "retry_stmt E stmt db = (Inr (), db')"
  using assms by (cases "retries E") (simp_all add: retry_stmt_def retry_crate_ok_def)

text \<open>With \<open>n\<close> retries a statement is issued at most \<open>n + 1\<close> times; it fails only if all did.\<close>

fun attempts :: "nat \<Rightarrow> 'db db_call \<Rightarrow> 'db db_call" where
  "attempts 0 call db = call db"
| "attempts (Suc n) call db =
     (case call db of (Inr u, db') \<Rightarrow> (Inr u, db') | (Inl e, db') \<Rightarrow> attempts n call db')"

lemma retry_stmt_attempts:
  assumes "retry_crate_ok E"
  shows "retry_stmt E stmt db = attempts (retries E) (server E stmt) db"
proof -
  have "retry E (replicate n d) call db = attempts n call db" for n d call db
    using assms
    by (induction n arbitrary: db) (auto simp: retry_crate_ok_def split: prod.split sum.split)
  then show ?thesis by (simp add: retry_stmt_def)
qed

text \<open>
  What the server does to one table: the statements that concern it and that it accepts succeed with
  their effect on the table, the others may fail and leave it as it is. With retries it is the same.
\<close>

locale table_server =
  fixes W :: "'db db_env"
    and tbl :: "'db \<Rightarrow> 't"
    and concerns :: "sql_stmt \<Rightarrow> bool"
    and accepts :: "sql_stmt \<Rightarrow> 't \<Rightarrow> bool"
    and effect :: "sql_stmt \<Rightarrow> 't \<Rightarrow> 't"
  assumes retry_crate: "retry_crate_ok W"
    and takes_effect: "concerns stmt \<Longrightarrow> accepts stmt (tbl db) \<Longrightarrow>
      fst (server W stmt db) = Inr () \<and> tbl (snd (server W stmt db)) = effect stmt (tbl db)"
    and left_alone: "\<not> concerns stmt \<Longrightarrow> tbl (snd (server W stmt db)) = tbl db"
    and no_effect: "\<not> concerns stmt \<Longrightarrow> effect stmt t = t"
begin

lemma retry_effect:
  assumes "concerns stmt \<Longrightarrow> accepts stmt (tbl db)"
  shows "tbl (snd (retry_stmt W stmt db)) = effect stmt (tbl db)"
proof (cases "concerns stmt")
  case True
  obtain r db' where s: "server W stmt db = (r, db')" by (cases "server W stmt db")
  then show ?thesis using takes_effect [OF True assms [OF True]] retry_stmt_ok [OF retry_crate, of stmt db db'] by simp
next
  case False
  have "tbl (snd (attempts n (server W stmt) db)) = tbl db" for n
  proof (induction n arbitrary: db)
    case (Suc n)
    then show ?case using left_alone [OF False, of db] by (auto split: prod.split sum.split)
  qed (simp add: left_alone [OF False])
  then show ?thesis by (simp add: retry_stmt_attempts [OF retry_crate] no_effect [OF False])
qed

end

section \<open>A concrete server\<close>

text \<open>
  For the witnesses: a server that records the statements it is given and accepts all of
  them, and one that refuses the first \<open>n\<close>.
\<close>

definition log_env :: "sql_stmt list db_env" where
  "log_env = \<lparr>server = (\<lambda>stmt db. (Inr (), db @ [stmt])),
     retry = (\<lambda>ds call db. attempts (length ds) call db), ms_delay = 300, retries = 3\<rparr>"

definition flaky_env :: "(nat \<times> sql_stmt list) db_env" where
  "flaky_env = \<lparr>server = (\<lambda>stmt (n, db). case n of 0 \<Rightarrow> (Inr (), 0, db @ [stmt]) | Suc m \<Rightarrow> (Inl (), m, db)),
     retry = (\<lambda>ds call db. attempts (length ds) call db), ms_delay = 300, retries = 3\<rparr>"

lemma log_env_ok [simp]: "retry_crate_ok log_env" "never_fails log_env"
  by (simp_all add: retry_crate_ok_def never_fails_def log_env_def split: prod.split sum.split)

lemma flaky_env_ok [simp]: "retry_crate_ok flaky_env"
  by (simp add: retry_crate_ok_def flaky_env_def split: prod.split sum.split)

end
