(* ===== verification/Collection.thy ===== *)
theory Collection
  imports Config Db_Server
begin

text \<open>
  The monitored collections (\<open>rust/src/uaas/collection.rs\<close>): each pairs a configured
  monitor with the hashes of the transactions it has taken, and matches transactions by a
  regular expression on their locking scripts or by descent. A compiled regular expression
  is its \<open>is_match\<close>.
\<close>

record working_collection =
  collection :: collection_config
  wc_txs :: "hash256 list"
  locking_script_regex :: "(string \<Rightarrow> bool) option"

definition address_to_lock_script :: "ext_lib \<Rightarrow> string \<Rightarrow> network \<Rightarrow> string + string" where
  "address_to_lock_script L address network =
     (case addr_decode L address network of
        None \<Rightarrow> Inl ''address error''
      | Some (hash160, address_type) \<Rightarrow>
          if address_type \<noteq> P2PKH
          then Inl ''Unsupported address type for collection monitor: only P2PKH addresses are supported''
          else Inr (hex_encode L (create_lock_script L hash160)))"

section \<open>\<open>CollectionDatabase\<close>\<close>

definition collection_decode_stored_hash :: "ext_lib \<Rightarrow> string \<Rightarrow> hash256 option" where
  "collection_decode_stored_hash L value =
     (case hash_decode L value of Some hash \<Rightarrow> Some hash | None \<Rightarrow> None)"

definition load_txs :: "ext_lib \<Rightarrow> string list option \<Rightarrow> hash256 list" where
  "load_txs L txs =
     (case txs of None \<Rightarrow> [] | Some hs \<Rightarrow> List.map_filter (collection_decode_stored_hash L) hs)"

definition write_tx_to_database :: "ext_lib \<Rightarrow> 'db db_env \<Rightarrow> string \<Rightarrow> tx \<Rightarrow> 'db \<Rightarrow> 'db" where
  "write_tx_to_database L E collection_name t db =
     (let hash = hash_encode L (tx_hash L t)
      in case tx_write L t of
           None \<Rightarrow> db
         | Some b \<Rightarrow>
             let tx_hex = hexslice_fmt b
             in case retry_stmt E (InsertCollection hash collection_name tx_hex) db of
                  (Inl _, db') \<Rightarrow> db'
                | (Inr _, db') \<Rightarrow> db')"

section \<open>\<open>WorkingCollection\<close>\<close>

definition wc_new :: "ext_lib \<Rightarrow> collection_config \<Rightarrow> network \<Rightarrow> string + working_collection" where
  "wc_new L cc network =
     (case cc_address cc of
        Some addr \<Rightarrow>
          (case address_to_lock_script L addr network of
             Inl e \<Rightarrow> Inl e
           | Inr pattern \<Rightarrow>
               (case regex_new L pattern of
                  None \<Rightarrow> Inl ''regex error''
                | Some re \<Rightarrow> Inr \<lparr>collection = cc, wc_txs = [], locking_script_regex = Some re\<rparr>))
      | None \<Rightarrow>
          (case cc_locking_script_pattern cc of
             Some pattern \<Rightarrow>
               (case regex_new L pattern of
                  None \<Rightarrow> Inl ''regex error''
                | Some re \<Rightarrow> Inr \<lparr>collection = cc, wc_txs = [], locking_script_regex = Some re\<rparr>)
           | None \<Rightarrow> Inl ''Incorrect Collection configuration''))"

definition create_broadcast_collection :: working_collection where
  "create_broadcast_collection =
     \<lparr>collection = \<lparr>cc_name = ''broadcast'', cc_track_descendants = False, cc_address = None,
        cc_locking_script_pattern = None\<rparr>, wc_txs = [], locking_script_regex = None\<rparr>"

definition wc_name :: "working_collection \<Rightarrow> string" where
  "wc_name c = cc_name (collection c)"

definition track_descendants :: "working_collection \<Rightarrow> bool" where
  "track_descendants c = cc_track_descendants (collection c)"

definition have_tx :: "working_collection \<Rightarrow> hash256 \<Rightarrow> bool" where
  "have_tx c hash = list_ex (\<lambda>x. x = hash) (wc_txs c)"

fun any_output_matches :: "(string \<Rightarrow> bool) \<Rightarrow> tx_out list \<Rightarrow> bool" where
  "any_output_matches is_match [] = False"
| "any_output_matches is_match (vout # vouts) =
     (let script_hex = hexslice_fmt (lock_script vout)
      in if is_match script_hex then True else any_output_matches is_match vouts)"

definition match_any_locking_script :: "working_collection \<Rightarrow> tx \<Rightarrow> bool" where
  "match_any_locking_script c t =
     (case locking_script_regex c of
        Some re \<Rightarrow> any_output_matches re (tx_outputs t)
      | None \<Rightarrow> False)"

definition wc_push :: "hash256 \<Rightarrow> working_collection \<Rightarrow> working_collection" where
  "wc_push hash c = c\<lparr>wc_txs := wc_txs c @ [hash]\<rparr>"

definition is_decendant :: "working_collection \<Rightarrow> tx \<Rightarrow> bool" where
  "is_decendant c t =
     list_ex (\<lambda>vin. list_ex (\<lambda>x. x = op_hash (prev_output vin)) (wc_txs c)) (tx_inputs t)"

section \<open>Facts\<close>

lemma have_tx_iff [simp]: "have_tx c h \<longleftrightarrow> h \<in> set (wc_txs c)"
  by (auto simp: have_tx_def list_ex_iff)

lemma wc_push_sel [simp]:
  "collection (wc_push h c) = collection c" "wc_txs (wc_push h c) = wc_txs c @ [h]"
  "locking_script_regex (wc_push h c) = locking_script_regex c" "wc_name (wc_push h c) = wc_name c"
  by (simp_all add: wc_push_def wc_name_def)

lemma is_decendant_iff:
  "is_decendant c t \<longleftrightarrow> (\<exists>vin \<in> set (tx_inputs t). op_hash (prev_output vin) \<in> set (wc_txs c))"
  by (auto simp: is_decendant_def list_ex_iff)

lemma match_any_locking_script_iff:
  "match_any_locking_script c t \<longleftrightarrow>
     (\<exists>re. locking_script_regex c = Some re \<and>
        (\<exists>vout \<in> set (tx_outputs t). re (hexslice_fmt (lock_script vout))))"
proof -
  have "any_output_matches re vouts \<longleftrightarrow> (\<exists>vout \<in> set vouts. re (hexslice_fmt (lock_script vout)))" for re vouts
    by (induction vouts) (simp_all add: Let_def)
  then show ?thesis by (simp add: match_any_locking_script_def split: option.split)
qed

lemma wc_new_sel:
  "wc_new L cc n = Inr wc \<Longrightarrow>
   collection wc = cc \<and> wc_txs wc = [] \<and> (\<exists>re. locking_script_regex wc = Some re)"
  by (auto simp: wc_new_def split: option.splits sum.splits)

lemma create_broadcast_sel [simp]:
  "wc_name create_broadcast_collection = ''broadcast''" "wc_txs create_broadcast_collection = []"
  "\<not> match_any_locking_script create_broadcast_collection t"
  "\<not> track_descendants create_broadcast_collection"
  by (simp_all add: create_broadcast_collection_def wc_name_def match_any_locking_script_def
      track_descendants_def)

lemma write_tx_retries:
  assumes "retry_crate_ok E" and "tx_write L t = Some b"
  shows "write_tx_to_database L E name t db =
     snd (attempts (retries E)
       (server E (InsertCollection (hash_encode L (tx_hash L t)) name (hexslice_fmt b))) db)"
  using assms
  by (simp add: write_tx_to_database_def Let_def retry_stmt_attempts split: prod.split sum.split)

end
