(* ===== verification/Dynamic_Config.thy ===== *)
theory Dynamic_Config
  imports Config
begin

text \<open>
  The monitors added while the service runs (\<open>rust/src/dynamic_config.rs\<close>), kept in a file.
  The file is part of the state here: its content as the list that was last saved, or
  \<open>None\<close> where it cannot be read back. Whether a write succeeds is an argument; a failed
  one leaves the file as it was and is only logged.
\<close>

record dynamic_config =
  dyn_filename :: string
  dyn_collection :: "collection_config list"

type_synonym dyn_file = "collection_config list option"

definition read_dynamic_config :: "dyn_file \<Rightarrow> string + collection_config list" where
  "read_dynamic_config file =
     (case file of None \<Rightarrow> Inl ''io error'' | Some clients \<Rightarrow> Inr clients)"

definition save_dynamic_config :: "bool \<Rightarrow> collection_config list \<Rightarrow> dyn_file \<Rightarrow> (string + unit) \<times> dyn_file" where
  "save_dynamic_config writable clients file =
     (if writable then (Inr (), Some clients) else (Inl ''io error'', file))"

definition dyn_new :: "config \<Rightarrow> dyn_file \<Rightarrow> dynamic_config" where
  "dyn_new cf file =
     \<lparr>dyn_filename = cf_dynamic_config_filename cf,
      dyn_collection = (case read_dynamic_config file of Inr clients \<Rightarrow> clients | Inl _ \<Rightarrow> [])\<rparr>"

definition dyn_save :: "bool \<Rightarrow> dynamic_config \<Rightarrow> dyn_file \<Rightarrow> dyn_file" where
  "dyn_save writable d file =
     (case save_dynamic_config writable (dyn_collection d) file of
        (Inl _, file') \<Rightarrow> file'
      | (Inr _, file') \<Rightarrow> file')"

definition dyn_add ::
  "bool \<Rightarrow> collection_config \<Rightarrow> dynamic_config \<Rightarrow> dyn_file \<Rightarrow> dynamic_config \<times> dyn_file" where
  "dyn_add writable monitor d file =
     (let d = d\<lparr>dyn_collection := dyn_collection d @ [monitor]\<rparr>
      in (d, dyn_save writable d file))"

text \<open>\<open>iter().position(..)\<close>, and \<open>Vec::remove\<close> at the index it finds.\<close>

fun iter_position :: "('a \<Rightarrow> bool) \<Rightarrow> 'a list \<Rightarrow> nat option" where
  "iter_position P [] = None"
| "iter_position P (x # xs) = (if P x then Some 0 else map_option Suc (iter_position P xs))"

definition vec_remove :: "nat \<Rightarrow> 'a list \<Rightarrow> 'a list" where
  "vec_remove index xs = take index xs @ drop (Suc index) xs"

definition dyn_delete ::
  "bool \<Rightarrow> string \<Rightarrow> dynamic_config \<Rightarrow> dyn_file \<Rightarrow> dynamic_config \<times> dyn_file" where
  "dyn_delete writable name d file =
     (case iter_position (\<lambda>c. cc_name c = name) (dyn_collection d) of
        Some index \<Rightarrow>
          let d = d\<lparr>dyn_collection := vec_remove index (dyn_collection d)\<rparr>
          in (d, dyn_save writable d file)
      | None \<Rightarrow> (d, file))"

section \<open>Facts\<close>

lemma position_None: "iter_position P xs = None \<longleftrightarrow> (\<forall>x \<in> set xs. \<not> P x)"
  by (induction xs) auto

text \<open>Removing the first element that satisfies \<open>P\<close>.\<close>

lemma position_Some_split:
  "iter_position P xs = Some i \<Longrightarrow>
   \<exists>as x bs. xs = as @ x # bs \<and> P x \<and> (\<forall>a \<in> set as. \<not> P a) \<and> vec_remove i xs = as @ bs"
proof (induction xs arbitrary: i)
  case Nil
  then show ?case by simp
next
  case (Cons y ys)
  show ?case
  proof (cases "P y")
    case True
    then have "i = 0" using Cons.prems by simp
    then show ?thesis using True by (intro exI [of _ "[]"]) (auto simp: vec_remove_def)
  next
    case False
    then obtain j where j: "i = Suc j" "iter_position P ys = Some j" using Cons.prems by auto
    from Cons.IH [OF j(2)] obtain as x bs where
      "ys = as @ x # bs" "P x" "\<forall>a \<in> set as. \<not> P a" "vec_remove j ys = as @ bs" by blast
    then show ?thesis using False j(1)
      by (intro exI [of _ "y # as"] exI [of _ x] exI [of _ bs]) (simp add: vec_remove_def)
  qed
qed

lemma dyn_save_eq [simp]: "dyn_save writable d file = (if writable then Some (dyn_collection d) else file)"
  by (simp add: dyn_save_def save_dynamic_config_def)

lemma dyn_add_then_reload:
  "dyn_collection (dyn_new cf (snd (dyn_add True monitor d file))) = dyn_collection d @ [monitor]"
  by (simp add: dyn_add_def dyn_new_def read_dynamic_config_def Let_def)

text \<open>A name that occurs once is gone after \<open>delete\<close>, and nothing else changes.\<close>

lemma dyn_delete_names:
  assumes "distinct (map cc_name (dyn_collection d))"
  shows "dyn_collection (fst (dyn_delete w name d file)) =
     filter (\<lambda>c. cc_name c \<noteq> name) (dyn_collection d)"
proof (cases "iter_position (\<lambda>c. cc_name c = name) (dyn_collection d)")
  case None
  then have "filter (\<lambda>c. cc_name c \<noteq> name) (dyn_collection d) = dyn_collection d"
    by (auto simp: position_None intro: filter_True)
  then show ?thesis using None by (simp add: dyn_delete_def)
next
  case (Some i)
  from position_Some_split [OF this] obtain as x bs where
    s: "dyn_collection d = as @ x # bs" "cc_name x = name" "vec_remove i (dyn_collection d) = as @ bs"
    by blast
  then have "\<forall>c \<in> set as \<union> set bs. cc_name c \<noteq> name"
    using assms by (force simp: image_iff)
  then have "filter (\<lambda>c. cc_name c \<noteq> name) as = as" "filter (\<lambda>c. cc_name c \<noteq> name) bs = bs"
    by (auto intro!: filter_True)
  then show ?thesis using Some s by (simp add: dyn_delete_def Let_def)
qed

end
