(* ===== verification/Tx_Analyser.thy ===== *)
theory Tx_Analyser
  imports Utxo_Table Txdb Collection Dynamic_Config
begin

text \<open>
  The transaction analyser (\<open>rust/src/uaas/tx_analyser.rs\<close>): it owns the transaction and
  output stores and the collections, and processes blocks and single transactions. The field
  \<open>ta_db\<close> is the database as the collections' connection writes it, \<open>ta_dyn_file\<close> the file
  of the dynamic monitors. The channel to the database writer is passed through.

  Two loops of the code are written \<open>let _ = iterator.map(closure)\<close>: the inputs of a
  transaction and the transactions of a block. The adaptor is lazy and nothing consumes it,
  so its closure never runs; both are \<open>iter_drop\<close> of the adaptor here.
\<close>

record 'db tx_analyser =
  ta_save_txs :: bool
  ta_txdb :: tx_db
  ta_utxo :: utxo_db
  ta_collection :: "working_collection list"
  ta_dynamic_config :: dynamic_config
  ta_network :: network
  ta_db :: 'db
  ta_dyn_file :: dyn_file

definition NOT_IN_BLOCK :: i32 where
  "NOT_IN_BLOCK = -1"

definition NOT_A_COINBASE_TX :: usize where
  "NOT_A_COINBASE_TX = 1"

section \<open>Scripts\<close>

definition str_slice :: "string \<Rightarrow> nat \<Rightarrow> nat \<Rightarrow> string" where
  "str_slice s a b = take (b - a) (drop a s)"

definition script_to_pubkeyhash :: "ext_lib \<Rightarrow> script \<Rightarrow> string" where
  "script_to_pubkeyhash L locking_script =
     (if length locking_script = 25
      then let hexstr = hex_encode L locking_script
           in if str_slice hexstr 0 6 = ''76a914'' \<and> drop 46 hexstr = ''88ac''
              then str_slice hexstr 6 46
              else ''unknown''
      else ''unknown'')"

definition is_spendable :: "tx_out \<Rightarrow> bool" where
  "is_spendable vout =
     (if length (lock_script vout) < 2 then True
      else take 2 (lock_script vout) \<noteq> [0x00, 0x6a])"

section \<open>Construction\<close>

definition pool_conn :: "bool \<Rightarrow> string \<Rightarrow> string + unit" where
  "pool_conn available label =
     (if available then Inr ()
      else Inl (''Unable to get '' @ label @ '' database connection''))"

text \<open>The two loops that load the configured collections: one that cannot be built is skipped.\<close>

fun load_collections ::
  "ext_lib \<Rightarrow> network \<Rightarrow> collection_config list \<Rightarrow> working_collection list \<Rightarrow> working_collection list" where
  "load_collections L network [] acc = acc"
| "load_collections L network (c # cs) acc =
     (case wc_new L c network of
        Inr wc \<Rightarrow> load_collections L network cs (acc @ [wc])
      | Inl _ \<Rightarrow> load_collections L network cs acc)"

text \<open>\<open>conns\<close>: which of the four connections the pool provides.\<close>

definition ta_new ::
  "ext_lib \<Rightarrow> config \<Rightarrow> bool \<times> bool \<times> bool \<times> bool \<Rightarrow> dyn_file \<Rightarrow> 'db \<Rightarrow> string + 'db tx_analyser" where
  "ta_new L cf conns file db =
     (let (tx_ok, utxo_ok, txdb_ok, collection_ok) = conns
      in case pool_conn tx_ok ''tx analyser'' of Inl e \<Rightarrow> Inl e | Inr _ \<Rightarrow>
         (case pool_conn utxo_ok ''utxo'' of Inl e \<Rightarrow> Inl e | Inr _ \<Rightarrow>
         (case pool_conn txdb_ok ''txdb'' of Inl e \<Rightarrow> Inl e | Inr _ \<Rightarrow>
         (case pool_conn collection_ok ''collection'' of Inl e \<Rightarrow> Inl e | Inr _ \<Rightarrow>
         (case get_network_settings cf of Inl e \<Rightarrow> Inl e | Inr settings \<Rightarrow>
         (case get_network cf of Inl e \<Rightarrow> Inl e | Inr network \<Rightarrow>
            let dynamic_config = dyn_new cf file;
                coll = load_collections L network (cf_collection cf) [];
                coll = load_collections L network (dyn_collection dynamic_config) coll;
                coll = coll @ [create_broadcast_collection]
            in Inr \<lparr>ta_save_txs = ns_save_txs settings,
                    ta_txdb = txdb_new (ns_save_txs settings),
                    ta_utxo = utxo_new,
                    ta_collection = coll,
                    ta_dynamic_config = dynamic_config,
                    ta_network = network,
                    ta_db = db, ta_dyn_file = file\<rparr>))))))"

text \<open>
  \<open>read_tables\<close>, on the results of the queries: the hashes of the mempool, the transactions
  with their heights, the unspent outputs, and the hashes of each collection by name.
\<close>

definition read_tables ::
  "ext_lib \<Rightarrow> string list option \<Rightarrow> (string \<times> u32) list option \<Rightarrow> utxo_entry_db list option \<Rightarrow>
   (string \<Rightarrow> string list option) \<Rightarrow> 'db tx_analyser \<Rightarrow> 'db tx_analyser" where
  "read_tables L mempool_rows tx_rows utxo_rows collection_rows s =
     (let s = s\<lparr>ta_txdb := load_mempool L mempool_rows (ta_txdb s)\<rparr>;
          s = (if ta_save_txs s then s\<lparr>ta_txdb := load_tx L tx_rows (ta_txdb s)\<rparr> else s);
          s = s\<lparr>ta_utxo := load_utxo L utxo_rows (ta_utxo s)\<rparr>
      in s\<lparr>ta_collection :=
            map (\<lambda>c. c\<lparr>wc_txs := load_txs L (collection_rows (wc_name c))\<rparr>) (ta_collection s)\<rparr>)"

section \<open>One transaction\<close>

definition process_tx_output ::
  "ext_lib \<Rightarrow> hash256 \<Rightarrow> i32 \<Rightarrow> usize \<times> tx_out \<Rightarrow> utxo_db \<Rightarrow> utxo_db" where
  "process_tx_output L hash height it u =
     (let (index, vout) = it
      in if is_spendable vout
         then let pubkeyhash = script_to_pubkeyhash L (lock_script vout)
              in utxo_add L hash index (out_satoshis vout) height pubkeyhash u
         else u)"

definition process_tx_outputs :: "ext_lib \<Rightarrow> tx \<Rightarrow> i32 \<Rightarrow> 'db tx_analyser \<Rightarrow> 'db tx_analyser" where
  "process_tx_outputs L t height s =
     s\<lparr>ta_utxo := fold (process_tx_output L (tx_hash L t) height)
                     (enumerate 0 (tx_outputs t)) (ta_utxo s)\<rparr>"

text \<open>The closure \<open>|vin| self.utxo.delete(&vin.prev_output)\<close>, mapped over the inputs and dropped.\<close>

definition delete_input :: "tx_in \<Rightarrow> 'db tx_analyser \<Rightarrow> 'db tx_analyser" where
  "delete_input vin s = s\<lparr>ta_utxo := utxo_delete (prev_output vin) (ta_utxo s)\<rparr>"

definition process_tx_inputs :: "tx \<Rightarrow> usize \<Rightarrow> 'db tx_analyser \<Rightarrow> 'db tx_analyser" where
  "process_tx_inputs t blockindex s =
     (if blockindex = 0 then s
      else iter_drop (Lazy_Map delete_input (tx_inputs t)) s)"

text \<open>
  \<open>process_collection\<close>: the loop over the collections returns at the first that has the
  transaction or takes it (the result says whether it returned), else the broadcast
  collection may take it.
\<close>

fun take_tx ::
  "ext_lib \<Rightarrow> 'db db_env \<Rightarrow> tx \<Rightarrow> working_collection list \<Rightarrow> 'db \<Rightarrow>
   bool \<times> working_collection list \<times> 'db" where
  "take_tx L E t [] db = (False, [], db)"
| "take_tx L E t (c # cs) db =
     (if have_tx c (tx_hash L t) then (True, c # cs, db)
      else if (track_descendants c \<and> is_decendant c t) \<or> match_any_locking_script c t
      then (True, wc_push (tx_hash L t) c # cs, write_tx_to_database L E (wc_name c) t db)
      else let (r, cs', db') = take_tx L E t cs db in (r, c # cs', db'))"

fun push_broadcast ::
  "ext_lib \<Rightarrow> 'db db_env \<Rightarrow> tx \<Rightarrow> working_collection list \<Rightarrow> 'db \<Rightarrow> working_collection list \<times> 'db" where
  "push_broadcast L E t [] db = ([], db)"
| "push_broadcast L E t (c # cs) db =
     (if wc_name c = ''broadcast''
      then (wc_push (tx_hash L t) c # cs, write_tx_to_database L E (wc_name c) t db)
      else let (cs', db') = push_broadcast L E t cs db in (c # cs', db'))"

definition process_collection ::
  "ext_lib \<Rightarrow> 'db db_env \<Rightarrow> tx \<Rightarrow> bool \<Rightarrow> 'db tx_analyser \<Rightarrow> 'db tx_analyser" where
  "process_collection L E t is_uaas_broadcast_tx s =
     (let (returned, cs, db) = take_tx L E t (ta_collection s) (ta_db s)
      in if returned then s\<lparr>ta_collection := cs, ta_db := db\<rparr>
         else if is_uaas_broadcast_tx
         then let (cs, db) = push_broadcast L E t (ta_collection s) (ta_db s)
              in s\<lparr>ta_collection := cs, ta_db := db\<rparr>
         else s)"

definition process_block_tx ::
  "ext_lib \<Rightarrow> 'db db_env \<Rightarrow> i32 \<Rightarrow> usize \<times> tx \<Rightarrow> 'db tx_analyser \<Rightarrow> 'db tx_analyser" where
  "process_block_tx L E height it s =
     (let (blockindex, t) = it;
          s = process_tx_inputs t blockindex s;
          s = process_tx_outputs L t height s
      in process_collection L E t False s)"

definition ta_flush_database_cache :: "'db tx_analyser \<Rightarrow> db_chan \<Rightarrow> 'db tx_analyser \<times> db_chan" where
  "ta_flush_database_cache s c =
     (let (u, c) = utxo_update_db (ta_utxo s) c;
          (d, c) = batch_delete_from_mempool (ta_txdb s) c;
          (d, c) = batch_write_mempool d c;
          (d, c) = (if ta_save_txs s then batch_write_tx_to_table d c else (d, c))
      in (s\<lparr>ta_utxo := u, ta_txdb := d\<rparr>, c))"

text \<open>\<open>process_block\<close>: the closure over the transactions is mapped and dropped, too.\<close>

definition ta_process_block ::
  "ext_lib \<Rightarrow> 'db db_env \<Rightarrow> block \<Rightarrow> i32 \<Rightarrow> 'db tx_analyser \<Rightarrow> db_chan \<Rightarrow> 'db tx_analyser \<times> db_chan" where
  "ta_process_block L E b height s c =
     (let s = s\<lparr>ta_txdb := txdb_process_block L b height (ta_txdb s)\<rparr>;
          s = iter_drop (Lazy_Map (process_block_tx L E height) (enumerate 0 (blk_txns b))) s
      in ta_flush_database_cache s c)"

fun sum_inputs :: "utxo_db \<Rightarrow> tx_in list \<Rightarrow> i64 \<Rightarrow> i64 option" where
  "sum_inputs u [] inputs = Some inputs"
| "sum_inputs u (vin # vins) inputs =
     (case get_satoshis u (prev_output vin) of
        Some satoshis \<Rightarrow> sum_inputs u vins (inputs + satoshis)
      | None \<Rightarrow> None)"

definition calc_fee :: "tx \<Rightarrow> 'db tx_analyser \<Rightarrow> i64" where
  "calc_fee t s =
     (case sum_inputs (ta_utxo s) (tx_inputs t) 0 of
        None \<Rightarrow> 0
      | Some inputs \<Rightarrow>
          let outputs = sum_i64 (map out_satoshis (tx_outputs t));
              fee = inputs - outputs
          in max_i64 0 fee)"

definition process_standalone_tx ::
  "ext_lib \<Rightarrow> 'db db_env \<Rightarrow> u64 option \<Rightarrow> tx \<Rightarrow> bool \<Rightarrow> 'db tx_analyser \<Rightarrow> db_chan \<Rightarrow>
   'db tx_analyser \<times> db_chan" where
  "process_standalone_tx L E now t is_uaas_broadcast_tx s c =
     (let fee = calc_fee t s;
          s = s\<lparr>ta_txdb := add_to_mempool L now t fee (ta_txdb s)\<rparr>;
          s = process_tx_inputs t NOT_A_COINBASE_TX s;
          s = process_tx_outputs L t NOT_IN_BLOCK s;
          s = process_collection L E t is_uaas_broadcast_tx s;
          (d, c) = batch_write_mempool (ta_txdb s) c
      in (s\<lparr>ta_txdb := d\<rparr>, c))"

definition ta_tx_exists :: "'db tx_analyser \<Rightarrow> hash256 \<Rightarrow> bool" where
  "ta_tx_exists s hash = (txdb_tx_exists (ta_txdb s) hash \<or> list_ex (\<lambda>c. have_tx c hash) (ta_collection s))"

definition ta_handle_orphan_block :: "u32 \<Rightarrow> 'db tx_analyser \<Rightarrow> db_chan \<Rightarrow> 'db tx_analyser \<times> db_chan" where
  "ta_handle_orphan_block height s c =
     (let (d, c) = txdb_handle_orphan_block height (ta_txdb s) c;
          (u, c) = utxo_handle_orphan_block height (ta_utxo s) c
      in (s\<lparr>ta_txdb := d, ta_utxo := u\<rparr>, c))"

section \<open>Monitors\<close>

definition is_name_in_collection :: "string \<Rightarrow> 'db tx_analyser \<Rightarrow> bool" where
  "is_name_in_collection name s = list_ex (\<lambda>c. cc_name (collection c) = name) (ta_collection s)"

definition is_name_in_dynamic_collection :: "string \<Rightarrow> 'db tx_analyser \<Rightarrow> bool" where
  "is_name_in_dynamic_collection name s =
     list_ex (\<lambda>c. cc_name c = name) (dyn_collection (ta_dynamic_config s))"

text \<open>\<open>writable\<close>: whether the write of the dynamic configuration file succeeds.\<close>

definition add_monitor ::
  "ext_lib \<Rightarrow> bool \<Rightarrow> collection_config \<Rightarrow> 'db tx_analyser \<Rightarrow> 'db tx_analyser" where
  "add_monitor L writable monitor s =
     (if \<not> is_name_in_collection (cc_name monitor) s
      then (case wc_new L monitor (ta_network s) of
              Inr wc \<Rightarrow>
                let s = s\<lparr>ta_collection := ta_collection s @ [wc]\<rparr>;
                    (d, file) = dyn_add writable monitor (ta_dynamic_config s) (ta_dyn_file s)
                in s\<lparr>ta_dynamic_config := d, ta_dyn_file := file\<rparr>
            | Inl _ \<Rightarrow> s)
      else s)"

definition delete_monitor :: "bool \<Rightarrow> string \<Rightarrow> 'db tx_analyser \<Rightarrow> 'db tx_analyser" where
  "delete_monitor writable monitor_name s =
     (if is_name_in_dynamic_collection monitor_name s
      then let s = (case iter_position (\<lambda>c. cc_name (collection c) = monitor_name) (ta_collection s) of
                      Some index \<Rightarrow> s\<lparr>ta_collection := vec_remove index (ta_collection s)\<rparr>
                    | None \<Rightarrow> s);
               (d, file) = dyn_delete writable monitor_name (ta_dynamic_config s) (ta_dyn_file s)
           in s\<lparr>ta_dynamic_config := d, ta_dyn_file := file\<rparr>
      else s)"

section \<open>What the operations do\<close>

text \<open>
  The two dropped iterators: no input is ever taken out of the outputs, and a block reaches
  the transaction store only.
\<close>

lemma process_tx_inputs_id [simp]: "process_tx_inputs t i s = s"
  by (simp add: process_tx_inputs_def)

definition flush_ops :: "'db tx_analyser \<Rightarrow> db_operation_type list" where
  "flush_ops s =
     utxo_pending (ta_utxo s) @ [MempoolBatchDelete (hashes_to_delete (ta_txdb s))] @
     (if mempool_entries (ta_txdb s) = [] then [] else [MempoolBatchWrite (mempool_entries (ta_txdb s))]) @
     (if ta_save_txs s then [TxBatchWrite (tx_entries (ta_txdb s))] else [])"

lemma ta_flush_database_cache_eq:
  "ta_flush_database_cache s c =
     (s\<lparr>ta_utxo := (ta_utxo s)\<lparr>utxo_entries := [], utxo_deletes := []\<rparr>,
        ta_txdb := (ta_txdb s)\<lparr>hashes_to_delete := [], mempool_entries := [],
          tx_entries := if ta_save_txs s then [] else tx_entries (ta_txdb s)\<rparr>\<rparr>,
      chan_sends (flush_ops s) c)"
  by (simp add: ta_flush_database_cache_def flush_ops_def utxo_pending_def utxo_update_db_eq uaas_defs Let_def)

lemma ta_process_block_eq:
  "ta_process_block L E b h s c =
     ta_flush_database_cache (s\<lparr>ta_txdb := txdb_process_block L b h (ta_txdb s)\<rparr>) c"
  by (simp add: ta_process_block_def Let_def)

text \<open>The outputs of a transaction, looked up by outpoint.\<close>

lemma process_tx_outputs_frame [simp]:
  "ta_txdb (process_tx_outputs L t h s) = ta_txdb s"
  "ta_collection (process_tx_outputs L t h s) = ta_collection s"
  "ta_db (process_tx_outputs L t h s) = ta_db s"
  "ta_save_txs (process_tx_outputs L t h s) = ta_save_txs s"
  "ta_dynamic_config (process_tx_outputs L t h s) = ta_dynamic_config s"
  "ta_network (process_tx_outputs L t h s) = ta_network s"
  "ta_dyn_file (process_tx_outputs L t h s) = ta_dyn_file s"
  by (simp_all add: process_tx_outputs_def)

definition output_entry :: "ext_lib \<Rightarrow> i32 \<Rightarrow> tx_out \<Rightarrow> utxo_entry" where
  "output_entry L height vout = \<lparr>u_satoshis = out_satoshis vout, u_height = height,
     u_pubkeyhash = script_to_pubkeyhash L (lock_script vout)\<rparr>"

definition tx_output_at :: "ext_lib \<Rightarrow> tx \<Rightarrow> out_point \<Rightarrow> tx_out option" where
  "tx_output_at L t p =
     (if op_hash p = tx_hash L t \<and> unat (op_index p) < length (tx_outputs t) \<and>
         is_spendable (tx_outputs t ! unat (op_index p))
      then Some (tx_outputs t ! unat (op_index p)) else None)"

lemma enumerate_snoc: "enumerate n (xs @ [x]) = enumerate n xs @ [(n + length xs, x)]"
  by (simp add: enumerate_append_eq)

lemma fold_outputs_get:
  "hm_get (utxo (fold (process_tx_output L h height) (enumerate 0 vouts) u)) p =
     (if op_hash p = h \<and> unat (op_index p) < length vouts \<and> is_spendable (vouts ! unat (op_index p))
      then Some (output_entry L height (vouts ! unat (op_index p))) else hm_get (utxo u) p)"
proof (induction vouts rule: rev_induct)
  case Nil
  then show ?case by simp
next
  case (snoc v vs)
  let ?n = "length vs"
  have idx: "unat (op_index p) = ?n \<longleftrightarrow> ?n < 2 ^ 32 \<and> op_index p = of_nat ?n"
    using unat_of_usize [of ?n] unsigned_less [of "op_index p", where ?'a = nat]
    by (auto simp: word_unat_eq_iff)
  show ?case
    using snoc idx
    by (cases p)
      (auto simp: enumerate_snoc process_tx_output_def utxo_add_def Let_def u32_of_usize_def
        hm_get_insert output_entry_def nth_append less_Suc_eq)
qed

lemma process_tx_outputs_get:
  "hm_get (utxo (ta_utxo (process_tx_outputs L t height s))) p =
     (case tx_output_at L t p of
        Some vout \<Rightarrow> Some (output_entry L height vout)
      | None \<Rightarrow> hm_get (utxo (ta_utxo s)) p)"
  by (simp add: process_tx_outputs_def fold_outputs_get tx_output_at_def)

section \<open>Well-formedness\<close>

definition wf_ta :: "ext_lib \<Rightarrow> 'db tx_analyser \<Rightarrow> bool" where
  "wf_ta L s \<longleftrightarrow> wf_utxo L (ta_utxo s) \<and> wf_txdb (ta_txdb s)"

lemma wf_fold_outputs: "wf_utxo L u \<Longrightarrow> wf_utxo L (fold (process_tx_output L h ht) its u)"
  by (induction its arbitrary: u)
    (auto simp: process_tx_output_def Let_def wf_utxo_add split: prod.split)

lemma process_collection_frame [simp]:
  "ta_utxo (process_collection L E t b s) = ta_utxo s"
  "ta_txdb (process_collection L E t b s) = ta_txdb s"
  "ta_save_txs (process_collection L E t b s) = ta_save_txs s"
  "ta_dynamic_config (process_collection L E t b s) = ta_dynamic_config s"
  "ta_network (process_collection L E t b s) = ta_network s"
  "ta_dyn_file (process_collection L E t b s) = ta_dyn_file s"
  by (simp_all add: process_collection_def Let_def split: prod.split)

text \<open>Processing a standalone transaction, field by field.\<close>

lemma process_tx_outputs_txdb [simp]:
  "ta_utxo (process_tx_outputs L t h (s\<lparr>ta_txdb := d\<rparr>)) = ta_utxo (process_tx_outputs L t h s)"
  by (simp add: process_tx_outputs_def)

lemma batch_write_mempool_eq:
  "batch_write_mempool d c =
     (d\<lparr>mempool_entries := []\<rparr>,
      chan_sends (if mempool_entries d = [] then [] else [MempoolBatchWrite (mempool_entries d)]) c)"
  by (simp add: batch_write_mempool_def Let_def)

lemma standalone_fields:
  fixes s :: "'db tx_analyser" and L E now t br c
  defines "r \<equiv> process_standalone_tx L E now t br s c"
  shows "ta_utxo (fst r) = ta_utxo (process_tx_outputs L t NOT_IN_BLOCK s)"
    and "ta_txdb (fst r) = (add_to_mempool L now t (calc_fee t s) (ta_txdb s))\<lparr>mempool_entries := []\<rparr>"
    and "ta_save_txs (fst r) = ta_save_txs s"
    and "ta_dynamic_config (fst r) = ta_dynamic_config s"
    and "ta_network (fst r) = ta_network s"
    and "ta_dyn_file (fst r) = ta_dyn_file s"
    and "ta_collection (fst r) = ta_collection (process_collection L E t br s)"
    and "ta_db (fst r) = ta_db (process_collection L E t br s)"
    and "snd r = chan_sends
      (let es = mempool_entries (add_to_mempool L now t (calc_fee t s) (ta_txdb s))
       in if es = [] then [] else [MempoolBatchWrite es]) c"
  unfolding r_def
  by (simp_all add: process_standalone_tx_def Let_def batch_write_mempool_eq process_collection_def
      split: prod.split)

lemma ta_handle_orphan_block_eq:
  "ta_handle_orphan_block h s c =
     (s\<lparr>ta_txdb := fst (txdb_handle_orphan_block h (ta_txdb s) c),
        ta_utxo := fst (utxo_handle_orphan_block h (ta_utxo s) c)\<rparr>,
      chan_sends [TxDelete h, UtxoDelete h] c)"
  by (simp add: ta_handle_orphan_block_def txdb_handle_orphan_block_def utxo_handle_orphan_block_eq)

lemma wf_ta_ops [uaas_wf]:
  "wf_ta L s \<Longrightarrow> wf_ta L (process_tx_outputs L t ht s)"
  "wf_ta L s \<Longrightarrow> wf_ta L (fst (ta_flush_database_cache s c))"
  "wf_ta L s \<Longrightarrow> wf_ta L (fst (ta_process_block L E b ht s c))"
  "wf_ta L s \<Longrightarrow> wf_ta L (fst (ta_handle_orphan_block h s c))"
  "wf_ta L s \<Longrightarrow> wf_ta L (fst (process_standalone_tx L E now t br s c))"
proof -
  have flush: "wf_ta L s \<Longrightarrow> wf_ta L (fst (ta_flush_database_cache s c))" for s :: "'a tx_analyser" and c
    by (auto simp: wf_ta_def ta_flush_database_cache_eq wf_utxo_def wf_txdb_def)
  then show "wf_ta L s \<Longrightarrow> wf_ta L (fst (ta_flush_database_cache s c))" .
  show "wf_ta L s \<Longrightarrow> wf_ta L (fst (ta_process_block L E b ht s c))"
    unfolding ta_process_block_eq by (rule flush) (simp add: wf_ta_def wf_txdb_process_block)
  show outs: "wf_ta L s \<Longrightarrow> wf_ta L (process_tx_outputs L t ht s)" for ht
    by (simp add: wf_ta_def process_tx_outputs_def wf_fold_outputs)
  show "wf_ta L s \<Longrightarrow> wf_ta L (fst (ta_handle_orphan_block h s c))"
    by (simp add: wf_ta_def ta_handle_orphan_block_eq wf_utxo_handle_orphan_block wf_txdb_flush)
  show "wf_ta L s \<Longrightarrow> wf_ta L (fst (process_standalone_tx L E now t br s c))"
    using outs [of NOT_IN_BLOCK] wf_txdb_add_to_mempool [of "ta_txdb s" L now t "calc_fee t s"]
    by (simp add: wf_ta_def standalone_fields wf_txdb_def)
qed

section \<open>A concrete analyser\<close>

text \<open>For the witnesses: nothing is known yet, the broadcast collection is the only one.\<close>

definition sample_ta :: "sql_stmt list tx_analyser" where
  "sample_ta = \<lparr>ta_save_txs = True, ta_txdb = txdb_new True, ta_utxo = utxo_new,
     ta_collection = [create_broadcast_collection],
     ta_dynamic_config = \<lparr>dyn_filename = ''dynamic.toml'', dyn_collection = []\<rparr>,
     ta_network = BSV_Testnet, ta_db = [], ta_dyn_file = None\<rparr>"

end
