(* ===== verification/Block_Manager.thy ===== *)
theory Block_Manager
  imports Tx_Analyser
begin

text \<open>
  The block manager (\<open>rust/src/uaas/block_manager.rs\<close>): the chain of block headers, the
  index of their heights, the queue of blocks that arrived early, and the writing of blocks
  and headers. The block file is a value of type \<open>'d\<close>, and the three calls on it
  (\<open>open\<close>, \<open>seek\<close> to the end, \<open>Block::write\<close>) are the fields of a \<open>file_env\<close>, which says
  whether they succeed. \<open>setup\<close> reads either the rows of the table \<open>blocks\<close> or the blocks
  of the file; both are arguments. The creation of the tables is in the theory \<open>Schema\<close>.
\<close>

record 'd file_env =
  f_open :: "string \<Rightarrow> 'd \<Rightarrow> bool \<times> 'd"
  f_seek_end :: "'d \<Rightarrow> u64 option"
  f_write :: "block \<Rightarrow> 'd \<Rightarrow> bool \<times> 'd"

record db_header =
  dh_height :: u32
  dh_hash :: string
  dh_version :: u32
  dh_prev_hash :: string
  dh_merkle_root :: string
  dh_timestamp :: u32
  dh_bits :: u32
  dh_nonce :: u32

record block_with_position =
  bp_position :: "u64 option"
  bp_block :: block

record 'd block_manager =
  start_block_hash :: string
  startup_load_from_database :: bool
  block_file :: string
  save_blocks :: bool
  block_headers :: "block_header list"
  hash_to_index :: "(hash256, u32) hash_map"
  last_hash_processed :: hash256
  bm_height :: u32
  block_queue :: "(hash256, block_with_position) hash_map"
  threshold :: usize
  bm_disk :: 'd

text \<open>
  What a method of the block manager works on: itself, the transaction analyser it is
  handed, and the channel to the database writer.
\<close>

record ('d, 'db) bm_sys =
  bm :: "'d block_manager"
  ta :: "'db tx_analyser"
  ch :: db_chan

section \<open>Sending, decoding, construction\<close>

definition bm_send_db_op :: "db_operation_type \<Rightarrow> db_chan \<Rightarrow> db_chan" where
  "bm_send_db_op oper c = (case chan_send oper c of (Inl _, c') \<Rightarrow> c' | (Inr _, c') \<Rightarrow> c')"

definition bm_decode_stored_hash :: "ext_lib \<Rightarrow> string \<Rightarrow> hash256 option" where
  "bm_decode_stored_hash L value =
     (case hash_decode L value of Some hash \<Rightarrow> Some hash | None \<Rightarrow> None)"

definition bm_new :: "ext_lib \<Rightarrow> config \<Rightarrow> 'd \<Rightarrow> string + 'd block_manager" where
  "bm_new L cf disk =
     (case get_network_settings cf of
        Inl err \<Rightarrow> Inl err
      | Inr settings \<Rightarrow>
          (case hash_decode L (ns_start_block_hash settings) of
             None \<Rightarrow> Inl (''Invalid start_block_hash '' @ [CHR 0x27] @ ns_start_block_hash settings @ [CHR 0x27])
           | Some hash \<Rightarrow>
               Inr \<lparr>start_block_hash = ns_start_block_hash settings,
                    startup_load_from_database = ns_startup_load_from_database settings,
                    block_file = ns_block_file settings,
                    save_blocks = ns_save_blocks settings,
                    block_headers = [],
                    hash_to_index = hm_empty,
                    last_hash_processed = hash,
                    bm_height = ns_start_block_height settings + 1,
                    block_queue = hm_empty,
                    threshold = oc_threshold (cf_orphan cf),
                    bm_disk = disk\<rparr>))"

section \<open>Loading the headers from the database\<close>

definition load_blockheader :: "ext_lib \<Rightarrow> db_header \<Rightarrow> 'd block_manager \<Rightarrow> 'd block_manager" where
  "load_blockheader L b m =
     (case bm_decode_stored_hash L (dh_prev_hash b) of
        None \<Rightarrow> m
      | Some prev_hash \<Rightarrow>
          (case bm_decode_stored_hash L (dh_merkle_root b) of
             None \<Rightarrow> m
           | Some merkle_root \<Rightarrow>
               let header = \<lparr>bh_version = dh_version b, bh_prev_hash = prev_hash,
                     bh_merkle_root = merkle_root, bh_timestamp = dh_timestamp b,
                     bh_bits = dh_bits b, bh_nonce = dh_nonce b\<rparr>;
                   hash = header_hash L header
               in m\<lparr>hash_to_index := hm_insert hash (dh_height b) (hash_to_index m),
                    block_headers := block_headers m @ [header],
                    bm_height := dh_height b + 1\<rparr>))"

definition load_blockheaders_from_database ::
  "ext_lib \<Rightarrow> db_header list option \<Rightarrow> 'd block_manager \<Rightarrow> 'd block_manager" where
  "load_blockheaders_from_database L headers m =
     (case headers of None \<Rightarrow> m | Some rows \<Rightarrow> fold (load_blockheader L) rows m)"

section \<open>Processing a block\<close>

definition bm_process_block ::
  "ext_lib \<Rightarrow> 'db db_env \<Rightarrow> block \<Rightarrow> ('d, 'db) bm_sys \<Rightarrow> ('d, 'db) bm_sys" where
  "bm_process_block L E b s =
     (let header = blk_header b;
          hash = header_hash L header
      in if last_hash_processed (bm s) \<noteq> bh_prev_hash header then s
         else
           let m = (bm s)\<lparr>last_hash_processed := hash\<rparr>
           in case i32_of_u32 (bm_height m) of
                None \<Rightarrow> s\<lparr>bm := m\<rparr>
              | Some block_height \<Rightarrow>
                  let (a, c) = ta_process_block L E b block_height (ta s) (ch s);
                      m = m\<lparr>hash_to_index := hm_insert hash (bm_height m) (hash_to_index m)\<rparr>;
                      m = m\<lparr>block_headers := block_headers m @ [header]\<rparr>;
                      m = m\<lparr>bm_height := bm_height m + 1\<rparr>
                  in s\<lparr>bm := m, ta := a, ch := c\<rparr>)"

definition write_blockheader_to_database ::
  "ext_lib \<Rightarrow> block_header \<Rightarrow> u64 \<Rightarrow> u32 \<Rightarrow> u32 \<Rightarrow> 'd block_manager \<Rightarrow> db_chan \<Rightarrow> db_chan" where
  "write_blockheader_to_database L header position blocksize numtxs m c =
     (if \<not> hm_contains (hash_to_index m) (header_hash L header)
      then bm_send_db_op (BlockHeaderWrite
             \<lparr>bw_height = bm_height m, bw_hash = header_hash L header, bw_version = bh_version header,
              bw_prev_hash = bh_prev_hash header, bw_merkle_root = bh_merkle_root header,
              bw_timestamp = bh_timestamp header, bw_bits = bh_bits header,
              bw_nonce = bh_nonce header, bw_position = position, bw_blocksize = blocksize,
              bw_numtxs = numtxs\<rparr>) c
      else c)"

definition delete_blockheader_from_database :: "hash256 \<Rightarrow> db_chan \<Rightarrow> db_chan" where
  "delete_blockheader_from_database hash c = bm_send_db_op (BlockHeaderDelete hash) c"

definition write_orphan_to_database ::
  "ext_lib \<Rightarrow> block_header \<Rightarrow> 'd block_manager \<Rightarrow> db_chan \<Rightarrow> db_chan" where
  "write_orphan_to_database L header m c =
     bm_send_db_op (OrphanBlockHeaderWrite
       \<lparr>ow_height = bm_height m, ow_hash = header_hash L header, ow_version = bh_version header,
        ow_prev_hash = bh_prev_hash header, ow_merkle_root = bh_merkle_root header,
        ow_timestamp = bh_timestamp header, ow_bits = bh_bits header, ow_nonce = bh_nonce header\<rparr>) c"

definition write_block_to_file :: "'d file_env \<Rightarrow> block \<Rightarrow> 'd block_manager \<Rightarrow> u64 \<times> 'd block_manager" where
  "write_block_to_file F b m =
     (if \<not> save_blocks m then (0, m)
      else case f_open F (block_file m) (bm_disk m) of
             (False, d) \<Rightarrow> (0, m\<lparr>bm_disk := d\<rparr>)
           | (True, d) \<Rightarrow>
               (case f_seek_end F d of
                  None \<Rightarrow> (0, m\<lparr>bm_disk := d\<rparr>)
                | Some pos \<Rightarrow>
                    (case f_write F b d of
                       (False, d) \<Rightarrow> (0, m\<lparr>bm_disk := d\<rparr>)
                     | (True, d) \<Rightarrow> (pos, m\<lparr>bm_disk := d\<rparr>))))"

text \<open>The body of the loop of \<open>process_block_queue\<close>, for the entry it removed.\<close>

definition process_queued ::
  "ext_lib \<Rightarrow> 'db db_env \<Rightarrow> 'd file_env \<Rightarrow> block_with_position \<Rightarrow> ('d, 'db) bm_sys \<Rightarrow> ('d, 'db) bm_sys" where
  "process_queued L E F blockwithpos s =
     (let b = bp_block blockwithpos;
          blocksize = usize_as_u32 (block_size L b);
          numtxs = usize_as_u32 (length (blk_txns b));
          (pos, m) = (case bp_position blockwithpos of
                        Some pos \<Rightarrow> (pos, bm s)
                      | None \<Rightarrow> write_block_to_file F b (bm s));
          c = write_blockheader_to_database L (blk_header b) pos blocksize numtxs m (ch s)
      in bm_process_block L E b (s\<lparr>bm := m, ch := c\<rparr>))"

text \<open>Writing to the block file changes the file only.\<close>

lemma write_block_to_file_disk: "\<exists>d. snd (write_block_to_file F b m) = m\<lparr>bm_disk := d\<rparr>"
proof -
  have "\<exists>d. m = m\<lparr>bm_disk := d\<rparr>" by (rule exI [of _ "bm_disk m"]) simp
  then show ?thesis
    by (cases "save_blocks m")
      (auto simp: write_block_to_file_def split: prod.split option.split bool.split)
qed

lemma write_block_to_file_frame:
  assumes "write_block_to_file F b m = (pos, m')"
  shows "block_queue m' = block_queue m" "block_headers m' = block_headers m"
    "hash_to_index m' = hash_to_index m" "last_hash_processed m' = last_hash_processed m"
    "bm_height m' = bm_height m" "start_block_hash m' = start_block_hash m"
  using write_block_to_file_disk [of F b m] assms by auto

lemma bm_process_block_queue [simp]: "block_queue (bm (bm_process_block L E b s)) = block_queue (bm s)"
  by (simp add: bm_process_block_def Let_def split: option.split prod.split)

lemma process_queued_queue [simp]:
  "block_queue (bm (process_queued L E F bp s)) = block_queue (bm s)"
  by (auto simp: process_queued_def Let_def dest: write_block_to_file_frame
      split: option.split prod.split)

text \<open>Each round takes an entry out of the queue, so the loop ends.\<close>

function process_block_queue ::
  "ext_lib \<Rightarrow> 'db db_env \<Rightarrow> 'd file_env \<Rightarrow> ('d, 'db) bm_sys \<Rightarrow> ('d, 'db) bm_sys" where
  "process_block_queue L E F s =
     (case hm_get (block_queue (bm s)) (last_hash_processed (bm s)) of
        None \<Rightarrow> s
      | Some blockwithpos \<Rightarrow>
          let m = (bm s)\<lparr>block_queue := hm_remove (last_hash_processed (bm s)) (block_queue (bm s))\<rparr>
          in process_block_queue L E F (process_queued L E F blockwithpos (s\<lparr>bm := m\<rparr>)))"
  by pat_completeness auto
termination
  by (relation "measure (\<lambda>(L, E, F, s). length (block_queue (bm s)))") (simp_all add: length_hm_remove)

declare process_block_queue.simps [simp del]

section \<open>Receiving blocks\<close>

definition enqueue_block :: "u64 option \<Rightarrow> block \<Rightarrow> 'd block_manager \<Rightarrow> 'd block_manager" where
  "enqueue_block position b m =
     (let prev_hash = bh_prev_hash (blk_header b)
      in if \<not> hm_contains (block_queue m) prev_hash
         then m\<lparr>block_queue := hm_insert prev_hash \<lparr>bp_position = position, bp_block = b\<rparr> (block_queue m)\<rparr>
         else m)"

definition process_read_block ::
  "ext_lib \<Rightarrow> 'db db_env \<Rightarrow> 'd file_env \<Rightarrow> block \<Rightarrow> u64 \<Rightarrow> ('d, 'db) bm_sys \<Rightarrow> ('d, 'db) bm_sys" where
  "process_read_block L E F b position s =
     (let hash = header_hash L (blk_header b)
      in if \<not> hm_contains (hash_to_index (bm s)) hash
         then if last_hash_processed (bm s) = bh_prev_hash (blk_header b)
              then let blocksize = usize_as_u32 (block_size L b);
                       numtxs = usize_as_u32 (length (blk_txns b));
                       s = s\<lparr>ch := write_blockheader_to_database L (blk_header b) position
                                      blocksize numtxs (bm s) (ch s)\<rparr>;
                       s = bm_process_block L E b s
                   in process_block_queue L E F s
              else s\<lparr>bm := enqueue_block (Some position) b (bm s)\<rparr>
         else s)"

text \<open>
  The loop of \<open>read_blocks_from_file\<close>: the blocks the file holds, each with the stream
  position after it, \<open>None\<close> where asking for it fails. The first argument is \<open>None\<close> where the
  file cannot be opened, and holds the position before the first block.
\<close>

fun read_blocks ::
  "ext_lib \<Rightarrow> 'db db_env \<Rightarrow> 'd file_env \<Rightarrow> u64 \<Rightarrow> (block \<times> u64 option) list \<Rightarrow>
   ('d, 'db) bm_sys \<Rightarrow> ('d, 'db) bm_sys" where
  "read_blocks L E F position [] s = s"
| "read_blocks L E F position ((b, next_pos) # bs) s =
     (let s = process_read_block L E F b position s;
          position = (case next_pos of Some pos \<Rightarrow> pos | None \<Rightarrow> position)
      in read_blocks L E F position bs s)"

definition read_blocks_from_file ::
  "ext_lib \<Rightarrow> 'db db_env \<Rightarrow> 'd file_env \<Rightarrow> u64 option option \<Rightarrow> (block \<times> u64 option) list \<Rightarrow>
   ('d, 'db) bm_sys \<Rightarrow> ('d, 'db) bm_sys" where
  "read_blocks_from_file L E F opened bs s =
     (case opened of
        None \<Rightarrow> s
      | Some start \<Rightarrow> read_blocks L E F (case start of Some pos \<Rightarrow> pos | None \<Rightarrow> 0) bs s)"

definition bm_setup ::
  "ext_lib \<Rightarrow> 'db db_env \<Rightarrow> 'd file_env \<Rightarrow> db_header list option \<Rightarrow> u64 option option \<Rightarrow>
   (block \<times> u64 option) list \<Rightarrow> ('d, 'db) bm_sys \<Rightarrow> ('d, 'db) bm_sys" where
  "bm_setup L E F rows opened bs s =
     (if startup_load_from_database (bm s)
      then let m = load_blockheaders_from_database L rows (bm s)
           in s\<lparr>bm := (if block_headers m = [] then m
                       else m\<lparr>last_hash_processed := header_hash L (last (block_headers m))\<rparr>)\<rparr>
      else read_blocks_from_file L E F opened bs s)"

definition bm_on_block ::
  "ext_lib \<Rightarrow> 'db db_env \<Rightarrow> 'd file_env \<Rightarrow> block \<Rightarrow> ('d, 'db) bm_sys \<Rightarrow> ('d, 'db) bm_sys" where
  "bm_on_block L E F b s =
     (let hash = header_hash L (blk_header b)
      in if \<not> hm_contains (hash_to_index (bm s)) hash
         then if bh_prev_hash (blk_header b) = last_hash_processed (bm s)
              then let (pos, m) = write_block_to_file F b (bm s);
                       blocksize = usize_as_u32 (block_size L b);
                       numtxs = usize_as_u32 (length (blk_txns b));
                       s = s\<lparr>bm := m, ch := write_blockheader_to_database L (blk_header b) pos
                                               blocksize numtxs m (ch s)\<rparr>;
                       s = bm_process_block L E b s
                   in process_block_queue L E F s
              else s\<lparr>bm := enqueue_block None b (bm s)\<rparr>
         else s)"

section \<open>Orphans and the tip\<close>

definition bm_handle_orphan_block :: "ext_lib \<Rightarrow> ('d, 'db) bm_sys \<Rightarrow> ('d, 'db) bm_sys" where
  "bm_handle_orphan_block L s =
     (let m = (if block_queue (bm s) \<noteq> [] then (bm s)\<lparr>block_queue := hm_empty\<rparr> else bm s)
      in if block_headers m = [] then s\<lparr>bm := m\<rparr>
         else
           let last_block = last (block_headers m);
               m = m\<lparr>block_headers := butlast (block_headers m)\<rparr>;
               m = m\<lparr>hash_to_index := hm_remove (header_hash L last_block) (hash_to_index m)\<rparr>;
               c = write_orphan_to_database L last_block m (ch s);
               c = delete_blockheader_from_database (header_hash L last_block) c;
               (a, c) = ta_handle_orphan_block (bm_height m) (ta s) c;
               m = m\<lparr>bm_height := bm_height m - 1\<rparr>
           in s\<lparr>bm := m, ta := a, ch := c\<rparr>)"

definition get_start_block_timestamp :: "'d block_manager \<Rightarrow> u32 option" where
  "get_start_block_timestamp m =
     (if threshold m < length (block_headers m)
      then (case map bh_timestamp (block_headers m) of
              [] \<Rightarrow> None
            | ts \<Rightarrow> Some (Min (set ts)))
      else None)"

definition bm_get_last_known_block_hash :: "ext_lib \<Rightarrow> 'd block_manager \<Rightarrow> string" where
  "bm_get_last_known_block_hash L m =
     (case block_headers m of
        [] \<Rightarrow> start_block_hash m
      | _ \<Rightarrow> hash_encode L (header_hash L (last (block_headers m))))"

definition has_chain_tip :: "nat option \<Rightarrow> 'd block_manager \<Rightarrow> bool" where
  "has_chain_tip now m =
     (case block_headers m of
        [] \<Rightarrow> False
      | _ \<Rightarrow> timestamp_age_as_sec now (bh_timestamp (last (block_headers m))) < 600)"

lemma bm_send_db_op [simp]: "bm_send_db_op oper c = chan_sends [oper] c"
  by (simp add: bm_send_db_op_def chan_send_def chan_sends_def)

section \<open>A concrete manager\<close>

text \<open>For the witnesses: nothing received yet, the first block builds on the hash 1.\<close>

definition sample_file :: "unit file_env" where
  "sample_file = \<lparr>f_open = (\<lambda>_ d. (True, d)), f_seek_end = (\<lambda>_. Some 0), f_write = (\<lambda>_ d. (True, d))\<rparr>"

definition sample_bm :: "unit block_manager" where
  "sample_bm = \<lparr>start_block_hash = ''1'', startup_load_from_database = True, block_file = ''main.blk'',
     save_blocks = True, block_headers = [], hash_to_index = hm_empty, last_hash_processed = 1,
     bm_height = 1, block_queue = hm_empty, threshold = 1, bm_disk = ()\<rparr>"

definition sample_sys :: "(unit, sql_stmt list) bm_sys" where
  "sample_sys = \<lparr>bm = sample_bm, ta = sample_ta, ch = open_chan\<rparr>"

end
