(* ===== verification/Block_Chain.thy ===== *)
theory Block_Chain
  imports Block_Manager
begin

text \<open>
  What the block manager guarantees about its chain of headers. The first sections read off
  what each operation does to the manager itself; the invariant \<open>chain_inv\<close> says that the
  headers are linked from the first hash on, that the index gives their heights, and that the
  queue holds each early block under the hash it builds on; and a chain of blocks is put
  together in whatever order its blocks arrive.
\<close>

section \<open>The manager's part of each operation\<close>

definition append_header :: "ext_lib \<Rightarrow> block_header \<Rightarrow> 'd block_manager \<Rightarrow> 'd block_manager" where
  "append_header L h m = m\<lparr>last_hash_processed := header_hash L h,
     hash_to_index := hm_insert (header_hash L h) (bm_height m) (hash_to_index m),
     block_headers := block_headers m @ [h], bm_height := bm_height m + 1\<rparr>"

lemma append_header_sel [simp]:
  "last_hash_processed (append_header L h m) = header_hash L h"
  "hash_to_index (append_header L h m) = hm_insert (header_hash L h) (bm_height m) (hash_to_index m)"
  "block_headers (append_header L h m) = block_headers m @ [h]"
  "bm_height (append_header L h m) = bm_height m + 1"
  "block_queue (append_header L h m) = block_queue m"
  "start_block_hash (append_header L h m) = start_block_hash m"
  "threshold (append_header L h m) = threshold m"
  by (simp_all add: append_header_def)

text \<open>A block that builds on the last one, at a height an \<open>i32\<close> can hold, is appended.\<close>

lemma bm_process_block_bm:
  assumes "bh_prev_hash (blk_header b) = last_hash_processed (bm s)" and "unat (bm_height (bm s)) < 2 ^ 31"
  shows "bm (bm_process_block L E b s) = append_header L (blk_header b) (bm s)"
  using assms
  by (simp add: bm_process_block_def Let_def append_header_def i32_of_u32_def split: prod.split)

text \<open>The block file aside, that is all that happens to the manager.\<close>

definition same_chain :: "'d block_manager \<Rightarrow> 'd block_manager \<Rightarrow> bool" where
  "same_chain m m' \<longleftrightarrow> (\<exists>d. m' = m\<lparr>bm_disk := d\<rparr>)"

lemma same_chain_sel:
  assumes "same_chain m m'"
  shows "block_headers m' = block_headers m" "hash_to_index m' = hash_to_index m"
    "last_hash_processed m' = last_hash_processed m" "bm_height m' = bm_height m"
    "block_queue m' = block_queue m" "start_block_hash m' = start_block_hash m"
    "threshold m' = threshold m"
  using assms by (auto simp: same_chain_def)

lemma same_chain_write: "same_chain m (snd (write_block_to_file F b m))"
  using write_block_to_file_disk [of F b m] by (simp add: same_chain_def)

lemma same_chain_refl [simp]: "same_chain m m"
  unfolding same_chain_def by (rule exI [of _ "bm_disk m"]) simp

lemma process_queued_bm:
  assumes "bh_prev_hash (blk_header (bp_block e)) = last_hash_processed (bm s)"
    and "unat (bm_height (bm s)) < 2 ^ 31"
  shows "\<exists>m. same_chain (bm s) m \<and>
     bm (process_queued L E F e s) = append_header L (blk_header (bp_block e)) m"
proof -
  let ?pm = "case bp_position e of Some pos \<Rightarrow> (pos, bm s) | None \<Rightarrow> write_block_to_file F (bp_block e) (bm s)"
  have same: "same_chain (bm s) (snd ?pm)" by (simp add: same_chain_write split: option.split)
  obtain c where "bm (process_queued L E F e s) = bm (bm_process_block L E (bp_block e) (s\<lparr>bm := snd ?pm, ch := c\<rparr>))"
    by (simp add: process_queued_def Let_def split_def)
  moreover have "\<dots> = append_header L (blk_header (bp_block e)) (snd ?pm)"
    using assms same_chain_sel [OF same] by (subst bm_process_block_bm) simp_all
  ultimately show ?thesis using same by auto
qed

section \<open>The loop over the queue\<close>

text \<open>
  The loop, on the manager alone: as long as the queue has a block for the last hash, that
  block leaves the queue and is appended.
\<close>

definition dequeue :: "ext_lib \<Rightarrow> 'd block_manager \<Rightarrow> 'd block_manager \<Rightarrow> bool" where
  "dequeue L m m' \<longleftrightarrow> (\<exists>e m0. hm_get (block_queue m) (last_hash_processed m) = Some e \<and>
     same_chain (m\<lparr>block_queue := hm_remove (last_hash_processed m) (block_queue m)\<rparr>) m0 \<and>
     m' = append_header L (blk_header (bp_block e)) m0)"

definition queue_ok :: "'d block_manager \<Rightarrow> bool" where
  "queue_ok m \<longleftrightarrow> hm_wf (block_queue m) \<and>
     (\<forall>k e. hm_get (block_queue m) k = Some e \<longrightarrow> bh_prev_hash (blk_header (bp_block e)) = k)"

definition room :: "'d block_manager \<Rightarrow> bool" where
  "room m \<longleftrightarrow> unat (bm_height m) + length (block_queue m) < 2 ^ 31"

lemma dequeue_queue_ok: "queue_ok m \<Longrightarrow> dequeue L m m' \<Longrightarrow> queue_ok m'"
  by (auto simp: queue_ok_def dequeue_def same_chain_def hm_get_remove split: if_splits)

lemma unat_of_nat_word: "unat (x :: u32) = n \<Longrightarrow> x = of_nat n"
  by (auto simp: of_nat_unat)

lemma unat_Suc_i31: "unat (x :: u32) < 2 ^ 31 \<Longrightarrow> unat (x + 1) = unat x + 1"
  by (simp add: unat_word_ariths)

lemma dequeue_room:
  assumes "room m" and "dequeue L m m'"
  shows "room m'" and "length (block_queue m') < length (block_queue m)"
proof -
  from assms(2) obtain e where e: "hm_get (block_queue m) (last_hash_processed m) = Some e"
    and q: "block_queue m' = hm_remove (last_hash_processed m) (block_queue m)"
    and h: "bm_height m' = bm_height m + 1"
    by (auto simp: dequeue_def same_chain_def)
  show less: "length (block_queue m') < length (block_queue m)" unfolding q by (rule length_hm_remove [OF e])
  show "room m'" using assms(1) less unat_Suc_i31 [of "bm_height m"] by (simp add: room_def h)
qed

lemma process_queued_dequeue:
  assumes ok: "queue_ok (bm s)" and room: "room (bm s)"
    and e: "hm_get (block_queue (bm s)) (last_hash_processed (bm s)) = Some e"
  defines "m \<equiv> (bm s)\<lparr>block_queue := hm_remove (last_hash_processed (bm s)) (block_queue (bm s))\<rparr>"
  shows "dequeue L (bm s) (bm (process_queued L E F e (s\<lparr>bm := m\<rparr>)))"
proof -
  have "bh_prev_hash (blk_header (bp_block e)) = last_hash_processed (bm s)"
    using ok e by (simp add: queue_ok_def)
  moreover have "unat (bm_height (bm s)) < 2 ^ 31" using room by (simp add: room_def)
  ultimately obtain m0 where "same_chain m m0"
    "bm (process_queued L E F e (s\<lparr>bm := m\<rparr>)) = append_header L (blk_header (bp_block e)) m0"
    using process_queued_bm [of e "s\<lparr>bm := m\<rparr>" L E F] by (auto simp: m_def)
  then show ?thesis using e by (auto simp: dequeue_def m_def)
qed

text \<open>What every dequeued block keeps holds after the loop, and nothing is left to dequeue.\<close>

lemma process_block_queue_keeps:
  assumes step: "\<And>m m'. queue_ok m \<Longrightarrow> room m \<Longrightarrow> P m \<Longrightarrow> dequeue L m m' \<Longrightarrow> P m'"
  shows "queue_ok (bm s) \<Longrightarrow> room (bm s) \<Longrightarrow> P (bm s) \<Longrightarrow>
     P (bm (process_block_queue L E F s)) \<and> queue_ok (bm (process_block_queue L E F s)) \<and>
     room (bm (process_block_queue L E F s)) \<and>
     \<not> hm_contains (block_queue (bm (process_block_queue L E F s)))
       (last_hash_processed (bm (process_block_queue L E F s)))"
proof (induction "length (block_queue (bm s))" arbitrary: s rule: less_induct)
  case less
  show ?case
  proof (cases "hm_get (block_queue (bm s)) (last_hash_processed (bm s))")
    case None
    then have "process_block_queue L E F s = s" by (simp add: process_block_queue.simps [of L E F s])
    then show ?thesis using None less.prems by (simp add: hm_contains_def)
  next
    case (Some e)
    let ?m = "(bm s)\<lparr>block_queue := hm_remove (last_hash_processed (bm s)) (block_queue (bm s))\<rparr>"
    let ?s = "process_queued L E F e (s\<lparr>bm := ?m\<rparr>)"
    have unfold: "process_block_queue L E F s = process_block_queue L E F ?s"
      using Some by (simp add: process_block_queue.simps [of L E F s])
    have d: "dequeue L (bm s) (bm ?s)" using process_queued_dequeue [OF less.prems(1,2) Some] .
    show ?thesis unfolding unfold
      using less.hyps [OF dequeue_room(2) [OF less.prems(2) d]] dequeue_queue_ok [OF less.prems(1) d]
        dequeue_room(1) [OF less.prems(2) d] step [OF less.prems d] by blast
  qed
qed

section \<open>Receiving a block\<close>

text \<open>
  The contract of \<open>on_block\<close> and of \<open>process_read_block\<close>, on the manager: a known block is
  ignored, one that builds on the last is appended before the queue is looked at, any other
  waits unless one that builds on the same hash waits already. Both interpret it, after the
  facts that follow from it.
\<close>

fun linked :: "ext_lib \<Rightarrow> hash256 \<Rightarrow> block_header list \<Rightarrow> bool" where
  "linked L prev [] = True"
| "linked L prev (h # hs) = (bh_prev_hash h = prev \<and> linked L (header_hash L h) hs)"

definition tip :: "ext_lib \<Rightarrow> hash256 \<Rightarrow> block_header list \<Rightarrow> hash256" where
  "tip L base hs = (if hs = [] then base else header_hash L (last hs))"

definition heights :: "ext_lib \<Rightarrow> nat \<Rightarrow> block_header list \<Rightarrow> hash256 \<rightharpoonup> u32" where
  "heights L h0 hs = map_of (rev (map (\<lambda>(i, h). (header_hash L h, of_nat (h0 + i))) (enumerate 0 hs)))"

text \<open>
  The invariant: the headers are linked from \<open>base\<close> on, the last one is the last hash, the
  index gives the height of each, starting at \<open>h0\<close>, and the queue holds blocks by the hash
  they build on, none of which is the last.
\<close>

definition chain_inv :: "ext_lib \<Rightarrow> hash256 \<Rightarrow> nat \<Rightarrow> 'd block_manager \<Rightarrow> bool" where
  "chain_inv L base h0 m \<longleftrightarrow> linked L base (block_headers m) \<and>
     last_hash_processed m = tip L base (block_headers m) \<and>
     unat (bm_height m) = h0 + length (block_headers m) \<and>
     hm_get (hash_to_index m) = heights L h0 (block_headers m) \<and>
     queue_ok m \<and> \<not> hm_contains (block_queue m) (last_hash_processed m)"

text \<open>The same while the queue is being looked at: its block for the last hash may be there.\<close>

definition chain_part :: "ext_lib \<Rightarrow> hash256 \<Rightarrow> nat \<Rightarrow> 'd block_manager \<Rightarrow> bool" where
  "chain_part L base h0 m \<longleftrightarrow> linked L base (block_headers m) \<and>
     last_hash_processed m = tip L base (block_headers m) \<and>
     unat (bm_height m) = h0 + length (block_headers m) \<and>
     hm_get (hash_to_index m) = heights L h0 (block_headers m)"

lemma chain_inv_iff:
  "chain_inv L base h0 m \<longleftrightarrow> chain_part L base h0 m \<and> queue_ok m \<and>
     \<not> hm_contains (block_queue m) (last_hash_processed m)"
  by (auto simp: chain_inv_def chain_part_def)

lemma linked_snoc: "linked L prev (hs @ [h]) \<longleftrightarrow> linked L prev hs \<and> bh_prev_hash h = tip L prev hs"
  by (induction hs arbitrary: prev) (auto simp: tip_def)

lemma tip_snoc [simp]: "tip L base (hs @ [h]) = header_hash L h"
  by (simp add: tip_def)

lemma heights_snoc: "heights L h0 (hs @ [h]) = (heights L h0 hs)(header_hash L h \<mapsto> of_nat (h0 + length hs))"
  by (simp add: heights_def enumerate_append_eq)

lemma heights_None: "heights L h0 hs k = None \<longleftrightarrow> k \<notin> header_hash L ` set hs"
  by (induction hs rule: rev_induct) (auto simp: heights_snoc, simp add: heights_def)

lemma chain_part_append:
  assumes m: "chain_part L base h0 m" and same: "same_chain m m'"
    and prev: "bh_prev_hash h = last_hash_processed m" and h31: "unat (bm_height m) < 2 ^ 31"
  shows "chain_part L base h0 (append_header L h m')"
proof -
  have "bm_height m = of_nat (h0 + length (block_headers m))"
    using m unfolding chain_part_def by (metis unat_of_nat_word)
  then show ?thesis
    using m prev same_chain_sel [OF same] unat_Suc_i31 [OF h31]
    by (simp add: chain_part_def linked_snoc heights_snoc hm_get_insert)
qed

lemma chain_part_dequeue:
  assumes "queue_ok m" and "room m" and m: "chain_part L base h0 m" and d: "dequeue L m m'"
  shows "chain_part L base h0 m'"
proof -
  let ?m = "m\<lparr>block_queue := hm_remove (last_hash_processed m) (block_queue m)\<rparr>"
  obtain e m0 where e: "hm_get (block_queue m) (last_hash_processed m) = Some e" "same_chain ?m m0"
    "m' = append_header L (blk_header (bp_block e)) m0"
    using d by (auto simp: dequeue_def)
  then show ?thesis
    using assms chain_part_append [of L base h0 ?m m0 "blk_header (bp_block e)"]
    by (simp add: chain_part_def queue_ok_def room_def)
qed

definition has_room :: "block \<Rightarrow> ('d, 'db) bm_sys \<Rightarrow> bool" where
  "has_room b s \<longleftrightarrow> unat (bm_height (bm s)) + length (block_queue (bm s)) + 1 < 2 ^ 31"

lemma enqueue_block_sel [simp]:
  "block_headers (enqueue_block pos b m) = block_headers m"
  "last_hash_processed (enqueue_block pos b m) = last_hash_processed m"
  "bm_height (enqueue_block pos b m) = bm_height m"
  "hash_to_index (enqueue_block pos b m) = hash_to_index m"
  by (simp_all add: enqueue_block_def Let_def)

lemma enqueue_block_get:
  "hm_get (block_queue (enqueue_block pos b m)) k =
     (if k = bh_prev_hash (blk_header b) \<and> \<not> hm_contains (block_queue m) k
      then Some \<lparr>bp_position = pos, bp_block = b\<rparr> else hm_get (block_queue m) k)"
  by (auto simp: enqueue_block_def Let_def hm_get_insert)

lemma queue_ok_enqueue: "queue_ok m \<Longrightarrow> queue_ok (enqueue_block pos b m)"
  unfolding queue_ok_def enqueue_block_get by (auto simp: enqueue_block_def Let_def split: if_splits)

lemma queue_ok_append:
  "queue_ok (append_header L h m) = queue_ok m"
  by (simp add: queue_ok_def)

lemma queue_ok_same: "same_chain m m' \<Longrightarrow> queue_ok m' = queue_ok m"
  by (auto simp: queue_ok_def same_chain_def)

section \<open>A chain whose blocks arrive in any order\<close>

text \<open>
  \<open>bs\<close> is a chain that builds on \<open>base\<close>, with no hash twice. \<open>chain_key\<close> is the hash that its
  \<open>j\<close>-th block builds on. \<open>partly\<close>: the first \<open>k\<close> blocks of it have been appended to \<open>hs0\<close>, and
  those with an index in \<open>Q\<close> wait.
\<close>

definition chain_key :: "ext_lib \<Rightarrow> hash256 \<Rightarrow> block list \<Rightarrow> nat \<Rightarrow> hash256" where
  "chain_key L base bs j = (base # map (\<lambda>b. header_hash L (blk_header b)) bs) ! j"

definition new_chain :: "ext_lib \<Rightarrow> hash256 \<Rightarrow> block list \<Rightarrow> bool" where
  "new_chain L base bs \<longleftrightarrow> linked L base (map blk_header bs) \<and>
     distinct (base # map (\<lambda>b. header_hash L (blk_header b)) bs)"

definition partly ::
  "ext_lib \<Rightarrow> hash256 \<Rightarrow> block list \<Rightarrow> block_header list \<Rightarrow> nat \<Rightarrow> nat \<Rightarrow> nat set \<Rightarrow> 'd block_manager \<Rightarrow> bool" where
  "partly L base bs hs0 h0 k Q m \<longleftrightarrow>
     k \<le> length bs \<and> Q \<subseteq> {k..<length bs} \<and>
     block_headers m = hs0 @ map blk_header (take k bs) \<and>
     last_hash_processed m = chain_key L base bs k \<and>
     (\<forall>j < length bs. hm_contains (hash_to_index m) (chain_key L base bs (Suc j)) \<longleftrightarrow> j < k) \<and>
     unat (bm_height m) = h0 + k \<and> queue_ok m \<and>
     (\<forall>x e. hm_get (block_queue m) x = Some e \<longrightarrow> (\<exists>j \<in> Q. x = chain_key L base bs j \<and> bp_block e = bs ! j)) \<and>
     (\<forall>j \<in> Q. hm_contains (block_queue m) (chain_key L base bs j))"

lemma partlyD:
  assumes "partly L base bs hs0 h0 k Q m"
  shows "k \<le> length bs" and "Q \<subseteq> {k..<length bs}" and "block_headers m = hs0 @ map blk_header (take k bs)"
    and "last_hash_processed m = chain_key L base bs k"
    and "\<And>j. j < length bs \<Longrightarrow> hm_contains (hash_to_index m) (chain_key L base bs (Suc j)) \<longleftrightarrow> j < k"
    and "unat (bm_height m) = h0 + k" and "queue_ok m"
    and "\<And>x e. hm_get (block_queue m) x = Some e \<Longrightarrow> \<exists>j \<in> Q. x = chain_key L base bs j \<and> bp_block e = bs ! j"
    and "\<And>j. j \<in> Q \<Longrightarrow> hm_contains (block_queue m) (chain_key L base bs j)"
  using assms unfolding partly_def by blast+

lemma partlyI:
  assumes "k \<le> length bs" and "Q \<subseteq> {k..<length bs}" and "block_headers m = hs0 @ map blk_header (take k bs)"
    and "last_hash_processed m = chain_key L base bs k"
    and "\<And>j. j < length bs \<Longrightarrow> hm_contains (hash_to_index m) (chain_key L base bs (Suc j)) \<longleftrightarrow> j < k"
    and "unat (bm_height m) = h0 + k" and "queue_ok m"
    and "\<And>x e. hm_get (block_queue m) x = Some e \<Longrightarrow> \<exists>j \<in> Q. x = chain_key L base bs j \<and> bp_block e = bs ! j"
    and "\<And>j. j \<in> Q \<Longrightarrow> hm_contains (block_queue m) (chain_key L base bs j)"
  shows "partly L base bs hs0 h0 k Q m"
  using assms unfolding partly_def by blast

lemma chain_key_Suc: "j < length bs \<Longrightarrow> chain_key L base bs (Suc j) = header_hash L (blk_header (bs ! j))"
  by (simp add: chain_key_def)

lemma chain_key_inj:
  "new_chain L base bs \<Longrightarrow> i \<le> length bs \<Longrightarrow> j \<le> length bs \<Longrightarrow>
   chain_key L base bs i = chain_key L base bs j \<longleftrightarrow> i = j"
  unfolding chain_key_def new_chain_def by (subst nth_eq_iff_index_eq) auto

lemma chain_key_prev:
  assumes "linked L base (map blk_header bs)" and "j < length bs"
  shows "bh_prev_hash (blk_header (bs ! j)) = chain_key L base bs j"
  using assms
proof (induction bs arbitrary: base j)
  case Nil
  then show ?case by simp
next
  case (Cons b bs)
  then show ?case by (cases j) (auto simp: chain_key_def)
qed

lemma partly_same: "same_chain m m' \<Longrightarrow> partly L base bs hs0 h0 k Q m' = partly L base bs hs0 h0 k Q m"
  by (simp add: partly_def same_chain_sel queue_ok_same)

lemma partly_append:
  assumes new: "new_chain L base bs" and p: "partly L base bs hs0 h0 k Q m"
    and k: "k < length bs" "k \<notin> Q" and h31: "h0 + length bs < 2 ^ 31"
  shows "partly L base bs hs0 h0 (Suc k) Q (append_header L (blk_header (bs ! k)) m)"
proof (rule partlyI)
  show "Q \<subseteq> {Suc k..<length bs}"
  proof
    fix x assume x: "x \<in> Q"
    then have "x \<noteq> k" using k(2) by blast
    then show "x \<in> {Suc k..<length bs}" using partlyD(2) [OF p] x by (auto simp: Suc_le_eq)
  qed
  fix j assume j: "j < length bs"
  have "chain_key L base bs (Suc j) = header_hash L (blk_header (bs ! k)) \<longleftrightarrow> j = k"
    using chain_key_inj [OF new, of "Suc j" "Suc k"] j k(1) unfolding chain_key_Suc [OF k(1)] by simp
  then show "hm_contains (hash_to_index (append_header L (blk_header (bs ! k)) m)) (chain_key L base bs (Suc j))
      \<longleftrightarrow> j < Suc k"
    using partlyD(5) [OF p j] by (auto simp: less_Suc_eq)
next
  show "unat (bm_height (append_header L (blk_header (bs ! k)) m)) = h0 + Suc k"
    using partlyD(6) [OF p] k h31 unat_Suc_i31 [of "bm_height m"] by simp
  show "block_headers (append_header L (blk_header (bs ! k)) m) = hs0 @ map blk_header (take (Suc k) bs)"
    using partlyD(3) [OF p] k by (simp add: take_Suc_conv_app_nth)
qed (use k partlyD(7-9) [OF p] in \<open>simp_all add: queue_ok_append chain_key_Suc\<close>)

lemma partly_room:
  assumes new: "new_chain L base bs" and p: "partly L base bs hs0 h0 k Q m" and h31: "h0 + length bs < 2 ^ 31"
  shows "room m"
proof -
  let ?keys = "fst ` set (block_queue m)"
  have "?keys \<subseteq> chain_key L base bs ` Q"
    using p by (force simp: partly_def queue_ok_def hm_get_in_set)
  moreover have Q: "finite Q" "card Q \<le> length bs - k"
    using p card_mono [of "{k..<length bs}" Q] by (auto simp: partly_def intro: finite_subset)
  ultimately have "card ?keys \<le> length bs - k"
    by (meson card_image_le card_mono finite_imageI order_trans)
  moreover have "card ?keys = length (block_queue m)"
    using p distinct_card [of "map fst (block_queue m)"] by (simp add: partly_def queue_ok_def hm_wf_def)
  moreover have "unat (bm_height m) = h0 + k" "k \<le> length bs" using p by (simp_all add: partly_def)
  ultimately show ?thesis using h31 unfolding room_def by linarith
qed

lemma partly_dequeue:
  assumes new: "new_chain L base bs" and h31: "h0 + length bs < 2 ^ 31"
    and p: "partly L base bs hs0 h0 k Q m" and d: "dequeue L m m'"
  shows "k \<in> Q" and "partly L base bs hs0 h0 (Suc k) (Q - {k}) m'"
proof -
  let ?m = "m\<lparr>block_queue := hm_remove (last_hash_processed m) (block_queue m)\<rparr>"
  obtain e m0 where e: "hm_get (block_queue m) (chain_key L base bs k) = Some e" and same: "same_chain ?m m0"
    and m': "m' = append_header L (blk_header (bp_block e)) m0"
    using d p by (auto simp: dequeue_def partly_def)
  obtain j where "j \<in> Q" "chain_key L base bs k = chain_key L base bs j" "bp_block e = bs ! j"
    using e p unfolding partly_def by blast
  moreover have "j \<le> length bs" "k \<le> length bs" using p \<open>j \<in> Q\<close> by (auto simp: partly_def)
  ultimately have kQ: "k \<in> Q" "bp_block e = bs ! k" using chain_key_inj [OF new] by auto
  then show "k \<in> Q" by simp
  have Q: "Q \<subseteq> {k..<length bs}" and le: "k \<le> length bs" using p by (auto simp: partly_def)
  have inj: "chain_key L base bs i = chain_key L base bs k \<longleftrightarrow> i = k" if "i \<in> Q" for i
    using chain_key_inj [OF new, of i k] that Q le by auto
  have "partly L base bs hs0 h0 k (Q - {k}) ?m"
  proof (rule partlyI)
    show "queue_ok ?m" using partlyD(7) [OF p] by (auto simp: queue_ok_def hm_get_remove split: if_splits)
    show "hm_contains (block_queue ?m) (chain_key L base bs i)" if "i \<in> Q - {k}" for i
      using partlyD(4,9) [OF p] inj [of i] that by simp
    fix x d assume "hm_get (block_queue ?m) x = Some d"
    then have x: "x \<noteq> chain_key L base bs k" "hm_get (block_queue m) x = Some d"
      using partlyD(4) [OF p] by (auto simp: hm_get_remove split: if_splits)
    from partlyD(8) [OF p x(2)] x(1) show "\<exists>i \<in> Q - {k}. x = chain_key L base bs i \<and> bp_block d = bs ! i"
      by blast
  qed (use Q le partlyD [OF p] in auto)
  then have "partly L base bs hs0 h0 k (Q - {k}) m0" using partly_same [OF same] by simp
  then show "partly L base bs hs0 h0 (Suc k) (Q - {k}) m'"
    unfolding m' kQ(2) using Q kQ(1) by (intro partly_append [OF new _ _ _ h31]) auto
qed

text \<open>The blocks with an index in \<open>S\<close> have arrived.\<close>

definition arrived ::
  "ext_lib \<Rightarrow> hash256 \<Rightarrow> block list \<Rightarrow> block_header list \<Rightarrow> nat \<Rightarrow> nat set \<Rightarrow> 'd block_manager \<Rightarrow> bool" where
  "arrived L base bs hs0 h0 S m \<longleftrightarrow>
     (\<exists>k Q. partly L base bs hs0 h0 k Q m \<and> k \<notin> Q \<and> S = {..<k} \<union> Q)"

lemma arrived_after_queue:
  assumes new: "new_chain L base bs" and h31: "h0 + length bs < 2 ^ 31"
    and p: "partly L base bs hs0 h0 k Q (bm s)"
  shows "arrived L base bs hs0 h0 ({..<k} \<union> Q) (bm (process_block_queue L E F s))"
proof -
  let ?P = "\<lambda>m. \<exists>i R. partly L base bs hs0 h0 i R m \<and> {..<k} \<union> Q = {..<i} \<union> R"
  let ?m = "bm (process_block_queue L E F s)"
  have "?P m'" if "?P m" and d: "dequeue L m m'" for m m'
  proof -
    from that(1) obtain i R where i: "partly L base bs hs0 h0 i R m" "{..<k} \<union> Q = {..<i} \<union> R" by blast
    from partly_dequeue [OF new h31 i(1) d] i(2) show ?thesis
      by (intro exI [of _ "Suc i"] exI [of _ "R - {i}"]) (auto simp: lessThan_Suc)
  qed
  moreover have "queue_ok (bm s)" "?P (bm s)" using p by (auto simp: partly_def)
  ultimately have "?P ?m \<and> \<not> hm_contains (block_queue ?m) (last_hash_processed ?m)"
    using process_block_queue_keeps [where P = ?P and L = L and s = s and E = E and F = F]
      partly_room [OF new p h31] by blast
  then obtain i R where "partly L base bs hs0 h0 i R ?m" "{..<k} \<union> Q = {..<i} \<union> R"
      "\<not> hm_contains (block_queue ?m) (last_hash_processed ?m)" by blast
  moreover from this have "i \<notin> R" using partlyD(4,9) by metis
  ultimately show ?thesis unfolding arrived_def by blast
qed

locale block_receiver =
  fixes recv_block :: "block \<Rightarrow> ('d, 'db) bm_sys \<Rightarrow> ('d, 'db) bm_sys"
    and L :: ext_lib and E :: "'db db_env" and F :: "'d file_env"
  assumes known: "hm_contains (hash_to_index (bm s)) (header_hash L (blk_header b)) \<Longrightarrow> recv_block b s = s"
    and in_order: "\<not> hm_contains (hash_to_index (bm s)) (header_hash L (blk_header b)) \<Longrightarrow>
          bh_prev_hash (blk_header b) = last_hash_processed (bm s) \<Longrightarrow> unat (bm_height (bm s)) < 2 ^ 31 \<Longrightarrow>
          \<exists>m s'. same_chain (bm s) m \<and> bm s' = append_header L (blk_header b) m \<and>
             recv_block b s = process_block_queue L E F s'"
    and early: "\<not> hm_contains (hash_to_index (bm s)) (header_hash L (blk_header b)) \<Longrightarrow>
          bh_prev_hash (blk_header b) \<noteq> last_hash_processed (bm s) \<Longrightarrow>
          \<exists>pos. recv_block b s = s\<lparr>bm := enqueue_block pos b (bm s)\<rparr>"
begin

lemma recv_keeps_chain:
  assumes room: "has_room b s" and inv: "chain_inv L base h0 (bm s)"
  shows "chain_inv L base h0 (bm (recv_block b s))"
proof -
  let ?known = "hm_contains (hash_to_index (bm s)) (header_hash L (blk_header b))"
  consider (old) ?known
    | (waits) "\<not> ?known" "bh_prev_hash (blk_header b) \<noteq> last_hash_processed (bm s)"
    | (fits) "\<not> ?known" "bh_prev_hash (blk_header b) = last_hash_processed (bm s)" by blast
  then show ?thesis
  proof cases
    case old
    then show ?thesis using inv by (simp add: known)
  next
    case waits
    then obtain pos where "recv_block b s = s\<lparr>bm := enqueue_block pos b (bm s)\<rparr>" using early by blast
    then show ?thesis
      using inv waits(2) queue_ok_enqueue [of "bm s" pos b] unfolding chain_inv_iff
      by (auto simp: chain_part_def hm_contains_def enqueue_block_get)
  next
    case fits
    have h31: "unat (bm_height (bm s)) < 2 ^ 31" using room by (simp add: has_room_def)
    then obtain m s' where s': "same_chain (bm s) m" "bm s' = append_header L (blk_header b) m"
      "recv_block b s = process_block_queue L E F s'"
      using in_order fits by blast
    have "queue_ok (bm s')"
      using inv s' by (simp add: queue_ok_append queue_ok_same chain_inv_def)
    moreover have "room (bm s')"
      using room s' same_chain_sel [OF s'(1)] unat_Suc_i31 [OF h31] by (simp add: room_def has_room_def)
    moreover have "chain_part L base h0 (bm s')"
      unfolding s'(2) using inv fits(2) h31 by (intro chain_part_append [OF _ s'(1)]) (simp_all add: chain_inv_iff)
    ultimately show ?thesis
      unfolding s'(3) chain_inv_iff
      using process_block_queue_keeps [of "chain_part L base h0" L s' E F] chain_part_dequeue by blast
  qed
qed

lemma recv_size:
  assumes room: "has_room b s" and q: "queue_ok (bm s)"
  shows "unat (bm_height (bm (recv_block b s))) + length (block_queue (bm (recv_block b s)))
     \<le> unat (bm_height (bm s)) + length (block_queue (bm s)) + 1"
proof -
  let ?size = "\<lambda>m. unat (bm_height m) + length (block_queue m)"
  let ?known = "hm_contains (hash_to_index (bm s)) (header_hash L (blk_header b))"
  consider (old) ?known
    | (waits) "\<not> ?known" "bh_prev_hash (blk_header b) \<noteq> last_hash_processed (bm s)"
    | (fits) "\<not> ?known" "bh_prev_hash (blk_header b) = last_hash_processed (bm s)" by blast
  then show ?thesis
  proof cases
    case old
    then show ?thesis by (simp add: known)
  next
    case waits
    then obtain pos where "recv_block b s = s\<lparr>bm := enqueue_block pos b (bm s)\<rparr>" using early by blast
    then show ?thesis using length_hm_insert [of "bh_prev_hash (blk_header b)"]
      by (auto simp: enqueue_block_def Let_def)
  next
    case fits
    have h31: "unat (bm_height (bm s)) < 2 ^ 31" using room by (simp add: has_room_def)
    then obtain m s' where s': "same_chain (bm s) m" "bm s' = append_header L (blk_header b) m"
      "recv_block b s = process_block_queue L E F s'"
      using in_order fits by blast
    have size: "?size (bm s') = ?size (bm s) + 1"
      using same_chain_sel [OF s'(1)] unat_Suc_i31 [OF h31] by (simp add: s'(2))
    have step: "?size m' \<le> ?size (bm s')" if "room m" "?size m \<le> ?size (bm s')" "dequeue L m m'" for m m'
      using that dequeue_room(2) [OF that(1,3)] unat_Suc_i31 [of "bm_height m"]
      by (auto simp: dequeue_def same_chain_def room_def)
    have "queue_ok (bm s')" using q s' by (simp add: queue_ok_append queue_ok_same)
    moreover have "room (bm s')" using size room by (simp add: room_def has_room_def)
    ultimately have "?size (bm (process_block_queue L E F s')) \<le> ?size (bm s')"
      using process_block_queue_keeps [where P = "\<lambda>m. ?size m \<le> ?size (bm s')" and L = L and s = s' and E = E and F = F]
        step by blast
    then show ?thesis using size unfolding s'(3) by simp
  qed
qed

lemma run_keeps_chain:
  "chain_inv L base h0 (bm s) \<Longrightarrow>
   unat (bm_height (bm s)) + length (block_queue (bm s)) + length bs < 2 ^ 31 \<Longrightarrow>
   chain_inv L base h0 (bm (fold recv_block bs s))"
proof (induction bs arbitrary: s)
  case Nil
  then show ?case by simp
next
  case (Cons b bs)
  have room: "has_room b s" using Cons.prems(2) by (simp add: has_room_def)
  have "queue_ok (bm s)" using Cons.prems(1) by (simp add: chain_inv_def)
  from Cons.IH [OF recv_keeps_chain [OF room Cons.prems(1)]] recv_size [OF room this] Cons.prems(2)
  show ?case by simp
qed

lemma recv_arrived:
  assumes new: "new_chain L base bs" and h31: "h0 + length bs < 2 ^ 31"
    and arr: "arrived L base bs hs0 h0 S (bm s)" and j: "j < length bs"
  shows "arrived L base bs hs0 h0 (insert j S) (bm (recv_block (bs ! j) s))"
proof -
  obtain k Q where p: "partly L base bs hs0 h0 k Q (bm s)" and k: "k \<notin> Q" and S: "S = {..<k} \<union> Q"
    using arr by (auto simp: arrived_def)
  have prev: "bh_prev_hash (blk_header (bs ! j)) = chain_key L base bs j"
    using new j by (simp add: new_chain_def chain_key_prev)
  have has: "hm_contains (hash_to_index (bm s)) (header_hash L (blk_header (bs ! j))) \<longleftrightarrow> j < k"
    using p j chain_key_Suc [OF j] by (auto simp: partly_def)
  have last: "bh_prev_hash (blk_header (bs ! j)) = last_hash_processed (bm s) \<longleftrightarrow> j = k"
    using chain_key_inj [OF new, of j k] p j by (auto simp: prev partly_def)
  consider "j < k" | "j = k" | "k < j" by linarith
  then show ?thesis
  proof cases
    case 1
    then have "recv_block (bs ! j) s = s" using known has by blast
    then show ?thesis using arr 1 S by (auto simp: insert_absorb)
  next
    case 2
    then obtain m s' where m: "same_chain (bm s) m" "bm s' = append_header L (blk_header (bs ! j)) m"
      "recv_block (bs ! j) s = process_block_queue L E F s'"
      using in_order [of s "bs ! j"] has last p h31 j by (auto simp: partly_def)
    have "partly L base bs hs0 h0 (Suc k) Q (append_header L (blk_header (bs ! k)) m)"
      using j 2 k p partly_same [OF m(1)] by (intro partly_append [OF new _ _ _ h31]) simp_all
    then have "partly L base bs hs0 h0 (Suc k) Q (bm s')" using m(2) 2 by simp
    from arrived_after_queue [OF new h31 this] show ?thesis
      unfolding m(3) S using 2 by (simp add: lessThan_Suc)
  next
    case 3
    then obtain pos where pos: "recv_block (bs ! j) s = s\<lparr>bm := enqueue_block pos (bs ! j) (bm s)\<rparr>"
      using early [of s "bs ! j"] has last by auto
    have "partly L base bs hs0 h0 k (insert j Q) (enqueue_block pos (bs ! j) (bm s))"
    proof (rule partlyI)
      show "queue_ok (enqueue_block pos (bs ! j) (bm s))" by (rule queue_ok_enqueue [OF partlyD(7) [OF p]])
      fix x e assume "hm_get (block_queue (enqueue_block pos (bs ! j) (bm s))) x = Some e"
      then show "\<exists>i \<in> insert j Q. x = chain_key L base bs i \<and> bp_block e = bs ! i"
        using partlyD(8) [OF p, of x e] by (auto simp: enqueue_block_get prev split: if_splits)
    next
      fix i assume "i \<in> insert j Q"
      then show "hm_contains (block_queue (enqueue_block pos (bs ! j) (bm s))) (chain_key L base bs i)"
        using partlyD(9) [OF p, of i] by (auto simp: hm_contains_def enqueue_block_get prev)
    qed (use j 3 partlyD [OF p] in auto)
    then show ?thesis using 3 k S unfolding pos arrived_def by (intro exI [of _ k] exI [of _ "insert j Q"]) auto
  qed
qed

text \<open>All of the chain, in any order and with any repetitions.\<close>

lemma recv_all:
  assumes new: "new_chain L base bs" and h31: "h0 + length bs < 2 ^ 31"
    and start: "partly L base bs hs0 h0 0 {} (bm s)" and all: "set ds = set bs"
  shows "block_headers (bm (fold recv_block ds s)) = hs0 @ map blk_header bs"
    and "unat (bm_height (bm (fold recv_block ds s))) = h0 + length bs"
    and "last_hash_processed (bm (fold recv_block ds s)) = chain_key L base bs (length bs)"
    and "block_queue (bm (fold recv_block ds s)) = []"
proof -
  let ?S = "\<lambda>ds. {j. j < length bs \<and> bs ! j \<in> set ds}"
  let ?r = "fold recv_block ds s"
  have dist: "distinct bs" using new by (auto simp: new_chain_def dest: distinct_map [THEN iffD1])
  have run: "set ds \<subseteq> set bs \<Longrightarrow> arrived L base bs hs0 h0 (?S ds) (bm (fold recv_block ds s))" for ds
  proof (induction ds rule: rev_induct)
    case Nil
    then show ?case using start by (auto simp: arrived_def)
  next
    case (snoc d ds)
    then obtain j where j: "j < length bs" "d = bs ! j" by (auto simp: in_set_conv_nth)
    have "?S (ds @ [d]) = insert j (?S ds)" using j dist by (auto simp: nth_eq_iff_index_eq)
    then show ?case using snoc recv_arrived [OF new h31 _ j(1)] j(2) by simp
  qed
  have "arrived L base bs hs0 h0 (?S ds) (bm ?r)" by (rule run) (simp add: all)
  moreover have "?S ds = {..<length bs}" unfolding all lessThan_def using nth_mem by blast
  ultimately have "arrived L base bs hs0 h0 {..<length bs} (bm ?r)" by (simp only:)
  then obtain k Q where p: "partly L base bs hs0 h0 k Q (bm ?r)" "k \<notin> Q" "{..<length bs} = {..<k} \<union> Q"
    unfolding arrived_def by blast
  have "k = length bs"
  proof (rule ccontr)
    assume "k \<noteq> length bs"
    then have "k \<in> {..<length bs}" using p(1) by (simp add: partly_def)
    then show False unfolding p(3) using p(2) by simp
  qed
  then have k: "k = length bs" "Q = {}" using p by (auto simp: partly_def)
  then show "block_headers (bm ?r) = hs0 @ map blk_header bs" "unat (bm_height (bm ?r)) = h0 + length bs"
    "last_hash_processed (bm ?r) = chain_key L base bs (length bs)"
    using p(1) by (simp_all add: partly_def)
  have "hm_get (block_queue (bm ?r)) x = None" for x
    using p(1) k by (cases "hm_get (block_queue (bm ?r)) x") (auto simp: partly_def)
  then show "block_queue (bm ?r) = []" by (rule hm_get_none_empty)
qed

end

interpretation on_block: block_receiver "bm_on_block L E F" L E F
proof
  fix b :: block and s :: "('b, 'a) bm_sys"
  let ?h = "header_hash L (blk_header b)"
  show "bm_on_block L E F b s = s" if "hm_contains (hash_to_index (bm s)) ?h"
    using that by (simp add: bm_on_block_def)
  show "\<exists>pos. bm_on_block L E F b s = s\<lparr>bm := enqueue_block pos b (bm s)\<rparr>"
    if "\<not> hm_contains (hash_to_index (bm s)) ?h" "bh_prev_hash (blk_header b) \<noteq> last_hash_processed (bm s)"
    using that by (auto simp: bm_on_block_def Let_def)
  assume a: "\<not> hm_contains (hash_to_index (bm s)) ?h"
    "bh_prev_hash (blk_header b) = last_hash_processed (bm s)" "unat (bm_height (bm s)) < 2 ^ 31"
  let ?m = "snd (write_block_to_file F b (bm s))"
  have same: "same_chain (bm s) ?m" by (rule same_chain_write)
  obtain c where "bm_on_block L E F b s = process_block_queue L E F (bm_process_block L E b (s\<lparr>bm := ?m, ch := c\<rparr>))"
    using a by (simp add: bm_on_block_def Let_def split_def)
  moreover have "bm (bm_process_block L E b (s\<lparr>bm := ?m, ch := c\<rparr>)) = append_header L (blk_header b) ?m"
    using a same_chain_sel [OF same] by (subst bm_process_block_bm) simp_all
  ultimately show "\<exists>m s'. same_chain (bm s) m \<and> bm s' = append_header L (blk_header b) m \<and>
      bm_on_block L E F b s = process_block_queue L E F s'"
    using same by blast
qed

interpretation read_block: block_receiver "\<lambda>b. process_read_block L E F b pos" L E F
proof
  fix b :: block and s :: "('b, 'a) bm_sys"
  let ?h = "header_hash L (blk_header b)"
  show "process_read_block L E F b pos s = s" if "hm_contains (hash_to_index (bm s)) ?h"
    using that by (simp add: process_read_block_def)
  show "\<exists>p. process_read_block L E F b pos s = s\<lparr>bm := enqueue_block p b (bm s)\<rparr>"
    if "\<not> hm_contains (hash_to_index (bm s)) ?h" "bh_prev_hash (blk_header b) \<noteq> last_hash_processed (bm s)"
    using that by (auto simp: process_read_block_def Let_def)
  assume a: "\<not> hm_contains (hash_to_index (bm s)) ?h"
    "bh_prev_hash (blk_header b) = last_hash_processed (bm s)" "unat (bm_height (bm s)) < 2 ^ 31"
  obtain c where "process_read_block L E F b pos s = process_block_queue L E F (bm_process_block L E b (s\<lparr>ch := c\<rparr>))"
    using a by (simp add: process_read_block_def Let_def)
  moreover have "bm (bm_process_block L E b (s\<lparr>ch := c\<rparr>)) = append_header L (blk_header b) (bm s)"
    using a by (subst bm_process_block_bm) simp_all
  ultimately show "\<exists>m s'. same_chain (bm s) m \<and> bm s' = append_header L (blk_header b) m \<and>
      process_read_block L E F b pos s = process_block_queue L E F s'"
    by (intro exI [of _ "bm s"]) auto
qed

section \<open>Restarting from the database\<close>

text \<open>The row of \<open>blocks\<close> that a header at a height has been written as.\<close>

definition stored_header :: "ext_lib \<Rightarrow> nat \<times> block_header \<Rightarrow> db_header" where
  "stored_header L it = (let (i, h) = it in
     \<lparr>dh_height = of_nat i, dh_hash = hash_encode L (header_hash L h), dh_version = bh_version h,
      dh_prev_hash = hash_encode L (bh_prev_hash h), dh_merkle_root = hash_encode L (bh_merkle_root h),
      dh_timestamp = bh_timestamp h, dh_bits = bh_bits h, dh_nonce = bh_nonce h\<rparr>)"

lemma load_stored_header:
  "hash_codec_ok L \<Longrightarrow>
   load_blockheader L (stored_header L (i, h)) m =
     m\<lparr>hash_to_index := hm_insert (header_hash L h) (of_nat i) (hash_to_index m),
       block_headers := block_headers m @ [h], bm_height := of_nat i + 1\<rparr>"
  by (cases h) (simp add: load_blockheader_def stored_header_def bm_decode_stored_hash_def hash_decode_encode Let_def)

lemma unat_next_height: "a + b < 2 ^ 31 \<Longrightarrow> unat (of_nat a + of_nat b + 1 :: u32) = Suc (a + b)"
  using unat_of_usize [of "Suc (a + b)"] by (simp add: add.commute)

lemma load_stored_headers:
  assumes L: "hash_codec_ok L" and h31: "h0 + length hs < 2 ^ 31"
    and m: "block_headers m = []" "hash_to_index m = []"
    and m': "m' = fold (load_blockheader L) (map (stored_header L) (enumerate h0 hs)) m"
  shows "block_headers m' = hs" and "hm_get (hash_to_index m') = heights L h0 hs"
    and "hs \<noteq> [] \<Longrightarrow> unat (bm_height m') = h0 + length hs"
    and "block_queue m' = block_queue m" and "last_hash_processed m' = last_hash_processed m"
  using h31 unfolding m'
proof (induction hs rule: rev_induct)
  case Nil
  {
    case 2
    then show ?case using m by (simp add: heights_def fun_eq_iff)
  }
qed (use m in \<open>simp_all add: enumerate_append_eq load_stored_header [OF L] heights_snoc hm_get_insert
    unat_next_height\<close>)

end
