(* ===== verification/Database.thy ===== *)
theory Database
  imports Db_Server Utxo_Table Config
begin

text \<open>
  The database writer (\<open>struct Database\<close> of \<open>rust/src/uaas/database.rs\<close>): a thread that
  takes operations off the channel, merges runs of batches of one kind, and issues the SQL
  statements, each with retries.

  The senders run concurrently, so what a non-blocking \<open>try_recv\<close> sees depends on the
  schedule. The receiving end is therefore a list of events: \<open>Some oper\<close> is an operation
  that has arrived, \<open>None\<close> a moment at which the queue is empty. A blocking \<open>recv\<close> waits
  such moments out; \<open>try_recv\<close> fails at one. The end of the list is the moment all senders are
  gone and the queue is empty. Every interleaving of senders and writer is one such list.
\<close>

type_synonym rx = "db_operation_type option list"

fun recv :: "rx \<Rightarrow> (unit + db_operation_type) \<times> rx" where
  "recv [] = (Inl (), [])"
| "recv (None # q) = recv q"
| "recv (Some oper # q) = (Inr oper, q)"

fun try_recv :: "rx \<Rightarrow> (unit + db_operation_type) \<times> rx" where
  "try_recv [] = (Inl (), [])"
| "try_recv (None # q) = (Inl (), q)"
| "try_recv (Some oper # q) = (Inr oper, q)"

section \<open>Writing\<close>

text \<open>The writer takes delay and number of retries from the configuration; \<open>conn\<close> is its connection.\<close>

definition database_new ::
  "config \<Rightarrow> (sql_stmt \<Rightarrow> 'db db_call) \<Rightarrow> (u64 list \<Rightarrow> 'db db_call \<Rightarrow> 'db db_call) \<Rightarrow> 'db db_env" where
  "database_new cf conn retry_call = \<lparr>server = conn, retry = retry_call,
     ms_delay = dc_ms_delay (cf_database cf), retries = dc_retries (cf_database cf)\<rparr>"

definition utxo_batch_write :: "'db db_env \<Rightarrow> utxo_entry_db list \<Rightarrow> 'db \<Rightarrow> 'db" where
  "utxo_batch_write E rows db =
     (if rows = [] then db else snd (retry_stmt E (ReplaceUtxo rows) db))"

definition utxo_batch_delete :: "ext_lib \<Rightarrow> 'db db_env \<Rightarrow> out_point list \<Rightarrow> 'db \<Rightarrow> 'db" where
  "utxo_batch_delete L E deletes db =
     (if deletes = [] then db
      else snd (retry_stmt E
             (DeleteUtxo (map (\<lambda>x. (hash_encode L (op_hash x), op_index x)) deletes)) db))"

definition tx_batch_write :: "ext_lib \<Rightarrow> 'db db_env \<Rightarrow> tx_entry_write_db list \<Rightarrow> 'db \<Rightarrow> 'db" where
  "tx_batch_write L E rows db =
     (if rows = [] then db
      else snd (retry_stmt E
             (InsertTx (map (\<lambda>t. (hash_encode L (te_hash t), te_height t, te_blockindex t,
                te_size t, te_satoshis t)) rows)) db))"

definition mempool_batch_write :: "ext_lib \<Rightarrow> 'db db_env \<Rightarrow> mempool_entry_db list \<Rightarrow> 'db \<Rightarrow> 'db" where
  "mempool_batch_write L E rows db =
     (if rows = [] then db
      else snd (retry_stmt E
             (InsertMempool (map (\<lambda>e. (hash_encode L (me_hash e), me_locktime e, me_fee e,
                me_age e, me_tx e)) rows)) db))"

definition mempool_batch_delete :: "ext_lib \<Rightarrow> 'db db_env \<Rightarrow> hash256 list \<Rightarrow> 'db \<Rightarrow> 'db" where
  "mempool_batch_delete L E hashes db =
     (if hashes = [] then db
      else snd (retry_stmt E (DeleteMempool (map (hash_encode L) hashes)) db))"

definition block_header_write :: "ext_lib \<Rightarrow> 'db db_env \<Rightarrow> block_header_write_db \<Rightarrow> 'db \<Rightarrow> 'db" where
  "block_header_write L E h db =
     snd (retry_stmt E
       (InsertBlock (bw_height h) (hash_encode L (bw_hash h)) (bw_version h)
          (hash_encode L (bw_prev_hash h)) (hash_encode L (bw_merkle_root h)) (bw_timestamp h)
          (bw_bits h) (bw_nonce h) (bw_position h) (bw_blocksize h) (bw_numtxs h)) db)"

definition block_header_delete :: "ext_lib \<Rightarrow> 'db db_env \<Rightarrow> hash256 \<Rightarrow> 'db \<Rightarrow> 'db" where
  "block_header_delete L E hash db = snd (retry_stmt E (DeleteBlock (hash_encode L hash)) db)"

definition tx_delete_at_height :: "'db db_env \<Rightarrow> u32 \<Rightarrow> 'db \<Rightarrow> 'db" where
  "tx_delete_at_height E height db = snd (retry_stmt E (DeleteTxAtHeight height) db)"

definition utxo_delete_at_height :: "'db db_env \<Rightarrow> u32 \<Rightarrow> 'db \<Rightarrow> 'db" where
  "utxo_delete_at_height E height db = snd (retry_stmt E (DeleteUtxoAtHeight height) db)"

definition orphan_block_header_write ::
  "ext_lib \<Rightarrow> 'db db_env \<Rightarrow> orphan_block_header_write_db \<Rightarrow> 'db \<Rightarrow> 'db" where
  "orphan_block_header_write L E h db =
     snd (retry_stmt E
       (InsertOrphan (ow_height h) (hash_encode L (ow_hash h)) (ow_version h)
          (hash_encode L (ow_prev_hash h)) (hash_encode L (ow_merkle_root h)) (ow_timestamp h)
          (ow_bits h) (ow_nonce h)) db)"

section \<open>Merging\<close>

text \<open>
  The five \<open>coalesce\<close> methods are one loop, \<open>while let Ok(Kind(ys)) = try_recv()\<close>, at
  five kinds. \<open>sel\<close> is the pattern: what the operation carries if it is of the kind. An
  operation that is not has been taken off the channel all the same.
\<close>

fun coalesce :: "(db_operation_type \<Rightarrow> 'a list option) \<Rightarrow> 'a list \<Rightarrow> rx \<Rightarrow> 'a list \<times> rx" where
  "coalesce sel entries [] = (entries, [])"
| "coalesce sel entries (None # q) = (entries, q)"
| "coalesce sel entries (Some oper # q) =
     (case sel oper of
        Some ys \<Rightarrow> coalesce sel (entries @ ys) q
      | None \<Rightarrow> (entries, q))"

fun utxo_writes :: "db_operation_type \<Rightarrow> utxo_entry_db list option" where
  "utxo_writes (UtxoBatchWrite ys) = Some ys" | "utxo_writes _ = None"

fun utxo_dels :: "db_operation_type \<Rightarrow> out_point list option" where
  "utxo_dels (UtxoBatchDelete ys) = Some ys" | "utxo_dels _ = None"

fun tx_writes :: "db_operation_type \<Rightarrow> tx_entry_write_db list option" where
  "tx_writes (TxBatchWrite ys) = Some ys" | "tx_writes _ = None"

fun mempool_writes :: "db_operation_type \<Rightarrow> mempool_entry_db list option" where
  "mempool_writes (MempoolBatchWrite ys) = Some ys" | "mempool_writes _ = None"

fun mempool_dels :: "db_operation_type \<Rightarrow> hash256 list option" where
  "mempool_dels (MempoolBatchDelete ys) = Some ys" | "mempool_dels _ = None"

definition coalesce_utxo_batch_write :: "utxo_entry_db list \<Rightarrow> rx \<Rightarrow> utxo_entry_db list \<times> rx" where
  "coalesce_utxo_batch_write entries q = coalesce utxo_writes entries q"

definition coalesce_utxo_batch_delete :: "out_point list \<Rightarrow> rx \<Rightarrow> out_point list \<times> rx" where
  "coalesce_utxo_batch_delete deletes q = coalesce utxo_dels deletes q"

definition coalesce_tx_batch_write :: "tx_entry_write_db list \<Rightarrow> rx \<Rightarrow> tx_entry_write_db list \<times> rx" where
  "coalesce_tx_batch_write entries q = coalesce tx_writes entries q"

definition coalesce_mempool_batch_write :: "mempool_entry_db list \<Rightarrow> rx \<Rightarrow> mempool_entry_db list \<times> rx" where
  "coalesce_mempool_batch_write entries q = coalesce mempool_writes entries q"

definition coalesce_mempool_batch_delete :: "hash256 list \<Rightarrow> rx \<Rightarrow> hash256 list \<times> rx" where
  "coalesce_mempool_batch_delete hashes q = coalesce mempool_dels hashes q"

lemmas coalesce_defs = coalesce_utxo_batch_write_def coalesce_utxo_batch_delete_def
  coalesce_tx_batch_write_def coalesce_mempool_batch_write_def coalesce_mempool_batch_delete_def

text \<open>The loop is the one over \<open>try_recv\<close>.\<close>

lemma coalesce_try_recv:
  "coalesce sel entries q =
     (case try_recv q of
        (Inl _, q') \<Rightarrow> (entries, q')
      | (Inr oper, q') \<Rightarrow>
          (case sel oper of Some ys \<Rightarrow> coalesce sel (entries @ ys) q' | None \<Rightarrow> (entries, q')))"
  by (cases q rule: try_recv.cases) simp_all

lemma coalesce_shorter: "coalesce sel entries q = (es, q') \<Longrightarrow> length q' \<le> length q"
  by (induction sel entries q rule: coalesce.induct) (auto split: option.splits)

section \<open>The loop of the writer\<close>

text \<open>The body of \<open>perform_db_operations\<close> for one operation.\<close>

definition perform_db_operation ::
  "ext_lib \<Rightarrow> 'db db_env \<Rightarrow> db_operation_type \<Rightarrow> rx \<Rightarrow> 'db \<Rightarrow> rx \<times> 'db" where
  "perform_db_operation L E oper q db =
     (case oper of
        UtxoBatchWrite entries \<Rightarrow>
          let (entries, q) = coalesce_utxo_batch_write entries q in (q, utxo_batch_write E entries db)
      | UtxoBatchDelete deletes \<Rightarrow>
          let (deletes, q) = coalesce_utxo_batch_delete deletes q in (q, utxo_batch_delete L E deletes db)
      | TxBatchWrite entries \<Rightarrow>
          let (entries, q) = coalesce_tx_batch_write entries q in (q, tx_batch_write L E entries db)
      | MempoolBatchWrite entries \<Rightarrow>
          let (entries, q) = coalesce_mempool_batch_write entries q
          in (q, mempool_batch_write L E entries db)
      | MempoolBatchDelete hashes \<Rightarrow>
          let (hashes, q) = coalesce_mempool_batch_delete hashes q
          in (q, mempool_batch_delete L E hashes db)
      | BlockHeaderWrite block_header \<Rightarrow> (q, block_header_write L E block_header db)
      | OrphanBlockHeaderWrite block_header \<Rightarrow> (q, orphan_block_header_write L E block_header db)
      | BlockHeaderDelete hash \<Rightarrow> (q, block_header_delete L E hash db)
      | TxDelete height \<Rightarrow> (q, tx_delete_at_height E height db)
      | UtxoDelete height \<Rightarrow> (q, utxo_delete_at_height E height db))"

lemma recv_shorter: "recv q = (Inr oper, q') \<Longrightarrow> length q' < length q"
  by (induction q rule: recv.induct) auto

lemma perform_db_operation_shorter:
  "length (fst (perform_db_operation L E oper q db)) \<le> length q"
  by (cases oper) (auto simp: perform_db_operation_def coalesce_defs dest: coalesce_shorter split: prod.split)

function perform_db_operations :: "ext_lib \<Rightarrow> 'db db_env \<Rightarrow> rx \<Rightarrow> 'db \<Rightarrow> 'db" where
  "perform_db_operations L E q db =
     (case recv q of
        (Inl _, _) \<Rightarrow> db
      | (Inr oper, q') \<Rightarrow>
          let (q'', db') = perform_db_operation L E oper q' db
          in perform_db_operations L E q'' db')"
  by pat_completeness auto
termination
proof (relation "measure (\<lambda>(L, E, q, db). length q)", goal_cases)
  case 1
  show ?case by simp
next
  case (2 L E q db r q' oper z q'' db')
  then have "length q' < length q" using recv_shorter by metis
  moreover have "length q'' \<le> length q'"
    using 2 perform_db_operation_shorter [of L E oper q' db] by (metis fst_conv)
  ultimately show ?case by simp
qed

declare perform_db_operations.simps [simp del]

section \<open>What is performed and what is lost\<close>

text \<open>
  The operation that results from merging what follows, what merging drops, and the sequences
  of both over a whole schedule.
\<close>

fun merged_op :: "db_operation_type \<Rightarrow> rx \<Rightarrow> db_operation_type \<times> rx" where
  "merged_op (UtxoBatchWrite xs) q = apfst UtxoBatchWrite (coalesce_utxo_batch_write xs q)"
| "merged_op (UtxoBatchDelete xs) q = apfst UtxoBatchDelete (coalesce_utxo_batch_delete xs q)"
| "merged_op (TxBatchWrite xs) q = apfst TxBatchWrite (coalesce_tx_batch_write xs q)"
| "merged_op (MempoolBatchWrite xs) q = apfst MempoolBatchWrite (coalesce_mempool_batch_write xs q)"
| "merged_op (MempoolBatchDelete xs) q = apfst MempoolBatchDelete (coalesce_mempool_batch_delete xs q)"
| "merged_op oper q = (oper, q)"

fun coalesce_drop :: "(db_operation_type \<Rightarrow> 'a list option) \<Rightarrow> rx \<Rightarrow> db_operation_type list" where
  "coalesce_drop sel [] = []"
| "coalesce_drop sel (None # q) = []"
| "coalesce_drop sel (Some oper # q) =
     (case sel oper of Some _ \<Rightarrow> coalesce_drop sel q | None \<Rightarrow> [oper])"

fun merge_drop :: "db_operation_type \<Rightarrow> rx \<Rightarrow> db_operation_type list" where
  "merge_drop (UtxoBatchWrite _) q = coalesce_drop utxo_writes q"
| "merge_drop (UtxoBatchDelete _) q = coalesce_drop utxo_dels q"
| "merge_drop (TxBatchWrite _) q = coalesce_drop tx_writes q"
| "merge_drop (MempoolBatchWrite _) q = coalesce_drop mempool_writes q"
| "merge_drop (MempoolBatchDelete _) q = coalesce_drop mempool_dels q"
| "merge_drop oper q = []"

lemma merged_op_shorter: "merged_op oper q = (oper', q') \<Longrightarrow> length q' \<le> length q"
  by (cases oper) (auto simp: coalesce_defs apfst_def map_prod_def dest: coalesce_shorter split: prod.splits)

function worker_trace :: "rx \<Rightarrow> db_operation_type list" where
  "worker_trace [] = []"
| "worker_trace (None # q) = worker_trace q"
| "worker_trace (Some oper # q) = fst (merged_op oper q) # worker_trace (snd (merged_op oper q))"
  by pat_completeness auto
termination
  by (relation "measure length") (simp_all add: le_imp_less_Suc merged_op_shorter [OF surjective_pairing])

function worker_dropped :: "rx \<Rightarrow> db_operation_type list" where
  "worker_dropped [] = []"
| "worker_dropped (None # q) = worker_dropped q"
| "worker_dropped (Some oper # q) = merge_drop oper q @ worker_dropped (snd (merged_op oper q))"
  by pat_completeness auto
termination
  by (relation "measure length") (simp_all add: le_imp_less_Suc merged_op_shorter [OF surjective_pairing])

definition arrivals :: "rx \<Rightarrow> db_operation_type list" where
  "arrivals q = List.map_filter id q"

lemma arrivals_simps [simp]:
  "arrivals [] = []" "arrivals (None # q) = arrivals q" "arrivals (Some oper # q) = oper # arrivals q"
  by (simp_all add: arrivals_def List.map_filter_simps)

text \<open>One operation without merging.\<close>

definition exec_op :: "ext_lib \<Rightarrow> 'db db_env \<Rightarrow> db_operation_type \<Rightarrow> 'db \<Rightarrow> 'db" where
  "exec_op L E oper db = snd (perform_db_operation L E oper [] db)"

lemma perform_db_operation_merged:
  "perform_db_operation L E oper q db = (snd (merged_op oper q), exec_op L E (fst (merged_op oper q)) db)"
  by (cases oper)
    (simp_all add: perform_db_operation_def exec_op_def coalesce_defs split: prod.split)

lemma perform_trace: "perform_db_operations L E q db = fold (exec_op L E) (worker_trace q) db"
proof (induction q arbitrary: db rule: worker_trace.induct)
  case 1
  show ?case by (subst perform_db_operations.simps) simp
next
  case (2 q)
  then show ?case
    by (simp add: perform_db_operations.simps [of L E "None # q"] perform_db_operations.simps [of L E q])
next
  case (3 oper q)
  then show ?case
    by (subst perform_db_operations.simps) (simp add: perform_db_operation_merged)
qed

text \<open>An operation as the single rows it carries.\<close>

fun op_rows :: "db_operation_type \<Rightarrow> db_operation_type list" where
  "op_rows (UtxoBatchWrite xs) = map (\<lambda>x. UtxoBatchWrite [x]) xs"
| "op_rows (UtxoBatchDelete xs) = map (\<lambda>x. UtxoBatchDelete [x]) xs"
| "op_rows (TxBatchWrite xs) = map (\<lambda>x. TxBatchWrite [x]) xs"
| "op_rows (MempoolBatchWrite xs) = map (\<lambda>x. MempoolBatchWrite [x]) xs"
| "op_rows (MempoolBatchDelete xs) = map (\<lambda>x. MempoolBatchDelete [x]) xs"
| "op_rows oper = [oper]"

abbreviation rows_of :: "db_operation_type list \<Rightarrow> db_operation_type list" where
  "rows_of opers \<equiv> concat (map op_rows opers)"

text \<open>What the five kinds of batch have in common.\<close>

locale batch_kind =
  fixes sel :: "db_operation_type \<Rightarrow> 'a list option"
    and mk :: "'a list \<Rightarrow> db_operation_type"
  assumes sel_iff: "sel oper = Some xs \<longleftrightarrow> oper = mk xs"
    and rows_mk: "op_rows (mk xs) = map (\<lambda>x. mk [x]) xs"
begin

lemma sel_mk [simp]: "sel (mk xs) = Some xs"
  by (simp add: sel_iff)

lemma coalesce_rows:
  "coalesce sel xs q = (ys, q') \<Longrightarrow>
   op_rows (mk xs) @ rows_of (arrivals q) =
     op_rows (mk ys) @ rows_of (coalesce_drop sel q) @ rows_of (arrivals q')"
proof (induction q arbitrary: xs)
  case Nil
  then show ?case by simp
next
  case (Cons ev q)
  show ?case
  proof (cases ev)
    case None
    then show ?thesis using Cons.prems by simp
  next
    case (Some oper)
    show ?thesis
    proof (cases "sel oper")
      case None
      then show ?thesis using Cons.prems Some by auto
    next
      case (Some zs)
      then have "oper = mk zs" by (simp add: sel_iff)
      then show ?thesis
        using Cons.prems Cons.IH [of "xs @ zs"] \<open>ev = Some oper\<close> by (simp add: rows_mk)
    qed
  qed
qed

end

interpretation utxo_write_kind: batch_kind utxo_writes UtxoBatchWrite
  by unfold_locales (auto elim: utxo_writes.elims)

interpretation utxo_delete_kind: batch_kind utxo_dels UtxoBatchDelete
  by unfold_locales (auto elim: utxo_dels.elims)

interpretation tx_write_kind: batch_kind tx_writes TxBatchWrite
  by unfold_locales (auto elim: tx_writes.elims)

interpretation mempool_write_kind: batch_kind mempool_writes MempoolBatchWrite
  by unfold_locales (auto elim: mempool_writes.elims)

interpretation mempool_delete_kind: batch_kind mempool_dels MempoolBatchDelete
  by unfold_locales (auto elim: mempool_dels.elims)

lemmas coalesce_rows_all =
  utxo_write_kind.coalesce_rows utxo_delete_kind.coalesce_rows tx_write_kind.coalesce_rows
  mempool_write_kind.coalesce_rows mempool_delete_kind.coalesce_rows

lemmas coalesce_rows_flat = coalesce_rows_all [unfolded op_rows.simps]

lemma merged_op_rows:
  "op_rows oper @ rows_of (arrivals q) =
     op_rows (fst (merged_op oper q)) @ rows_of (merge_drop oper q) @
     rows_of (arrivals (snd (merged_op oper q)))"
  by (cases oper)
    (auto simp: coalesce_defs apfst_def map_prod_def intro: coalesce_rows_flat split: prod.split)

text \<open>Every row that arrives is performed or dropped; without drops, the order is kept too.\<close>

lemma worker_conserves:
  "mset (rows_of (arrivals q)) = mset (rows_of (worker_trace q)) + mset (rows_of (worker_dropped q))"
proof (induction q rule: worker_trace.induct)
  case (3 oper q)
  have "mset (rows_of (arrivals (Some oper # q))) = mset (op_rows oper @ rows_of (arrivals q))"
    by simp
  also have "\<dots> = mset (op_rows (fst (merged_op oper q))) + mset (rows_of (merge_drop oper q)) +
      mset (rows_of (arrivals (snd (merged_op oper q))))"
    unfolding merged_op_rows [of oper q] by simp
  finally show ?case using 3 by simp
qed simp_all

lemma worker_keeps_order:
  "worker_dropped q = [] \<Longrightarrow> rows_of (worker_trace q) = rows_of (arrivals q)"
proof (induction q rule: worker_trace.induct)
  case (3 oper q)
  then show ?case using merged_op_rows [of oper q] by simp
qed simp_all

text \<open>A schedule in which the writer finds the queue empty after each operation.\<close>

definition spaced :: "db_operation_type list \<Rightarrow> rx" where
  "spaced opers = concat (map (\<lambda>oper. [Some oper, None]) opers)"

lemma worker_trace_gap [simp]: "worker_trace (Some oper # None # q) = oper # worker_trace q"
  by (cases oper) (simp_all add: coalesce_defs)

lemma worker_dropped_gap [simp]: "worker_dropped (Some oper # None # q) = worker_dropped q"
  by (cases oper) (simp_all add: coalesce_defs)

lemma spaced_simps [simp]:
  "spaced [] = []" "spaced (oper # opers) = Some oper # None # spaced opers"
  by (simp_all add: spaced_def)

lemma worker_trace_spaced: "worker_trace (spaced opers @ q) = opers @ worker_trace q"
  by (induction opers) (simp_all del: worker_trace.simps(3))

lemma worker_dropped_spaced: "worker_dropped (spaced opers @ q) = worker_dropped q"
  by (induction opers) (simp_all del: worker_dropped.simps(3))

section \<open>The table \<open>utxo\<close> behind the writer\<close>

text \<open>The meaning of the statements on that table, and a server that implements it.\<close>

fun stmt_on_utxo :: "sql_stmt \<Rightarrow> utxo_table \<Rightarrow> utxo_table" where
  "stmt_on_utxo (ReplaceUtxo rows) t = fold (\<lambda>r t. t(row_key r \<mapsto> r)) rows t"
| "stmt_on_utxo (DeleteUtxo ks) t = fold (\<lambda>k t. t(k := None)) ks t"
| "stmt_on_utxo (DeleteUtxoAtHeight h) t =
     (\<lambda>k. case t k of Some r \<Rightarrow> if sint (ue_height r) = int (unat h) then None else Some r
                   | None \<Rightarrow> None)"
| "stmt_on_utxo _ t = t"

fun concerns_utxo :: "sql_stmt \<Rightarrow> bool" where
  "concerns_utxo (ReplaceUtxo _) = True"
| "concerns_utxo (DeleteUtxo _) = True"
| "concerns_utxo (DeleteUtxoAtHeight _) = True"
| "concerns_utxo _ = False"

definition utxo_server_ok :: "'db db_env \<Rightarrow> ('db \<Rightarrow> utxo_table) \<Rightarrow> bool" where
  "utxo_server_ok W tbl \<longleftrightarrow> table_server W tbl concerns_utxo (\<lambda>_ _. True) stmt_on_utxo"

lemma retry_on_utxo:
  "utxo_server_ok E tbl \<Longrightarrow> tbl (snd (retry_stmt E stmt db)) = stmt_on_utxo stmt (tbl db)"
  unfolding utxo_server_ok_def by (erule table_server.retry_effect) simp

lemma fold_delete_map: "fold (\<lambda>k t. t(k := None)) (map f ps) t = fold (\<lambda>p t. t(f p := None)) ps t"
  by (induction ps arbitrary: t) simp_all

lemma exec_op_on_utxo:
  "utxo_server_ok E tbl \<Longrightarrow> tbl (exec_op L E oper db) = utxo_table_apply L oper (tbl db)"
  by (cases oper)
    (simp_all add: exec_op_def perform_db_operation_def coalesce_defs retry_on_utxo
      utxo_batch_write_def utxo_batch_delete_def tx_batch_write_def mempool_batch_write_def
      mempool_batch_delete_def block_header_write_def block_header_delete_def
      tx_delete_at_height_def utxo_delete_at_height_def orphan_block_header_write_def
      fold_delete_map op_key_def split_def)

lemma perform_on_utxo:
  "utxo_server_ok E tbl \<Longrightarrow>
   tbl (perform_db_operations L E q db) = utxo_table_run L (worker_trace q) (tbl db)"
proof -
  assume E: "utxo_server_ok E tbl"
  have "tbl (fold (exec_op L E) opers db) = utxo_table_run L opers (tbl db)" for opers
    by (induction opers arbitrary: db) (simp_all add: exec_op_on_utxo [OF E])
  then show ?thesis by (simp add: perform_trace)
qed

lemma utxo_table_run_inert:
  "(\<And>x t. utxo_table_apply L (f x) t = t) \<Longrightarrow> utxo_table_run L (map f xs) t = t"
  by (induction xs) simp_all

lemma utxo_table_run_rows: "utxo_table_run L (op_rows oper) t = utxo_table_apply L oper t"
proof -
  have "utxo_table_run L (map (\<lambda>x. UtxoBatchWrite [x]) xs) t = utxo_table_apply L (UtxoBatchWrite xs) t" for xs
    by (induction xs arbitrary: t) simp_all
  moreover have "utxo_table_run L (map (\<lambda>x. UtxoBatchDelete [x]) xs) t = utxo_table_apply L (UtxoBatchDelete xs) t" for xs
    by (induction xs arbitrary: t) simp_all
  ultimately show ?thesis by (cases oper) (simp_all add: utxo_table_run_inert)
qed

lemma utxo_table_run_rows_of: "utxo_table_run L (rows_of opers) t = utxo_table_run L opers t"
  by (induction opers arbitrary: t) (simp_all add: utxo_table_run_rows)

text \<open>A server that is the table itself, for the witnesses.\<close>

definition table_env :: "utxo_table db_env" where
  "table_env = \<lparr>server = (\<lambda>stmt t. (Inr (), stmt_on_utxo stmt t)),
     retry = (\<lambda>ds call db. attempts (length ds) call db), ms_delay = 300, retries = 3\<rparr>"

lemma stmt_on_utxo_other: "\<not> concerns_utxo stmt \<Longrightarrow> stmt_on_utxo stmt t = t"
  by (cases stmt) simp_all

interpretation utxo_only: table_server table_env "\<lambda>t. t" concerns_utxo "\<lambda>_ _. True" stmt_on_utxo
  by unfold_locales
    (simp_all add: table_env_def retry_crate_ok_def stmt_on_utxo_other split: prod.split sum.split)

lemma table_env_ok [simp]: "utxo_server_ok table_env id" "utxo_server_ok table_env (\<lambda>t. t)"
  using utxo_only.table_server_axioms by (simp_all add: utxo_server_ok_def id_def)

lemma arrivals_spaced [simp]: "arrivals (spaced opers) = opers"
  by (induction opers) simp_all

lemma worker_dropped_spaced_all [simp]: "worker_dropped (spaced opers) = []"
  using worker_dropped_spaced [of opers "[]"] by simp

end
