(* ===== verification/Tx_Sync.thy ===== *)
theory Tx_Sync
  imports Tx_Analyser Database
begin

text \<open>
  The transaction analyser as a machine: one event for every call the rest of the program
  makes into it, and the invariant that what was sent to the database writer, applied to the
  table \<open>utxo\<close>, followed by the rows still waiting, is the set of outputs in memory
  (\<open>ta_synced\<close>). Since no input is ever deleted, the operation that could break the
  contract of \<open>Utxo\<close> (adding an outpoint that waits to be deleted) never occurs, and the
  rows that wait are all of transactions outside a block, so dropping a height is safe, too.
\<close>

datatype ta_event =
    Standalone "u64 option" tx bool
  | Update_Utxo
  | Flush_Cache
  | Block_In block i32
  | Orphan_Height u32
  | Add_Monitor bool collection_config
  | Delete_Monitor bool string

fun ta_step ::
  "ext_lib \<Rightarrow> 'db db_env \<Rightarrow> ta_event \<Rightarrow> 'db tx_analyser \<times> db_chan \<Rightarrow> 'db tx_analyser \<times> db_chan" where
  "ta_step L E (Standalone now t br) (s, c) = process_standalone_tx L E now t br s c"
| "ta_step L E Update_Utxo (s, c) = (let (u, c) = utxo_update_db (ta_utxo s) c in (s\<lparr>ta_utxo := u\<rparr>, c))"
| "ta_step L E Flush_Cache (s, c) = ta_flush_database_cache s c"
| "ta_step L E (Block_In b h) (s, c) = ta_process_block L E b h s c"
| "ta_step L E (Orphan_Height h) (s, c) = ta_handle_orphan_block h s c"
| "ta_step L E (Add_Monitor w m) (s, c) = (add_monitor L w m s, c)"
| "ta_step L E (Delete_Monitor w n) (s, c) = (delete_monitor w n s, c)"

definition utxo_ok :: "ext_lib \<Rightarrow> utxo_table \<Rightarrow> utxo_db \<Rightarrow> bool" where
  "utxo_ok L t u \<longleftrightarrow> wf_utxo L u \<and> utxo_deletes u = [] \<and>
     list_all (\<lambda>(p, r). ue_height r = NOT_IN_BLOCK) (utxo_entries u) \<and> utxo_synced L t u"

definition ta_synced :: "ext_lib \<Rightarrow> utxo_table \<Rightarrow> 'db tx_analyser \<times> db_chan \<Rightarrow> bool" where
  "ta_synced L t0 sc \<longleftrightarrow> rx_alive (snd sc) \<and>
     utxo_ok L (utxo_table_run L (sent (snd sc)) t0) (ta_utxo (fst sc))"

section \<open>Adding outputs\<close>

lemma utxo_ok_add:
  assumes "hash_codec_ok L" and "utxo_ok L t u"
  shows "utxo_ok L t (utxo_add L h i v NOT_IN_BLOCK pk u)"
  using assms utxo_synced_add [of L u t h i v NOT_IN_BLOCK pk] wf_utxo_add [of L u h i v NOT_IN_BLOCK pk]
  unfolding utxo_ok_def
  by (auto simp: utxo_add_def Let_def intro!: list_all_hm_insert split: option.split)

lemma utxo_ok_outputs:
  "hash_codec_ok L \<Longrightarrow> utxo_ok L t u \<Longrightarrow> utxo_ok L t (fold (process_tx_output L h NOT_IN_BLOCK) its u)"
  by (induction its arbitrary: u)
    (auto simp: process_tx_output_def Let_def utxo_ok_add split: prod.split)

section \<open>Flushing and dropping a height\<close>

lemma utxo_ok_flushed:
  assumes "utxo_ok L t u"
  shows "utxo_ok L (utxo_table_run L (utxo_pending u) t) (u\<lparr>utxo_entries := [], utxo_deletes := []\<rparr>)"
  using assms utxo_synced_update_db [of L t u] by (simp add: utxo_ok_def utxo_update_db_eq wf_utxo_def)

lemma utxo_pending_flushed [simp]:
  "utxo_table_run L (utxo_pending (u\<lparr>utxo_entries := [], utxo_deletes := []\<rparr>)) t = t"
  by (simp add: utxo_pending_def hm_values_def)

lemma sint_not_in_block: "sint NOT_IN_BLOCK = - 1"
  by (simp add: NOT_IN_BLOCK_def)

lemma utxo_ok_orphan:
  assumes L: "hash_codec_ok L" and u: "utxo_ok L t u"
  shows "utxo_ok L (utxo_table_apply L (UtxoDelete h) t) (fst (utxo_handle_orphan_block h u c))"
proof -
  have "list_all (\<lambda>(p, r). sint (ue_height r) \<noteq> int (unat h)) (utxo_entries u)"
  proof -
    have "sint NOT_IN_BLOCK \<noteq> int (unat h)" unfolding sint_not_in_block by linarith
    then show ?thesis using u by (auto simp: utxo_ok_def list_all_iff)
  qed
  then have "utxo_synced L (utxo_table_apply L (UtxoDelete h) t) (fst (utxo_handle_orphan_block h u c))"
    using u by (intro utxo_synced_orphan [OF L]) (simp_all add: utxo_ok_def)
  moreover have "wf_utxo L (fst (utxo_handle_orphan_block h u c))"
    using u by (simp add: utxo_ok_def wf_utxo_handle_orphan_block)
  ultimately show ?thesis
    using u by (auto simp: utxo_ok_def utxo_handle_orphan_block_eq split: option.split)
qed

section \<open>Every event keeps the contract\<close>

lemma monitor_frame [simp]:
  "ta_utxo (add_monitor L w m s) = ta_utxo s" "ta_utxo (delete_monitor w n s) = ta_utxo s"
  by (simp_all add: add_monitor_def delete_monitor_def Let_def split: sum.split prod.split option.split)

lemma flush_ops_on_table: "utxo_table_run L (flush_ops s) t = utxo_table_run L (utxo_pending (ta_utxo s)) t"
  by (simp add: flush_ops_def)

lemma ta_synced_flush:
  assumes "ta_synced L t0 (s, c)"
  shows "ta_synced L t0 (ta_flush_database_cache s c)"
  using assms utxo_ok_flushed [of L "utxo_table_run L (sent c) t0" "ta_utxo s"]
  by (simp add: ta_synced_def ta_flush_database_cache_eq flush_ops_on_table)

lemma ta_step_synced:
  assumes L: "hash_codec_ok L" and s: "ta_synced L t0 sc"
  shows "ta_synced L t0 (ta_step L E ev sc)"
proof (cases sc)
  case (Pair a c)
  note s = s [unfolded Pair]
  have u: "utxo_ok L (utxo_table_run L (sent c) t0) (ta_utxo a)" and c: "rx_alive c"
    using s by (simp_all add: ta_synced_def)
  show ?thesis
  proof (cases ev)
    case (Standalone now t br)
    show ?thesis
      using utxo_ok_outputs [OF L u, of "tx_hash L t" "enumerate 0 (tx_outputs t)"] c
      by (simp add: Pair Standalone ta_synced_def standalone_fields process_tx_outputs_def Let_def)
  next
    case Update_Utxo
    show ?thesis
      using utxo_ok_flushed [OF u] c by (simp add: Pair Update_Utxo ta_synced_def utxo_update_db_eq utxo_pending_def)
  next
    case Flush_Cache
    show ?thesis using ta_synced_flush [OF s] by (simp add: Pair Flush_Cache)
  next
    case (Block_In b h)
    show ?thesis
      using s by (simp add: Pair Block_In ta_process_block_eq) (rule ta_synced_flush, simp add: ta_synced_def)
  next
    case (Orphan_Height h)
    show ?thesis
      using utxo_ok_orphan [OF L u, of h c] c
      by (simp add: Pair Orphan_Height ta_synced_def ta_handle_orphan_block_eq del: utxo_table_apply.simps(3))
  qed (use s in \<open>simp_all add: Pair ta_synced_def\<close>)
qed

interpretation ta_log: mono_machine "ta_step L E" "\<lambda>sc. sent (snd sc)"
proof
  fix ev :: ta_event and sc :: "'a tx_analyser \<times> db_chan"
  show "\<exists>zs. sent (snd (ta_step L E ev sc)) = sent (snd sc) @ zs"
    by (cases sc; cases ev)
      (simp_all add: standalone_fields utxo_update_db_eq ta_flush_database_cache_eq ta_process_block_eq
        ta_handle_orphan_block_eq sent_chan_sends)
qed

section \<open>The start\<close>

text \<open>
  The table as the loading query finds it: its rows, each under its own key and with a hash
  the library can read back.
\<close>

definition table_of :: "utxo_entry_db list \<Rightarrow> utxo_table" where
  "table_of rows = map_of (map (\<lambda>r. (row_key r, r)) rows)"

definition rows_ok :: "ext_lib \<Rightarrow> utxo_entry_db list \<Rightarrow> bool" where
  "rows_ok L rows \<longleftrightarrow> distinct (map row_key rows) \<and>
     list_all (\<lambda>r. case hash_decode L (ue_hash r) of Some h \<Rightarrow> hash_encode L h = ue_hash r | None \<Rightarrow> False) rows"

lemma load_utxo_entry_frame [simp]:
  "utxo_entries (fold (load_utxo_entry L) rows u) = utxo_entries u"
  "utxo_deletes (fold (load_utxo_entry L) rows u) = utxo_deletes u"
  by (induction rows arbitrary: u) (simp_all add: load_utxo_entry_def split: option.split)

lemma table_of_snoc:
  "row_key r \<notin> set (map row_key rows) \<Longrightarrow> table_of (rows @ [r]) = (table_of rows)(row_key r \<mapsto> r)"
  by (induction rows) (auto simp: table_of_def fun_upd_twist)

lemma load_utxo_get:
  assumes L: "hash_codec_ok L"
  shows "rows_ok L rows \<Longrightarrow>
     map_option (row_of L p) (hm_get (utxo (fold (load_utxo_entry L) rows utxo_new)) p) = table_of rows (op_key L p)"
proof (induction rows rule: rev_induct)
  case Nil
  show ?case by (simp add: utxo_new_def table_of_def)
next
  case (snoc r rows)
  obtain h where h: "hash_decode L (ue_hash r) = Some h" "hash_encode L h = ue_hash r"
    using snoc.prems by (auto simp: rows_ok_def split: option.splits)
  let ?p = "\<lparr>op_hash = h, op_index = ue_pos r\<rparr>"
  have key: "row_key r = op_key L ?p" using h by (simp add: row_key_def op_key_def)
  have fresh: "row_key r \<notin> set (map row_key rows)" using snoc.prems by (auto simp: rows_ok_def)
  have IH: "map_option (row_of L p) (hm_get (utxo (fold (load_utxo_entry L) rows utxo_new)) p) = table_of rows (op_key L p)"
    using snoc by (simp add: rows_ok_def)
  have "row_of L ?p \<lparr>u_satoshis = ue_satoshis r, u_height = ue_height r, u_pubkeyhash = ue_pubkeyhash r\<rparr> = r"
    using h by (simp add: row_of_def)
  moreover have "load_utxo_entry L r u = u\<lparr>utxo := hm_insert ?p
      \<lparr>u_satoshis = ue_satoshis r, u_height = ue_height r, u_pubkeyhash = ue_pubkeyhash r\<rparr> (utxo u)\<rparr>" for u
    using h by (simp add: load_utxo_entry_def utxo_decode_stored_hash_def)
  ultimately show ?case
    using IH table_of_snoc [OF fresh] by (auto simp: hm_get_insert key op_key_inj [OF L])
qed

lemma load_utxo_ok:
  assumes L: "hash_codec_ok L" and rows: "rows_ok L rows"
  shows "utxo_ok L (table_of rows) (load_utxo L (Some rows) utxo_new)"
proof -
  let ?u = "load_utxo L (Some rows) utxo_new"
  have fields: "utxo_entries ?u = []" "utxo_deletes ?u = []"
    by (simp_all add: load_utxo_def utxo_new_def)
  have wf: "wf_utxo L ?u" by (rule wf_load_utxo) simp
  have "utxo_cell L (table_of rows) ?u p" for p
    using load_utxo_get [OF L rows, of p] fields by (simp add: utxo_cell_def load_utxo_def)
  moreover have "table_of rows k = None" if "k \<notin> range (op_key L)" for k
  proof -
    have "k \<noteq> row_key r" if r: "r \<in> set rows" for r
    proof -
      obtain h where "hash_encode L h = ue_hash r"
        using rows r by (auto simp: rows_ok_def list_all_iff split: option.splits)
      then have "row_key r = op_key L \<lparr>op_hash = h, op_index = ue_pos r\<rparr>"
        by (simp add: row_key_def op_key_def)
      then show ?thesis using \<open>k \<notin> range (op_key L)\<close> by auto
    qed
    then have "k \<notin> row_key ` set rows" by blast
    then show ?thesis by (simp add: table_of_def map_of_eq_None_iff image_image)
  qed
  ultimately show ?thesis
    unfolding utxo_ok_def utxo_synced_iff [OF L wf] using wf fields by auto
qed

end
