(* ===== verification/Monitors.thy ===== *)
theory Monitors
  imports Tx_Sync
begin

text \<open>
  The collections of the transaction analyser and the monitors they come from: which
  collection takes a transaction, that no collection holds a transaction twice, and how adding
  and deleting a monitor keep the list of collections and the dynamic configuration in step.
\<close>

section \<open>Which collection takes a transaction\<close>

definition takes :: "tx \<Rightarrow> working_collection \<Rightarrow> bool" where
  "takes t c \<longleftrightarrow> (track_descendants c \<and> is_decendant c t) \<or> match_any_locking_script c t"

lemma take_tx_skip:
  "list_all (\<lambda>a. \<not> have_tx a (tx_hash L t) \<and> \<not> takes t a) as \<Longrightarrow>
   take_tx L E t (as @ cs) db = (let (r, cs', db') = take_tx L E t cs db in (r, as @ cs', db'))"
  by (induction as) (auto simp: takes_def split: prod.split)

lemma take_tx_none:
  "list_all (\<lambda>a. \<not> have_tx a (tx_hash L t) \<and> \<not> takes t a) cs \<Longrightarrow> take_tx L E t cs db = (False, cs, db)"
  using take_tx_skip [of L t cs E "[]" db] by simp

text \<open>Every list of collections splits at the first one that has or takes the transaction.\<close>

lemma collections_split:
  obtains (none) "list_all (\<lambda>a. \<not> have_tx a h \<and> \<not> takes t a) cs"
  | (has) as c bs where "cs = as @ c # bs" "list_all (\<lambda>a. \<not> have_tx a h \<and> \<not> takes t a) as" "have_tx c h"
  | (takes) as c bs where "cs = as @ c # bs" "list_all (\<lambda>a. \<not> have_tx a h \<and> \<not> takes t a) as"
      "\<not> have_tx c h" "takes t c"
proof (cases "\<exists>c \<in> set cs. have_tx c h \<or> takes t c")
  case True
  then obtain as c bs where "cs = as @ c # bs" "have_tx c h \<or> takes t c"
    "\<forall>a \<in> set as. \<not> (have_tx a h \<or> takes t a)" using split_list_first_prop [OF True] by blast
  then show ?thesis using has takes by (cases "have_tx c h") (auto simp: list_all_iff)
next
  case False
  then show ?thesis using none by (auto simp: list_all_iff)
qed

lemma take_tx_has:
  "list_all (\<lambda>a. \<not> have_tx a (tx_hash L t) \<and> \<not> takes t a) as \<Longrightarrow> have_tx c (tx_hash L t) \<Longrightarrow>
   take_tx L E t (as @ c # bs) db = (True, as @ c # bs, db)"
  by (simp add: take_tx_skip)

lemma take_tx_takes:
  "list_all (\<lambda>a. \<not> have_tx a (tx_hash L t) \<and> \<not> takes t a) as \<Longrightarrow> \<not> have_tx c (tx_hash L t) \<Longrightarrow> takes t c \<Longrightarrow>
   take_tx L E t (as @ c # bs) db =
     (True, as @ wc_push (tx_hash L t) c # bs, write_tx_to_database L E (wc_name c) t db)"
  by (simp add: take_tx_skip takes_def)

lemma push_broadcast_cases:
  obtains (none) "push_broadcast L E t cs db = (cs, db)"
  | (some) as c bs where "cs = as @ c # bs" "wc_name c = ''broadcast''"
      "push_broadcast L E t cs db =
         (as @ wc_push (tx_hash L t) c # bs, write_tx_to_database L E (wc_name c) t db)"
proof (induction cs arbitrary: thesis)
  case Nil
  then show ?case by simp
next
  case (Cons c cs)
  show ?case
  proof (cases "wc_name c = ''broadcast''")
    case True
    then show ?thesis using Cons.prems(2) [of "[]" c cs] by simp
  next
    case False
    show ?thesis
    proof (rule Cons.IH)
      assume "push_broadcast L E t cs db = (cs, db)"
      then show thesis using False Cons.prems(1) by simp
    next
      fix as b bs
      assume "cs = as @ b # bs" "wc_name b = ''broadcast''" "push_broadcast L E t cs db =
         (as @ wc_push (tx_hash L t) b # bs, write_tx_to_database L E (wc_name b) t db)"
      then show thesis using False Cons.prems(2) [of "c # as" b bs] by simp
    qed
  qed
qed

text \<open>The effect on the list: nothing, or one hash pushed onto one collection that lacked it.\<close>

lemma process_collection_effect:
  obtains (none) "ta_collection (process_collection L E t br s) = ta_collection s"
  | (one) as c bs where "ta_collection s = as @ c # bs" "\<not> have_tx c (tx_hash L t)"
      "ta_collection (process_collection L E t br s) = as @ wc_push (tx_hash L t) c # bs"
proof (cases rule: collections_split [of "tx_hash L t" t "ta_collection s"])
  case none
  have eq: "ta_collection (process_collection L E t br s) =
      (if br then fst (push_broadcast L E t (ta_collection s) (ta_db s)) else ta_collection s)"
    by (simp add: process_collection_def take_tx_none [OF none] split_def Let_def)
  show ?thesis
  proof (cases rule: push_broadcast_cases [of L E t "ta_collection s" "ta_db s"])
    case none
    then show ?thesis using that(1) eq by simp
  next
    case (some as c bs)
    have "\<not> have_tx c (tx_hash L t)" using none some(1) by simp
    then show ?thesis
      using that(1) that(2) [OF some(1)] eq unfolding some(3) by (cases br) simp_all
  qed
next
  case (has as c bs)
  then show ?thesis using that(1) by (simp add: process_collection_def take_tx_has)
next
  case (takes as c bs)
  then show ?thesis using that(2) [OF takes(1,3)] by (simp add: process_collection_def take_tx_takes)
qed

lemma process_collection_names [simp]:
  "map wc_name (ta_collection (process_collection L E t br s)) = map wc_name (ta_collection s)"
  by (rule process_collection_effect [of L E t br s]) simp_all

section \<open>No collection holds a transaction twice\<close>

definition collections_distinct :: "'db tx_analyser \<Rightarrow> bool" where
  "collections_distinct s \<longleftrightarrow> list_all (\<lambda>c. distinct (wc_txs c)) (ta_collection s)"

lemma process_collection_distinct:
  "collections_distinct s \<Longrightarrow> collections_distinct (process_collection L E t br s)"
  by (rule process_collection_effect [of L E t br s]) (auto simp: collections_distinct_def)

lemma vec_remove_subset: "set (vec_remove i xs) \<subseteq> set xs"
  by (auto simp: vec_remove_def dest: in_set_takeD in_set_dropD)

lemma flush_collection [simp]:
  "ta_collection (fst (ta_flush_database_cache s c)) = ta_collection s"
  "ta_collection (fst (ta_process_block L E b h s c)) = ta_collection s"
  "ta_collection (fst (ta_handle_orphan_block oh s c)) = ta_collection s"
  "ta_dynamic_config (fst (ta_flush_database_cache s c)) = ta_dynamic_config s"
  "ta_dynamic_config (fst (ta_process_block L E b h s c)) = ta_dynamic_config s"
  "ta_dynamic_config (fst (ta_handle_orphan_block oh s c)) = ta_dynamic_config s"
  by (simp_all add: ta_flush_database_cache_eq ta_process_block_eq ta_handle_orphan_block_eq)

lemma update_utxo_collection [simp]:
  "ta_collection (fst (ta_step L E Update_Utxo (s, c))) = ta_collection s"
  "ta_dynamic_config (fst (ta_step L E Update_Utxo (s, c))) = ta_dynamic_config s"
  by (simp_all add: utxo_update_db_eq)

lemma monitor_collection_distinct:
  "collections_distinct s \<Longrightarrow> collections_distinct (add_monitor L w m s)"
  "collections_distinct s \<Longrightarrow> collections_distinct (delete_monitor w n s)"
  using vec_remove_subset
  by (fastforce simp: collections_distinct_def add_monitor_def delete_monitor_def Let_def list_all_iff
      dest: wc_new_sel split: sum.split prod.split option.split)+

lemma ta_step_distinct:
  "collections_distinct (fst sc) \<Longrightarrow> collections_distinct (fst (ta_step L E ev sc))"
proof (cases sc)
  case (Pair s c)
  assume "collections_distinct (fst sc)"
  then show ?thesis
    using monitor_collection_distinct process_collection_distinct [of s L E]
    by (cases ev) (simp_all add: Pair collections_distinct_def standalone_fields del: ta_step.simps(2))
qed

section \<open>Collections and the dynamic configuration\<close>

text \<open>
  Names are used once, in the collections and in the dynamic configuration, and each dynamic
  monitor has its collection. \<open>static_names\<close> are the collections that are not dynamic.
\<close>

definition coll_names :: "'db tx_analyser \<Rightarrow> string list" where
  "coll_names s = map wc_name (ta_collection s)"

definition dynamic_names :: "'db tx_analyser \<Rightarrow> string list" where
  "dynamic_names s = map cc_name (dyn_collection (ta_dynamic_config s))"

definition monitors_ok :: "'db tx_analyser \<Rightarrow> bool" where
  "monitors_ok s \<longleftrightarrow> distinct (coll_names s) \<and> distinct (dynamic_names s) \<and>
     set (dynamic_names s) \<subseteq> set (coll_names s)"

definition static_names :: "'db tx_analyser \<Rightarrow> string list" where
  "static_names s = filter (\<lambda>n. n \<notin> set (dynamic_names s)) (coll_names s)"

lemma is_name_in_collection_iff: "is_name_in_collection n s \<longleftrightarrow> n \<in> set (coll_names s)"
  by (auto simp: is_name_in_collection_def list_ex_iff wc_name_def coll_names_def)

lemma is_name_in_dynamic_iff: "is_name_in_dynamic_collection n s \<longleftrightarrow> n \<in> set (dynamic_names s)"
  by (auto simp: is_name_in_dynamic_collection_def list_ex_iff dynamic_names_def)

text \<open>Adding: nothing where the name is taken or no collection can be built.\<close>

lemma add_monitor_skip:
  "cc_name m \<in> set (coll_names s) \<or> (\<forall>wc. wc_new L m (ta_network s) \<noteq> Inr wc) \<Longrightarrow> add_monitor L w m s = s"
  by (cases "wc_new L m (ta_network s)") (auto simp: add_monitor_def is_name_in_collection_iff)

lemma add_monitor_new:
  assumes "cc_name m \<notin> set (coll_names s)" and "wc_new L m (ta_network s) = Inr wc"
  shows "ta_collection (add_monitor L w m s) = ta_collection s @ [wc]"
    and "dyn_collection (ta_dynamic_config (add_monitor L w m s)) = dyn_collection (ta_dynamic_config s) @ [m]"
    and "wc_name wc = cc_name m"
  using assms wc_new_sel [OF assms(2)]
  by (simp_all add: add_monitor_def is_name_in_collection_iff dyn_add_def Let_def wc_name_def)

lemma add_monitor_names:
  assumes "cc_name m \<notin> set (coll_names s)" and "wc_new L m (ta_network s) = Inr wc"
  shows "coll_names (add_monitor L w m s) = coll_names s @ [cc_name m]"
    and "dynamic_names (add_monitor L w m s) = dynamic_names s @ [cc_name m]"
  by (simp_all add: coll_names_def dynamic_names_def add_monitor_new [OF assms])

lemma filter_keep: "n \<notin> set xs \<Longrightarrow> filter (\<lambda>k. k \<noteq> n) xs = xs"
  by (rule filter_True) auto

lemma map_vec_remove:
  assumes "distinct (map f xs)" and "iter_position (\<lambda>x. f x = n) xs = Some i"
  shows "map f (vec_remove i xs) = filter (\<lambda>k. k \<noteq> n) (map f xs)"
    and "vec_remove i xs = filter (\<lambda>x. f x \<noteq> n) xs"
proof -
  from position_Some_split [OF assms(2)] obtain as x bs where
    s: "xs = as @ x # bs" "f x = n" "vec_remove i xs = as @ bs" by blast
  then have out: "n \<notin> set (map f as)" "n \<notin> set (map f bs)" using assms(1) by auto
  then show "map f (vec_remove i xs) = filter (\<lambda>k. k \<noteq> n) (map f xs)"
    unfolding s(3) unfolding s(1) using s(2) by (simp add: filter_keep [of n "map f as"] filter_keep [of n "map f bs"] del: set_map)
  have "filter (\<lambda>x. f x \<noteq> n) as = as" "filter (\<lambda>x. f x \<noteq> n) bs = bs" using out by (auto intro!: filter_True)
  then show "vec_remove i xs = filter (\<lambda>x. f x \<noteq> n) xs" unfolding s(3) unfolding s(1) using s(2) by simp
qed

text \<open>Deleting: the dynamic monitor of that name and its collection go.\<close>

lemma delete_monitor_collections:
  assumes ok: "monitors_ok s"
  shows "ta_collection (delete_monitor w n s) =
      (if n \<in> set (dynamic_names s) then filter (\<lambda>c. wc_name c \<noteq> n) (ta_collection s) else ta_collection s)"
proof (cases "n \<in> set (dynamic_names s)")
  case True
  have "n \<in> set (coll_names s)" using True ok by (auto simp: monitors_ok_def)
  then obtain i where i: "iter_position (\<lambda>c. wc_name c = n) (ta_collection s) = Some i"
    using position_None [of "\<lambda>c. wc_name c = n" "ta_collection s"] unfolding coll_names_def by fastforce
  then show ?thesis
    using True map_vec_remove(2) [of wc_name "ta_collection s" n i] ok
    by (simp add: delete_monitor_def is_name_in_dynamic_iff Let_def monitors_ok_def coll_names_def
        wc_name_def [symmetric] split: prod.split)
qed (simp add: delete_monitor_def is_name_in_dynamic_iff)

lemma delete_monitor_dynamic:
  assumes ok: "monitors_ok s"
  shows "dyn_collection (ta_dynamic_config (delete_monitor w n s)) =
     filter (\<lambda>c. cc_name c \<noteq> n) (dyn_collection (ta_dynamic_config s))"
proof (cases "n \<in> set (dynamic_names s)")
  case True
  have "dyn_collection (fst (dyn_delete w n (ta_dynamic_config s) f)) =
      filter (\<lambda>c. cc_name c \<noteq> n) (dyn_collection (ta_dynamic_config s))" for f
    using ok by (intro dyn_delete_names) (simp add: monitors_ok_def dynamic_names_def)
  then show ?thesis using True
    by (simp add: delete_monitor_def is_name_in_dynamic_iff Let_def split_def split: option.split)
next
  case False
  then have "filter (\<lambda>c. cc_name c \<noteq> n) (dyn_collection (ta_dynamic_config s)) = dyn_collection (ta_dynamic_config s)"
    by (intro filter_True) (auto simp: dynamic_names_def)
  then show ?thesis using False by (simp add: delete_monitor_def is_name_in_dynamic_iff)
qed

lemma map_filter_names: "map f (filter (\<lambda>x. f x \<noteq> n) xs) = filter (\<lambda>k. k \<noteq> n) (map f xs)"
  by (simp add: filter_map comp_def)

lemma delete_monitor_names:
  assumes ok: "monitors_ok s"
  shows "coll_names (delete_monitor w n s) =
      (if n \<in> set (dynamic_names s) then filter (\<lambda>k. k \<noteq> n) (coll_names s) else coll_names s)"
    and "dynamic_names (delete_monitor w n s) = filter (\<lambda>k. k \<noteq> n) (dynamic_names s)"
  using delete_monitor_collections [OF ok, of w n]
  by (auto simp: coll_names_def dynamic_names_def delete_monitor_dynamic [OF ok] map_filter_names)

lemma other_events_names:
  assumes "\<And>w m. ev \<noteq> Add_Monitor w m" and "\<And>w n. ev \<noteq> Delete_Monitor w n"
  shows "coll_names (fst (ta_step L E ev (s, c))) = coll_names s"
    and "dynamic_names (fst (ta_step L E ev (s, c))) = dynamic_names s"
  using assms
  by (cases ev; simp add: coll_names_def dynamic_names_def standalone_fields del: ta_step.simps(2))+

lemma ta_step_monitors:
  assumes ok: "monitors_ok s"
  shows "monitors_ok (fst (ta_step L E ev (s, c))) \<and> static_names (fst (ta_step L E ev (s, c))) = static_names s"
proof -
  consider (add) w m wc where "ev = Add_Monitor w m" "cc_name m \<notin> set (coll_names s)"
      "wc_new L m (ta_network s) = Inr wc"
    | (skip) w m where "ev = Add_Monitor w m" "add_monitor L w m s = s"
    | (del) w n where "ev = Delete_Monitor w n"
    | (other) "\<And>w m. ev \<noteq> Add_Monitor w m" "\<And>w n. ev \<noteq> Delete_Monitor w n"
    using add_monitor_skip by metis
  then show ?thesis
  proof cases
    case add
    then show ?thesis
      using ok add_monitor_names [OF add(2,3), of w] unfolding monitors_ok_def static_names_def
      by (auto intro!: filter_cong)
  next
    case skip
    then show ?thesis using ok by simp
  next
    case del
    then show ?thesis
      using ok delete_monitor_names [OF ok, of w n] unfolding monitors_ok_def static_names_def
      by (auto intro!: filter_cong)
  next
    case other
    then show ?thesis
      using ok other_events_names [OF other, of L E s c] unfolding monitors_ok_def static_names_def by simp
  qed
qed

section \<open>Properties\<close>

definition sample_monitor :: collection_config where
  "sample_monitor = \<lparr>cc_name = ''m1'', cc_track_descendants = True, cc_address = None,
     cc_locking_script_pattern = Some ''76a9''\<rparr>"

lemma sample_ta_monitors: "monitors_ok sample_ta" "collections_distinct sample_ta"
  by (simp_all add: monitors_ok_def coll_names_def dynamic_names_def collections_distinct_def sample_ta_def)

text \<open>
  C28: The first collection that takes a transaction gets it, and only that one: where none
  before it has or takes the transaction, its hash is pushed there, the row is written under
  its name, and every other collection is as it was.
\<close>

theorem first_collection_takes:
  assumes cs: "ta_collection s = as @ c # bs"
    and before: "list_all (\<lambda>a. tx_hash L t \<notin> set (wc_txs a) \<and> \<not> takes t a) as"
    and new: "tx_hash L t \<notin> set (wc_txs c)" and c: "takes t c"
  shows "ta_collection (process_collection L E t br s) = as @ wc_push (tx_hash L t) c # bs \<and>
     ta_db (process_collection L E t br s) = write_tx_to_database L E (wc_name c) t (ta_db s)"
  using assms take_tx_takes [of L t as c E bs "ta_db s"] by (simp add: process_collection_def)

theorem first_collection_takes_witness:
  "map wc_txs (ta_collection (process_collection sample_lib log_env sample_tx True
     (add_monitor sample_lib True (sample_monitor\<lparr>cc_name := ''m2''\<rparr>)
       (sample_ta\<lparr>ta_collection := []\<rparr>)))) = [[5]]"
proof -
  define s where "s = add_monitor sample_lib True (sample_monitor\<lparr>cc_name := ''m2''\<rparr>) (sample_ta\<lparr>ta_collection := []\<rparr>)"
  obtain c where c: "ta_collection s = [] @ c # []" "takes sample_tx c" "wc_txs c = []"
    by (simp add: s_def add_monitor_def is_name_in_collection_def sample_ta_def wc_new_def sample_monitor_def
        sample_lib_def takes_def match_any_locking_script_def sample_tx_def fmt_02x_def hex_digit_def Let_def
        split: prod.split)
  from first_collection_takes [OF c(1) _ _ c(2), of sample_lib log_env True] c(3)
  show ?thesis unfolding s_def [symmetric] by (simp add: sample_tx_def)
qed



end
