(* ===== verification/Peer_Log.thy ===== *)
theory Peer_Log
  imports Db_Server Config
begin

text \<open>
  The two components that only record what peers do: the address manager
  (\<open>rust/src/uaas/address_manager.rs\<close>), which keeps the addresses peers announce, and the
  connection log (\<open>rust/src/uaas/connection.rs\<close>). Whether the statement can be prepared is
  an argument, and so are the text of the date and the result of the loading query.
\<close>

section \<open>Addresses\<close>

record node_addr =
  na_ip :: string
  na_services :: u64
  na_port :: "16 word"

record address_manager =
  addresses :: "string list"

definition am_new :: address_manager where
  "am_new = \<lparr>addresses = []\<rparr>"

definition am_read_table :: "string list option \<Rightarrow> address_manager \<Rightarrow> address_manager" where
  "am_read_table contents m =
     (case contents of None \<Rightarrow> m | Some cs \<Rightarrow> fold (\<lambda>c m. m\<lparr>addresses := addresses m @ [c]\<rparr>) cs m)"

fun insert_addresses ::
  "'db db_env \<Rightarrow> node_addr list \<Rightarrow> address_manager \<Rightarrow> 'db \<Rightarrow> address_manager \<times> 'db" where
  "insert_addresses E [] m db = (m, db)"
| "insert_addresses E (address # rest) m db =
     (if \<not> list_ex (\<lambda>x. x = na_ip address) (addresses m)
      then case retry_stmt E (InsertAddr (na_ip address) (na_services address) (na_port address)) db of
             (Inl _, db') \<Rightarrow> insert_addresses E rest m db'
           | (Inr _, db') \<Rightarrow> insert_addresses E rest (m\<lparr>addresses := addresses m @ [na_ip address]\<rparr>) db'
      else insert_addresses E rest m db)"

definition am_on_addr ::
  "'db db_env \<Rightarrow> bool \<Rightarrow> node_addr list \<Rightarrow> address_manager \<Rightarrow> 'db \<Rightarrow> address_manager \<times> 'db" where
  "am_on_addr E prepared addrs m db =
     (if addrs = [] then (m, db)
      else if \<not> prepared then (m, db)
      else insert_addresses E addrs m db)"

section \<open>Connections\<close>

definition insert_data :: "'db db_env \<Rightarrow> bool \<Rightarrow> string \<Rightarrow> string \<Rightarrow> string \<Rightarrow> 'db \<Rightarrow> 'db" where
  "insert_data E prepared date ip event db =
     (if \<not> prepared then db
      else case retry_stmt E (InsertConnect date ip event) db of
             (Inl _, db') \<Rightarrow> db'
           | (Inr _, db') \<Rightarrow> db')"

definition on_connect :: "'db db_env \<Rightarrow> bool \<Rightarrow> string \<Rightarrow> string \<Rightarrow> 'db \<Rightarrow> 'db" where
  "on_connect E prepared date ip db = insert_data E prepared date ip ''Connect'' db"

definition on_disconnect :: "'db db_env \<Rightarrow> bool \<Rightarrow> string \<Rightarrow> string \<Rightarrow> 'db \<Rightarrow> 'db" where
  "on_disconnect E prepared date ip db = insert_data E prepared date ip ''Disconnect'' db"

section \<open>Facts\<close>

text \<open>
  What is known only grows, by addresses of the message, and stays without repetitions.
\<close>

lemma insert_addresses_known:
  assumes "insert_addresses E addrs m db = (m', db')"
  shows "\<exists>new. addresses m' = addresses m @ new \<and> set new \<subseteq> na_ip ` set addrs \<and> distinct new \<and>
     set new \<inter> set (addresses m) = {}"
  using assms
proof (induction E addrs m db rule: insert_addresses.induct)
  case (1 E m db)
  then show ?case by simp
next
  case (2 E a rest m db)
  consider (known) "na_ip a \<in> set (addresses m)"
    | (failed) e d where "na_ip a \<notin> set (addresses m)"
        "retry_stmt E (InsertAddr (na_ip a) (na_services a) (na_port a)) db = (Inl e, d)"
    | (stored) u d where "na_ip a \<notin> set (addresses m)"
        "retry_stmt E (InsertAddr (na_ip a) (na_services a) (na_port a)) db = (Inr u, d)"
    by (metis sum.exhaust surj_pair)
  then show ?case
  proof cases
    case known
    then show ?thesis using 2 by (fastforce simp: list_ex_iff)
  next
    case failed
    then show ?thesis using 2 by (fastforce simp: list_ex_iff)
  next
    case stored
    let ?m = "m\<lparr>addresses := addresses m @ [na_ip a]\<rparr>"
    from stored 2 obtain new where "addresses m' = addresses ?m @ new" "set new \<subseteq> na_ip ` set rest"
      "distinct new" "set new \<inter> set (addresses ?m) = {}"
      by (fastforce simp: list_ex_iff)
    then show ?thesis using stored by (intro exI [of _ "na_ip a # new"]) auto
  qed
qed

lemma on_addr_distinct:
  "distinct (addresses m) \<Longrightarrow> distinct (addresses (fst (am_on_addr E p addrs m db)))"
  using insert_addresses_known [of E addrs m db]
  by (cases "insert_addresses E addrs m db") (force simp: am_on_addr_def)

end
