(* ===== verification/Logic.thy ===== *)
theory Logic
  imports Block_Chain Monitors Peer_Log
begin

text \<open>
  The business logic (\<open>rust/src/uaas/logic.rs\<close>): the state of the server, the detection of
  orphans, the inventory of blocks to ask for, and the messages for the peer, around the block
  manager, the transaction analyser and the address manager. The thread of the database
  writer is the theory \<open>Database\<close> at the other end of the channel \<open>ch\<close>.

  \<open>rnd\<close> is the compile-time feature \<open>rnd_orphans\<close>: \<open>None\<close> where it is off, and the
  outcome of its random choice where it is on. \<open>now\<close> is the system clock.
\<close>

datatype server_state_type = Starting | Disconnected | Connected | Ready

definition is_ready :: "server_state_type \<Rightarrow> bool" where
  "is_ready st = (st = Ready)"

definition inv_TX :: u32 where "inv_TX = 1"
definition inv_BLOCK :: u32 where "inv_BLOCK = 2"

record ('d, 'db) logic =
  lg_state :: server_state_type
  lg_sys :: "('d, 'db) bm_sys"
  lg_address_manager :: address_manager
  detecting_orphans :: bool
  start_block_timestamp :: "u32 option"
  send_message_queue :: "peer_msg list"
  block_inventory :: "inv_vect list list"

section \<open>Construction\<close>

definition lg_new ::
  "ext_lib \<Rightarrow> config \<Rightarrow> bool \<times> bool \<times> bool \<times> bool \<Rightarrow> bool \<times> bool \<times> bool \<times> bool \<Rightarrow> dyn_file \<Rightarrow> 'db \<Rightarrow> 'd \<Rightarrow>
   string + ('d, 'db) logic" where
  "lg_new L cf conns ta_conns file db disk =
     (let (block_ok, addr_ok, connection_ok, db_ok) = conns
      in case pool_conn block_ok ''block'' of Inl e \<Rightarrow> Inl e | Inr _ \<Rightarrow>
         (case pool_conn addr_ok ''address'' of Inl e \<Rightarrow> Inl e | Inr _ \<Rightarrow>
         (case pool_conn connection_ok ''connection'' of Inl e \<Rightarrow> Inl e | Inr _ \<Rightarrow>
         (case pool_conn db_ok ''database writer'' of Inl e \<Rightarrow> Inl e | Inr _ \<Rightarrow>
         (case ta_new L cf ta_conns file db of Inl e \<Rightarrow> Inl e | Inr tx_analyser \<Rightarrow>
         (case bm_new L cf disk of Inl e \<Rightarrow> Inl e | Inr block_manager \<Rightarrow>
            Inr \<lparr>lg_state = Starting,
                 lg_sys = \<lparr>bm = block_manager, ta = tx_analyser, ch = open_chan\<rparr>,
                 lg_address_manager = am_new,
                 detecting_orphans = oc_detect (cf_orphan cf),
                 start_block_timestamp = None,
                 send_message_queue = [],
                 block_inventory = []\<rparr>))))))"

text \<open>
  \<open>setup\<close>, on what the queries of the components return: the addresses, the rows for
  the analyser, and the headers or the block file for the block manager.
\<close>

record setup_rows =
  sr_addresses :: "string list option"
  sr_mempool :: "string list option"
  sr_txs :: "(string \<times> u32) list option"
  sr_utxo :: "utxo_entry_db list option"
  sr_collections :: "string \<Rightarrow> string list option"
  sr_headers :: "db_header list option"
  sr_opened :: "u64 option option"
  sr_blocks :: "(block \<times> u64 option) list"

definition lg_setup ::
  "ext_lib \<Rightarrow> 'db db_env \<Rightarrow> 'd file_env \<Rightarrow> setup_rows \<Rightarrow> ('d, 'db) logic \<Rightarrow> ('d, 'db) logic" where
  "lg_setup L E F rows lg =
     (let lg = lg\<lparr>lg_address_manager := am_read_table (sr_addresses rows) (lg_address_manager lg)\<rparr>;
          s = lg_sys lg;
          s = s\<lparr>ta := read_tables L (sr_mempool rows) (sr_txs rows) (sr_utxo rows) (sr_collections rows) (ta s)\<rparr>
      in lg\<lparr>lg_sys := bm_setup L E F (sr_headers rows) (sr_opened rows) (sr_blocks rows) s\<rparr>)"

section \<open>Asking for blocks\<close>

fun trim_front :: "inv_vect list list \<Rightarrow> inv_vect list list" where
  "trim_front [] = []"
| "trim_front (entries # rest) = (if entries = [] then trim_front rest else entries # rest)"

definition trim_empty_inventory_front :: "('d, 'db) logic \<Rightarrow> ('d, 'db) logic" where
  "trim_empty_inventory_front lg = lg\<lparr>block_inventory := trim_front (block_inventory lg)\<rparr>"

definition lg_get_last_known_block_hash :: "ext_lib \<Rightarrow> bool option \<Rightarrow> ('d, 'db) logic \<Rightarrow> string" where
  "lg_get_last_known_block_hash L rnd lg =
     (case rnd of
        None \<Rightarrow> bm_get_last_known_block_hash L (bm (lg_sys lg))
      | Some perc_chance \<Rightarrow>
          if perc_chance then bm_get_last_known_block_hash L (bm (lg_sys lg))
          else ''000000000003fc68ed563be8e3d8b5e6b211392ac266e4be5a416ec74fbe25aa'')"

definition push_message :: "peer_msg \<Rightarrow> ('d, 'db) logic \<Rightarrow> ('d, 'db) logic" where
  "push_message m lg = lg\<lparr>send_message_queue := send_message_queue lg @ [m]\<rparr>"

definition request_next_block ::
  "ext_lib \<Rightarrow> bool option \<Rightarrow> hash256 option \<Rightarrow> ('d, 'db) logic \<Rightarrow> ('d, 'db) logic" where
  "request_next_block L rnd hash lg =
     (let lg = (case hash of
                  Some h \<Rightarrow>
                    (case block_inventory lg of
                       entries # rest \<Rightarrow>
                         lg\<lparr>block_inventory := filter (\<lambda>b. iv_hash b \<noteq> h) entries # rest\<rparr>
                     | [] \<Rightarrow> lg)
                | None \<Rightarrow> lg);
          lg = trim_empty_inventory_front lg
      in if block_inventory lg = []
         then (case hash_decode L (lg_get_last_known_block_hash L rnd lg) of
                 Some h \<Rightarrow> push_message (MsgGetBlocks [h]) lg
               | None \<Rightarrow> lg)
         else (case hd (block_inventory lg) of
                 b # _ \<Rightarrow> push_message (MsgGetData [b]) lg
               | [] \<Rightarrow> trim_empty_inventory_front lg))"

definition set_state ::
  "ext_lib \<Rightarrow> bool option \<Rightarrow> server_state_type \<Rightarrow> ('d, 'db) logic \<Rightarrow> ('d, 'db) logic" where
  "set_state L rnd st lg =
     (let lg = (if st = Connected then request_next_block L rnd None lg else lg)
      in lg\<lparr>lg_state := st\<rparr>)"

definition message_to_send :: "('d, 'db) logic \<Rightarrow> peer_msg list \<times> ('d, 'db) logic" where
  "message_to_send lg = (send_message_queue lg, lg\<lparr>send_message_queue := []\<rparr>)"

definition lg_on_inv :: "ext_lib \<Rightarrow> bool option \<Rightarrow> inv_vect list \<Rightarrow> ('d, 'db) logic \<Rightarrow> ('d, 'db) logic" where
  "lg_on_inv L rnd objects lg =
     (let txs = filter (\<lambda>x. iv_obj_type x = inv_TX) objects;
          lg = (if txs \<noteq> [] then push_message (MsgGetData txs) lg else lg);
          blocks = filter (\<lambda>x. iv_obj_type x = inv_BLOCK) objects;
          is_empty = (block_inventory lg = []);
          lg = lg\<lparr>block_inventory := block_inventory lg @ [blocks]\<rparr>
      in if is_empty then request_next_block L rnd None lg else lg)"

section \<open>Receiving transactions and blocks\<close>

definition lg_on_tx ::
  "ext_lib \<Rightarrow> 'db db_env \<Rightarrow> u64 option \<Rightarrow> tx \<Rightarrow> bool \<Rightarrow> ('d, 'db) logic \<Rightarrow> ('d, 'db) logic" where
  "lg_on_tx L E now t is_uaas_broadcast_tx lg =
     (let s = lg_sys lg;
          (a, c) = process_standalone_tx L E now t is_uaas_broadcast_tx (ta s) (ch s);
          (a, c) = (if is_ready (lg_state lg)
                    then let (u, c) = utxo_update_db (ta_utxo a) c in (a\<lparr>ta_utxo := u\<rparr>, c)
                    else (a, c))
      in lg\<lparr>lg_sys := s\<lparr>ta := a, ch := c\<rparr>\<rparr>)"

definition lg_flush_database_cache :: "('d, 'db) logic \<Rightarrow> ('d, 'db) logic" where
  "lg_flush_database_cache lg =
     (if is_ready (lg_state lg)
      then let s = lg_sys lg; (a, c) = ta_flush_database_cache (ta s) (ch s)
           in lg\<lparr>lg_sys := s\<lparr>ta := a, ch := c\<rparr>\<rparr>
      else lg)"

definition lg_tx_exists :: "('d, 'db) logic \<Rightarrow> hash256 \<Rightarrow> bool" where
  "lg_tx_exists lg hash = ta_tx_exists (ta (lg_sys lg)) hash"

definition lg_on_addr ::
  "'db db_env \<Rightarrow> bool \<Rightarrow> node_addr list \<Rightarrow> ('d, 'db) logic \<Rightarrow> ('d, 'db) logic" where
  "lg_on_addr E prepared addrs lg =
     (let s = lg_sys lg; (m, db) = am_on_addr E prepared addrs (lg_address_manager lg) (ta_db (ta s))
      in lg\<lparr>lg_address_manager := m, lg_sys := s\<lparr>ta := (ta s)\<lparr>ta_db := db\<rparr>\<rparr>\<rparr>)"

definition is_orphan :: "u32 \<Rightarrow> ('d, 'db) logic \<Rightarrow> bool \<times> ('d, 'db) logic" where
  "is_orphan timestamp lg =
     (if detecting_orphans lg
      then case start_block_timestamp lg of
             Some start \<Rightarrow> (start > timestamp, lg)
           | None \<Rightarrow>
               (case get_start_block_timestamp (bm (lg_sys lg)) of
                  Some start \<Rightarrow> (start > timestamp, lg\<lparr>start_block_timestamp := Some start\<rparr>)
                | None \<Rightarrow> (False, lg))
      else (False, lg))"

definition lg_on_block ::
  "ext_lib \<Rightarrow> 'db db_env \<Rightarrow> 'd file_env \<Rightarrow> bool option \<Rightarrow> nat option \<Rightarrow> block \<Rightarrow> ('d, 'db) logic \<Rightarrow> ('d, 'db) logic" where
  "lg_on_block L E F rnd now b lg =
     (let (orphan, lg) = is_orphan (bh_timestamp (blk_header b)) lg;
          (block_hash, lg) =
            (if orphan
             then (None, lg\<lparr>block_inventory := [], lg_sys := bm_handle_orphan_block L (lg_sys lg)\<rparr>)
             else (Some (header_hash L (blk_header b)), lg\<lparr>lg_sys := bm_on_block L E F b (lg_sys lg)\<rparr>));
          lg = request_next_block L rnd block_hash lg
      in if \<not> is_ready (lg_state lg) \<and> has_chain_tip now (bm (lg_sys lg))
         then set_state L rnd Ready lg
         else lg)"

section \<open>Facts about the inventory\<close>

lemma trim_front_dropWhile: "trim_front ivs = dropWhile (\<lambda>es. es = []) ivs"
  by (induction ivs) simp_all

text \<open>The first entry of the inventory is never empty between two calls.\<close>

definition inventory_ok :: "inv_vect list list \<Rightarrow> bool" where
  "inventory_ok ivs \<longleftrightarrow> (case ivs of [] \<Rightarrow> True | entries # _ \<Rightarrow> entries \<noteq> [])"

lemma inventory_ok_trim [simp]: "inventory_ok (trim_front ivs)"
  by (induction ivs) (simp_all add: inventory_ok_def)

lemma trim_front_ok [simp]: "inventory_ok ivs \<Longrightarrow> trim_front ivs = ivs"
  by (cases ivs) (simp_all add: inventory_ok_def)

definition drop_received :: "hash256 option \<Rightarrow> inv_vect list list \<Rightarrow> inv_vect list list" where
  "drop_received hash ivs = trim_front
     (case hash of None \<Rightarrow> ivs
      | Some h \<Rightarrow> (case ivs of [] \<Rightarrow> [] | entries # rest \<Rightarrow> filter (\<lambda>b. iv_hash b \<noteq> h) entries # rest))"

definition next_request :: "ext_lib \<Rightarrow> string \<Rightarrow> inv_vect list list \<Rightarrow> peer_msg list" where
  "next_request L last_known ivs =
     (case ivs of
        [] \<Rightarrow> (case hash_decode L last_known of Some h \<Rightarrow> [MsgGetBlocks [h]] | None \<Rightarrow> [])
      | entries # _ \<Rightarrow> (case entries of b # _ \<Rightarrow> [MsgGetData [b]] | [] \<Rightarrow> []))"

text \<open>What a request amounts to; the last branch of the code, for an empty first entry, is never taken.\<close>

lemma request_next_block_eq:
  "request_next_block L rnd hash lg =
     (let ivs = drop_received hash (block_inventory lg)
      in lg\<lparr>block_inventory := ivs,
            send_message_queue := send_message_queue lg @ next_request L (lg_get_last_known_block_hash L rnd lg) ivs\<rparr>)"
proof -
  let ?ivs = "drop_received hash (block_inventory lg)"
  have last: "lg_get_last_known_block_hash L rnd (lg\<lparr>block_inventory := i\<rparr>) = lg_get_last_known_block_hash L rnd lg" for i
    by (simp add: lg_get_last_known_block_hash_def split: option.split)
  have ivs: "trim_empty_inventory_front (case hash of
        Some h \<Rightarrow> (case block_inventory lg of
            entries # rest \<Rightarrow> lg\<lparr>block_inventory := filter (\<lambda>b. iv_hash b \<noteq> h) entries # rest\<rparr> | [] \<Rightarrow> lg)
      | None \<Rightarrow> lg) = lg\<lparr>block_inventory := ?ivs\<rparr>"
    by (auto simp: trim_empty_inventory_front_def drop_received_def split: option.split list.split)
  have ok: "inventory_ok ?ivs" by (simp add: drop_received_def)
  show ?thesis
    using ok unfolding request_next_block_def ivs Let_def
    by (cases ?ivs) (auto simp: next_request_def last push_message_def inventory_ok_def split: option.split list.split)
qed

lemma drop_received_ok [simp]: "inventory_ok (drop_received hash ivs)"
  by (simp add: drop_received_def)

end
