(* ===== verification/Block_Guarantees.thy ===== *)
theory Block_Guarantees
  imports Block_Chain
begin

text \<open>
  The properties of the block manager: its independence of the order of arrival, what is written for a block, the restart from the database, and the
  handling of an orphan.
\<close>

section \<open>The chain\<close>

text \<open>
  C13: The order of arrival does not matter. When all blocks of a chain that builds on the last
  hash arrive, in any order and with any repetitions, all their headers are appended in chain
  order, the height has grown by their number, and nothing waits.
\<close>

theorem blocks_in_any_order:
  assumes new: "new_chain L (last_hash_processed (bm s)) bs"
    and fresh: "\<And>b. b \<in> set bs \<Longrightarrow> \<not> hm_contains (hash_to_index (bm s)) (header_hash L (blk_header b))"
    and empty: "block_queue (bm s) = []" and room: "unat (bm_height (bm s)) + length bs < 2 ^ 31"
    and all: "set arrivals = set bs"
  shows "let m = bm (fold (bm_on_block L E F) arrivals s) in
     block_headers m = block_headers (bm s) @ map blk_header bs \<and>
     unat (bm_height m) = unat (bm_height (bm s)) + length bs \<and>
     last_hash_processed m = last (last_hash_processed (bm s) # map (\<lambda>b. header_hash L (blk_header b)) bs) \<and>
     block_queue m = []"
proof -
  have "partly L (last_hash_processed (bm s)) bs (block_headers (bm s)) (unat (bm_height (bm s))) 0 {} (bm s)"
    using fresh empty by (intro partlyI) (simp_all add: chain_key_Suc queue_ok_def, simp add: chain_key_def)
  from on_block.recv_all [OF new room this all] show ?thesis
    by (simp add: Let_def chain_key_def last_conv_nth)
qed

theorem blocks_in_any_order_witness:
  "let m = bm (fold (bm_on_block sample_lib log_env sample_file)
     [sample_block 6 7, sample_block 1 5, sample_block 6 7, sample_block 5 6] sample_sys) in
   block_headers m = map blk_header [sample_block 1 5, sample_block 5 6, sample_block 6 7] \<and>
   unat (bm_height m) = 4"
  using blocks_in_any_order [of sample_lib sample_sys "[sample_block 1 5, sample_block 5 6, sample_block 6 7]"
      "[sample_block 6 7, sample_block 1 5, sample_block 6 7, sample_block 5 6]" log_env sample_file]
  by (simp add: Let_def new_chain_def sample_sys_def sample_bm_def sample_block_def sample_header_def insert_commute)

section \<open>Restart\<close>

text \<open>
  A manager that loads the rows written for a linked chain has that chain again: the same
  headers in the same order, the heights they were written with, and the invariant, so that
  new blocks continue the chain.
\<close>

lemma stored_chain:
  assumes L: "hash_codec_ok L" and linked: "linked L base hs" and hs: "hs \<noteq> []"
    and h31: "h0 + length hs < 2 ^ 31"
    and new: "block_headers (bm s) = []" "hash_to_index (bm s) = []" "block_queue (bm s) = []"
    and db: "startup_load_from_database (bm s)"
    and rows: "rows = map (stored_header L) (enumerate h0 hs)"
  shows "let m = bm (bm_setup L E F (Some rows) opened bs s) in
     block_headers m = hs \<and> hm_get (hash_to_index m) = heights L h0 hs \<and> chain_inv L base h0 m"
proof -
  define m where "m = fold (load_blockheader L) rows (bm s)"
  have load: "load_blockheaders_from_database L (Some rows) (bm s) = m"
    by (simp add: load_blockheaders_from_database_def m_def)
  note facts = load_stored_headers [OF L h31 new(1,2), of m, unfolded rows [symmetric], OF m_def]
  have "bm (bm_setup L E F (Some rows) opened bs s) = m\<lparr>last_hash_processed := tip L base hs\<rparr>"
    using db hs facts(1) by (simp add: bm_setup_def load Let_def tip_def)
  then show ?thesis
    using facts linked hs new(3) by (simp add: Let_def chain_inv_def queue_ok_def)
qed

section \<open>Orphans\<close>

lemma bm_handle_orphan_block_bm:
  assumes "block_headers (bm s) = hs @ [x]"
  shows "bm (bm_handle_orphan_block L s) = (bm s)\<lparr>block_queue := [], block_headers := hs,
     hash_to_index := hm_remove (header_hash L x) (hash_to_index (bm s)), bm_height := bm_height (bm s) - 1\<rparr>"
  using assms
  by (cases "block_queue (bm s)") (simp_all add: bm_handle_orphan_block_def Let_def split: prod.split)

text \<open>
  C15: After an orphan the manager still expects blocks on the block it removed. A block that
  builds on the new tip is not appended but waits under the hash of the tip; a block that
  builds on the removed orphan is appended to the chain.
\<close>

theorem orphan_leaves_stale_tip:
  assumes inv: "chain_inv L base h0 (bm s)" and hs: "block_headers (bm s) = hs @ [x]"
    and differ: "header_hash L x \<noteq> tip L base hs"
    and fresh: "header_hash L (blk_header b) \<notin> header_hash L ` set (hs @ [x])"
    and h31: "unat (bm_height (bm s)) < 2 ^ 31"
  shows "let s' = bm_handle_orphan_block L s in
     block_headers (bm s') = hs \<and> last_hash_processed (bm s') = header_hash L x \<and>
     (bh_prev_hash (blk_header b) = tip L base hs \<longrightarrow>
        block_headers (bm (bm_on_block L E F b s')) = hs \<and>
        hm_contains (block_queue (bm (bm_on_block L E F b s'))) (tip L base hs)) \<and>
     (bh_prev_hash (blk_header b) = header_hash L x \<longrightarrow>
        block_headers (bm (bm_on_block L E F b s')) = hs @ [blk_header b])"
proof -
  let ?s = "bm_handle_orphan_block L s"
  note m = bm_handle_orphan_block_bm [OF hs, of L]
  have last: "last_hash_processed (bm s) = header_hash L x" using inv hs by (simp add: chain_inv_def)
  have "hm_get (hash_to_index (bm s)) (header_hash L (blk_header b)) = None"
    using inv fresh hs by (simp add: chain_inv_def heights_None)
  then have new: "\<not> hm_contains (hash_to_index (bm ?s)) (header_hash L (blk_header b))"
    unfolding m by (simp add: hm_contains_def hm_get_remove)
  have early: "block_headers (bm (bm_on_block L E F b ?s)) = hs \<and>
      hm_contains (block_queue (bm (bm_on_block L E F b ?s))) (tip L base hs)"
    if prev: "bh_prev_hash (blk_header b) = tip L base hs"
  proof -
    obtain pos where "bm_on_block L E F b ?s = ?s\<lparr>bm := enqueue_block pos b (bm ?s)\<rparr>"
      using on_block.early [OF new] differ last prev unfolding m by auto
    then show ?thesis unfolding m by (simp add: prev hm_contains_def enqueue_block_get)
  qed
  have child: "block_headers (bm (bm_on_block L E F b ?s)) = hs @ [blk_header b]"
    if prev: "bh_prev_hash (blk_header b) = header_hash L x"
  proof -
    have pos: "0 < unat (bm_height (bm s))" using inv hs by (simp add: chain_inv_def)
    then have "unat (bm_height (bm ?s)) < 2 ^ 31"
      using h31 unfolding m by (simp add: unat_sub word_le_nat_alt)
    from on_block.in_order [OF new _ this, where E = E and F = F] obtain m' s' where
      s': "same_chain (bm ?s) m'" "bm s' = append_header L (blk_header b) m'"
      "bm_on_block L E F b ?s = process_block_queue L E F s'"
      using last prev unfolding m by auto
    have "block_queue (bm s') = []" "block_headers (bm s') = hs @ [blk_header b]"
      using same_chain_sel [OF s'(1)] unfolding s'(2) by (simp_all add: m)
    then show ?thesis unfolding s'(3) by (subst process_block_queue.simps) simp
  qed
  show ?thesis using m last early child by (simp add: Let_def)
qed

definition sample_two :: "(unit, sql_stmt list) bm_sys" where
  "sample_two = sample_sys\<lparr>bm := append_header sample_lib (sample_header 5 1000 6)
     (append_header sample_lib (sample_header 1 1000 5) sample_bm)\<rparr>"

lemma sample_two_inv: "chain_inv sample_lib 1 1 (bm sample_two)"
  by (simp add: chain_inv_def sample_two_def sample_sys_def sample_bm_def tip_def heights_def queue_ok_def
      sample_header_def append_header_def hm_get_def fun_eq_iff)

theorem orphan_leaves_stale_tip_witness:
  "block_headers (bm (bm_on_block sample_lib log_env sample_file (sample_block 5 7)
     (bm_handle_orphan_block sample_lib sample_two))) = [sample_header 1 1000 5]"
  using orphan_leaves_stale_tip [OF sample_two_inv, of "[sample_header 1 1000 5]" "sample_header 5 1000 6"
      "sample_block 5 7" log_env sample_file]
  by (simp add: Let_def sample_two_def sample_sys_def sample_bm_def sample_header_def sample_block_def
      append_header_def tip_def)



end
