(* ===== verification/Logic_Guarantees.thy ===== *)
theory Logic_Guarantees
  imports Logic Block_Guarantees "HOL-Library.Sublist"
begin

text \<open>
  The logic as a machine over the calls the peer manager makes into it, its invariant (the
  outputs in memory and the operations sent agree, the first entry of the inventory is not
  empty), and its properties: the order in which blocks are asked for,
  the ready state, and the detection of orphans.
\<close>

section \<open>What the block manager keeps\<close>

text \<open>
  The block manager and the logic touch the analyser and the channel to the writer in three
  ways only: by the calls into the analyser, by operations on headers, and through the database
  connection. What these keep, if the blocks they are given are good, the block manager, the logic
  and the peer manager keep, if only good blocks arrive: a block waits in the queue before it is
  given to the analyser.
\<close>

fun header_op :: "db_operation_type \<Rightarrow> bool" where
  "header_op (BlockHeaderWrite _) = True"
| "header_op (OrphanBlockHeaderWrite _) = True"
| "header_op (BlockHeaderDelete _) = True"
| "header_op _ = False"

locale guarded_channel =
  fixes L :: ext_lib
    and E :: "'db db_env"
    and G :: "block \<Rightarrow> bool"
    and P :: "'db tx_analyser \<times> db_chan \<Rightarrow> bool"
  assumes guarded_step: "P sc \<Longrightarrow> (\<And>b h. ev = Block_In b h \<Longrightarrow> G b) \<Longrightarrow> P (ta_step L E ev sc)"
    and header_kept: "P (a, c) \<Longrightarrow> header_op oper \<Longrightarrow> P (a, chan_sends [oper] c)"
    and connection_kept: "P (a, c) \<Longrightarrow> P (a\<lparr>ta_db := db\<rparr>, c)"
begin

definition guarded_sys :: "('d, 'db) bm_sys \<Rightarrow> bool" where
  "guarded_sys s \<longleftrightarrow> P (ta s, ch s) \<and> list_all (\<lambda>(_, e). G (bp_block e)) (block_queue (bm s))"

lemma orphan_height_kept: "P (a, c) \<Longrightarrow> P (ta_handle_orphan_block h a c)"
  using guarded_step [of "(a, c)" "Orphan_Height h"] by simp

lemma write_blockheader_kept:
  "P (a, c) \<Longrightarrow> P (a, write_blockheader_to_database L h p bs n m c)"
  by (simp add: write_blockheader_to_database_def header_kept)

lemma bm_process_block_kept:
  assumes "guarded_sys s" and "G b"
  shows "guarded_sys (bm_process_block L E b s)"
proof -
  have "P (ta_process_block L E b h (ta s) (ch s))" for h
    using assms guarded_step [of "(ta s, ch s)" "Block_In b h"] by (simp add: guarded_sys_def)
  then show ?thesis
    using assms unfolding guarded_sys_def bm_process_block_queue
    by (auto simp: bm_process_block_def Let_def split: option.split prod.split) metis
qed

lemma header_written_kept:
  assumes "guarded_sys s" and "block_queue m = block_queue (bm s)"
  shows "guarded_sys (s\<lparr>bm := m, ch := write_blockheader_to_database L h p bs n m' (ch s)\<rparr>)"
  using assms by (simp add: guarded_sys_def write_blockheader_kept)

lemma process_queued_kept: "guarded_sys s \<Longrightarrow> G (bp_block e) \<Longrightarrow> guarded_sys (process_queued L E F e s)"
  using header_written_kept [of s "bm s"] unfolding process_queued_def Let_def
  by (auto split: prod.split option.split dest: write_block_to_file_frame
      intro!: bm_process_block_kept header_written_kept)

lemma process_block_queue_kept: "guarded_sys s \<Longrightarrow> guarded_sys (process_block_queue L E F s)"
proof (induction "length (block_queue (bm s))" arbitrary: s rule: less_induct)
  case less
  show ?case
  proof (cases "hm_get (block_queue (bm s)) (last_hash_processed (bm s))")
    case None
    then show ?thesis using less.prems by (simp add: process_block_queue.simps [of L E F s])
  next
    case (Some e)
    let ?m = "(bm s)\<lparr>block_queue := hm_remove (last_hash_processed (bm s)) (block_queue (bm s))\<rparr>"
    have "G (bp_block e)"
      using less.prems Some map_of_SomeD [OF Some [unfolded hm_get_def]] by (auto simp: guarded_sys_def list_all_iff)
    then have "guarded_sys (process_queued L E F e (s\<lparr>bm := ?m\<rparr>))"
      using less.prems by (intro process_queued_kept) (simp_all add: guarded_sys_def list_all_hm_remove)
    then show ?thesis
      using less.hyps [of "process_queued L E F e (s\<lparr>bm := ?m\<rparr>)"] Some length_hm_remove [OF Some]
      by (simp add: process_block_queue.simps [of L E F s])
  qed
qed

lemma enqueue_block_kept: "guarded_sys s \<Longrightarrow> G b \<Longrightarrow> guarded_sys (s\<lparr>bm := enqueue_block pos b (bm s)\<rparr>)"
  by (simp add: guarded_sys_def enqueue_block_def Let_def list_all_hm_insert)

lemma bm_on_block_kept: "guarded_sys s \<Longrightarrow> G b \<Longrightarrow> guarded_sys (bm_on_block L E F b s)"
  unfolding bm_on_block_def Let_def
  by (auto split: prod.split dest: write_block_to_file_frame
      intro!: process_block_queue_kept bm_process_block_kept header_written_kept enqueue_block_kept)

lemma bm_handle_orphan_block_kept:
  assumes s: "guarded_sys s"
  shows "guarded_sys (bm_handle_orphan_block L s)"
proof (cases "block_headers (bm s)" rule: rev_cases)
  case Nil
  then show ?thesis using s by (simp add: bm_handle_orphan_block_def guarded_sys_def)
next
  case (snoc hs x)
  have "P (ta s, chan_sends [BlockHeaderDelete k] (chan_sends [OrphanBlockHeaderWrite r] (ch s)))" for r k
    using s by (intro header_kept) (simp_all add: guarded_sys_def)
  from orphan_height_kept [OF this] show ?thesis
    using snoc s by (simp add: bm_handle_orphan_block_def Let_def guarded_sys_def write_orphan_to_database_def
        delete_blockheader_from_database_def split_def)
qed

lemma process_read_block_kept: "guarded_sys s \<Longrightarrow> G b \<Longrightarrow> guarded_sys (process_read_block L E F b pos s)"
  using header_written_kept [of s "bm s"] unfolding process_read_block_def Let_def
  by (auto intro!: process_block_queue_kept bm_process_block_kept enqueue_block_kept)

lemma read_blocks_kept: "guarded_sys s \<Longrightarrow> list_all (\<lambda>(b, _). G b) bs \<Longrightarrow> guarded_sys (read_blocks L E F pos bs s)"
proof (induction bs arbitrary: pos s)
  case (Cons x bs)
  then show ?case by (cases x) (simp add: process_read_block_kept Let_def)
qed simp

lemma loaded_queue: "block_queue (load_blockheaders_from_database L rows m) = block_queue m"
proof -
  have "block_queue (fold (load_blockheader L) hs m) = block_queue m" for hs
    by (induction hs arbitrary: m) (simp_all add: load_blockheader_def Let_def split: option.split)
  then show ?thesis by (simp add: load_blockheaders_from_database_def split: option.split)
qed

lemma bm_setup_kept:
  "guarded_sys s \<Longrightarrow> list_all (\<lambda>(b, _). G b) bs \<Longrightarrow> guarded_sys (bm_setup L E F rows opened bs s)"
  using read_blocks_kept
  by (auto simp: bm_setup_def read_blocks_from_file_def Let_def guarded_sys_def loaded_queue split: option.split)

end

text \<open>The case in which every block is as good as any other.\<close>

locale channel_kept =
  fixes L :: ext_lib
    and E :: "'db db_env"
    and P :: "'db tx_analyser \<times> db_chan \<Rightarrow> bool"
  assumes ta_step_kept: "P sc \<Longrightarrow> P (ta_step L E ev sc)"
    and header_kept: "P (a, c) \<Longrightarrow> header_op oper \<Longrightarrow> P (a, chan_sends [oper] c)"
    and connection_kept: "P (a, c) \<Longrightarrow> P (a\<lparr>ta_db := db\<rparr>, c)"

sublocale channel_kept < any_block: guarded_channel L E "\<lambda>_. True" P
  by unfold_locales (rule ta_step_kept header_kept connection_kept; assumption)+

context channel_kept
begin

definition sys_kept :: "('d, 'db) bm_sys \<Rightarrow> bool" where
  "sys_kept s \<longleftrightarrow> P (ta s, ch s)"

lemma any_block_sys [simp]: "any_block.guarded_sys s = sys_kept s"
  by (simp add: any_block.guarded_sys_def sys_kept_def list_all_iff)

lemma bm_setup_kept: "sys_kept s \<Longrightarrow> sys_kept (bm_setup L E F rows opened bs s)"
  using any_block.bm_setup_kept [of s bs F rows opened] by (simp add: list_all_iff)

end

section \<open>The machine\<close>

datatype lg_event =
    Set_State server_state_type
  | On_Tx "u64 option" tx bool
  | On_Block "nat option" block
  | On_Inv "inv_vect list"
  | On_Addr bool "node_addr list"
  | Flush
  | Take_Messages
  | Monitor_Added bool collection_config
  | Monitor_Deleted bool string

definition lg_monitor :: "('db tx_analyser \<Rightarrow> 'db tx_analyser) \<Rightarrow> ('d, 'db) logic \<Rightarrow> ('d, 'db) logic" where
  "lg_monitor f lg = lg\<lparr>lg_sys := (lg_sys lg)\<lparr>ta := f (ta (lg_sys lg))\<rparr>\<rparr>"

fun lg_step ::
  "ext_lib \<Rightarrow> 'db db_env \<Rightarrow> 'd file_env \<Rightarrow> bool option \<Rightarrow> lg_event \<Rightarrow> ('d, 'db) logic \<Rightarrow> ('d, 'db) logic" where
  "lg_step L E F rnd (Set_State st) lg = set_state L rnd st lg"
| "lg_step L E F rnd (On_Tx now t br) lg = lg_on_tx L E now t br lg"
| "lg_step L E F rnd (On_Block now b) lg = lg_on_block L E F rnd now b lg"
| "lg_step L E F rnd (On_Inv objects) lg = lg_on_inv L rnd objects lg"
| "lg_step L E F rnd (On_Addr prepared addrs) lg = lg_on_addr E prepared addrs lg"
| "lg_step L E F rnd Flush lg = lg_flush_database_cache lg"
| "lg_step L E F rnd Take_Messages lg = snd (message_to_send lg)"
| "lg_step L E F rnd (Monitor_Added w m) lg = lg_monitor (add_monitor L w m) lg"
| "lg_step L E F rnd (Monitor_Deleted w n) lg = lg_monitor (delete_monitor w n) lg"

definition sys_synced :: "ext_lib \<Rightarrow> utxo_table \<Rightarrow> ('d, 'db) bm_sys \<Rightarrow> bool" where
  "sys_synced L t0 s \<longleftrightarrow> ta_synced L t0 (ta s, ch s)"

definition lg_inv :: "ext_lib \<Rightarrow> utxo_table \<Rightarrow> ('d, 'db) logic \<Rightarrow> bool" where
  "lg_inv L t0 lg \<longleftrightarrow> sys_synced L t0 (lg_sys lg) \<and> inventory_ok (block_inventory lg)"

lemma request_sel [simp]:
  "lg_sys (request_next_block L rnd h lg) = lg_sys lg"
  "lg_state (request_next_block L rnd h lg) = lg_state lg"
  "detecting_orphans (request_next_block L rnd h lg) = detecting_orphans lg"
  "start_block_timestamp (request_next_block L rnd h lg) = start_block_timestamp lg"
  "block_inventory (request_next_block L rnd h lg) = drop_received h (block_inventory lg)"
  "send_message_queue (request_next_block L rnd h lg) = send_message_queue lg @
     next_request L (lg_get_last_known_block_hash L rnd lg) (drop_received h (block_inventory lg))"
  by (simp_all add: request_next_block_eq Let_def)

lemma set_state_sel [simp]:
  "lg_sys (set_state L rnd st lg) = lg_sys lg"
  "lg_state (set_state L rnd st lg) = st"
  "detecting_orphans (set_state L rnd st lg) = detecting_orphans lg"
  "block_inventory (set_state L rnd Ready lg) = block_inventory lg"
  "send_message_queue (set_state L rnd Ready lg) = send_message_queue lg"
  by (simp_all add: set_state_def Let_def)

lemma inventory_ok_append: "inventory_ok ivs \<Longrightarrow> ivs \<noteq> [] \<Longrightarrow> inventory_ok (ivs @ more_ivs)"
  by (cases ivs) (simp_all add: inventory_ok_def)

lemma is_orphan_sel [simp]:
  "lg_sys (snd (is_orphan ts lg)) = lg_sys lg" "lg_state (snd (is_orphan ts lg)) = lg_state lg"
  "block_inventory (snd (is_orphan ts lg)) = block_inventory lg"
  "send_message_queue (snd (is_orphan ts lg)) = send_message_queue lg"
  "detecting_orphans (snd (is_orphan ts lg)) = detecting_orphans lg"
  by (simp_all add: is_orphan_def split: option.split)

text \<open>\<open>on_block\<close>, field by field.\<close>

lemma lg_on_block_sel:
  fixes lg :: "('d, 'db) logic" and L E F rnd now b
  defines "orphan \<equiv> fst (is_orphan (bh_timestamp (blk_header b)) lg)"
    and "lg' \<equiv> lg_on_block L E F rnd now b lg"
  shows "lg_sys lg' = (if orphan then bm_handle_orphan_block L (lg_sys lg) else bm_on_block L E F b (lg_sys lg))"
    and "block_inventory lg' = (if orphan then [] else drop_received (Some (header_hash L (blk_header b))) (block_inventory lg))"
    and "send_message_queue lg' = send_message_queue lg @
      next_request L (lg_get_last_known_block_hash L rnd lg') (block_inventory lg')"
    and "detecting_orphans lg' = detecting_orphans lg"
    and "lg_state lg' = (if lg_state lg \<noteq> Ready \<and> has_chain_tip now (bm (lg_sys lg')) then Ready else lg_state lg)"
proof -
  have last: "lg_sys g = lg_sys g' \<Longrightarrow> lg_get_last_known_block_hash L rnd g = lg_get_last_known_block_hash L rnd g'"
    for g g' :: "('d, 'db) logic" by (simp add: lg_get_last_known_block_hash_def split: option.split)
  note defs = lg'_def orphan_def lg_on_block_def Let_def split_def is_ready_def drop_received_def
  show "lg_sys lg' = (if orphan then bm_handle_orphan_block L (lg_sys lg) else bm_on_block L E F b (lg_sys lg))"
    and "block_inventory lg' = (if orphan then [] else drop_received (Some (header_hash L (blk_header b))) (block_inventory lg))"
    and "detecting_orphans lg' = detecting_orphans lg"
    and "lg_state lg' = (if lg_state lg \<noteq> Ready \<and> has_chain_tip now (bm (lg_sys lg')) then Ready else lg_state lg)"
    by (simp_all add: defs)
  show "send_message_queue lg' = send_message_queue lg @
      next_request L (lg_get_last_known_block_hash L rnd lg') (block_inventory lg')"
    by (auto simp: defs intro!: arg_cong2 [of _ _ _ _ "next_request L"] last)
qed

lemma lg_on_tx_eq:
  "lg_on_tx L E now t br lg =
     (let r = process_standalone_tx L E now t br (ta (lg_sys lg)) (ch (lg_sys lg));
          r = (if is_ready (lg_state lg) then ta_step L E Update_Utxo r else r)
      in lg\<lparr>lg_sys := (lg_sys lg)\<lparr>ta := fst r, ch := snd r\<rparr>\<rparr>)"
  by (cases "process_standalone_tx L E now t br (ta (lg_sys lg)) (ch (lg_sys lg))")
    (simp add: lg_on_tx_def Let_def split_def)

context guarded_channel
begin

lemma lg_on_block_kept: "guarded_sys (lg_sys lg) \<Longrightarrow> G b \<Longrightarrow> guarded_sys (lg_sys (lg_on_block L E F rnd now b lg))"
  by (simp add: lg_on_block_sel bm_on_block_kept bm_handle_orphan_block_kept)

lemma analyser_kept:
  assumes "guarded_sys s" and "\<And>b h. ev \<noteq> Block_In b h"
  shows "guarded_sys (s\<lparr>ta := fst (ta_step L E ev (ta s, ch s)), ch := snd (ta_step L E ev (ta s, ch s))\<rparr>)"
  using assms guarded_step [of "(ta s, ch s)" ev] by (simp add: guarded_sys_def)

lemma lg_on_tx_kept:
  assumes "guarded_sys (lg_sys lg)"
  shows "guarded_sys (lg_sys (lg_on_tx L E now t br lg))"
  using analyser_kept [OF assms, of "Standalone now t br"]
    analyser_kept [OF analyser_kept [OF assms, of "Standalone now t br"], of Update_Utxo]
  by (simp add: lg_on_tx_eq Let_def)

lemma lg_flush_kept: "guarded_sys (lg_sys lg) \<Longrightarrow> guarded_sys (lg_sys (lg_flush_database_cache lg))"
  using analyser_kept [of "lg_sys lg" Flush_Cache] by (simp add: lg_flush_database_cache_def Let_def split_def)

lemma lg_monitor_kept:
  assumes "guarded_sys (lg_sys lg)"
  shows "guarded_sys (lg_sys (lg_monitor (add_monitor L w mon) lg))"
    and "guarded_sys (lg_sys (lg_monitor (delete_monitor w name) lg))"
  using analyser_kept [OF assms, of "Add_Monitor w mon"] analyser_kept [OF assms, of "Delete_Monitor w name"]
  by (simp_all add: lg_monitor_def guarded_sys_def)

lemma lg_step_kept:
  assumes "guarded_sys (lg_sys lg)" and "\<And>now b. ev = On_Block now b \<Longrightarrow> G b"
  shows "guarded_sys (lg_sys (lg_step L E F rnd ev lg))"
proof (cases ev)
  case (On_Inv objects)
  then show ?thesis using assms by (simp add: lg_on_inv_def Let_def push_message_def)
next
  case (On_Addr prepared addrs)
  then show ?thesis using assms by (simp add: lg_on_addr_def Let_def split_def guarded_sys_def connection_kept)
next
  case Take_Messages
  then show ?thesis using assms by (simp add: message_to_send_def)
qed (use assms in \<open>simp_all add: lg_on_block_kept lg_on_tx_kept lg_flush_kept lg_monitor_kept\<close>)

end

context channel_kept
begin

lemma lg_step_kept: "sys_kept (lg_sys lg) \<Longrightarrow> sys_kept (lg_sys (lg_step L E F rnd ev lg))"
  using any_block.lg_step_kept [of lg ev F rnd] by simp

end

text \<open>Two things are kept: the outputs in step with what was sent, and what was sent itself.\<close>

interpretation synced: channel_kept L E "\<lambda>sc. hash_codec_ok L \<longrightarrow> ta_synced L t0 sc" for t0
proof unfold_locales
  fix a :: "'a tx_analyser" and c :: db_chan and oper
  assume "hash_codec_ok L \<longrightarrow> ta_synced L t0 (a, c)" and "header_op oper"
  then show "hash_codec_ok L \<longrightarrow> ta_synced L t0 (a, chan_sends [oper] c)"
    by (cases oper) (simp_all add: ta_synced_def)
qed (simp_all add: ta_step_synced, simp_all add: ta_synced_def)

interpretation logged: channel_kept L E "\<lambda>sc. prefix ops (sent (snd sc))" for ops
proof unfold_locales
  fix sc :: "'a tx_analyser \<times> db_chan" and ev
  assume "prefix ops (sent (snd sc))"
  then show "prefix ops (sent (snd (ta_step L E ev sc)))"
    using ta_log.step_extends [of L E ev sc] by (auto simp: prefix_def)
qed (auto simp: sent_chan_sends prefix_def)

lemma imp_True_iff: "A \<Longrightarrow> (A \<longrightarrow> B) \<longleftrightarrow> B"
  by simp

lemma sys_synced_kept: "hash_codec_ok L \<Longrightarrow> synced.sys_kept L t0 s \<longleftrightarrow> sys_synced L t0 s"
  unfolding synced.sys_kept_def sys_synced_def by (rule imp_True_iff)

lemma lg_step_inventory:
  "inventory_ok (block_inventory lg) \<Longrightarrow> inventory_ok (block_inventory (lg_step L E F rnd ev lg))"
proof (cases ev)
  case (Set_State st)
  then show "inventory_ok (block_inventory lg) \<Longrightarrow> ?thesis" by (simp add: set_state_def Let_def)
next
  case (On_Block now b)
  then show ?thesis by (simp add: lg_on_block_sel inventory_ok_def [of "[]"])
next
  case (On_Inv objects)
  then show "inventory_ok (block_inventory lg) \<Longrightarrow> ?thesis"
    using inventory_ok_append [of "block_inventory lg"] by (auto simp: lg_on_inv_def Let_def push_message_def)
qed (simp_all add: lg_on_tx_eq lg_on_addr_def lg_flush_database_cache_def message_to_send_def lg_monitor_def Let_def split_def)

lemma lg_step_inv:
  assumes "hash_codec_ok L" and "lg_inv L t0 lg"
  shows "lg_inv L t0 (lg_step L E F rnd ev lg)"
  using assms synced.lg_step_kept [of L t0 lg E F rnd ev, unfolded sys_synced_kept [OF assms(1)]]
  by (simp add: lg_inv_def lg_step_inventory)

section \<open>Properties\<close>

definition sample_lg :: "(unit, sql_stmt list) logic" where
  "sample_lg = \<lparr>lg_state = Ready, lg_sys = sample_sys, lg_address_manager = am_new,
     detecting_orphans = True, start_block_timestamp = None, send_message_queue = [], block_inventory = []\<rparr>"

lemma lg_flush_eq:
  "lg_flush_database_cache lg =
     (if lg_state lg = Ready
      then lg\<lparr>lg_sys := (lg_sys lg)\<lparr>
        ta := fst (ta_flush_database_cache (ta (lg_sys lg)) (ch (lg_sys lg))),
        ch := snd (ta_flush_database_cache (ta (lg_sys lg)) (ch (lg_sys lg)))\<rparr>\<rparr>
      else lg)"
  by (simp add: lg_flush_database_cache_def is_ready_def Let_def split_def)

section \<open>Starting\<close>

text \<open>The logic as it is constructed and set up over a table whose rows have been read.\<close>

lemma lg_setup_inv:
  assumes L: "hash_codec_ok L" and rows: "rows_ok L rows" "sr_utxo srows = Some rows"
    and new: "lg_new L cf conns ta_conns file db disk = Inr lg"
  shows "lg_inv L (table_of rows) (lg_setup L E F srows lg)"
proof -
  have lg: "ta_utxo (ta (lg_sys lg)) = utxo_new \<and> ch (lg_sys lg) = open_chan \<and> block_inventory lg = []"
    using new by (auto simp: lg_new_def ta_new_def bm_new_def Let_def split: prod.splits sum.splits option.splits if_splits)
  let ?s = "(lg_sys lg)\<lparr>ta := read_tables L (sr_mempool srows) (sr_txs srows) (sr_utxo srows) (sr_collections srows) (ta (lg_sys lg))\<rparr>"
  have "sys_synced L (table_of rows) ?s"
    using load_utxo_ok [OF L rows(1)] lg by (simp add: sys_synced_def ta_synced_def read_tables_def Let_def rows(2))
  then have "sys_synced L (table_of rows) (bm_setup L E F (sr_headers srows) (sr_opened srows) (sr_blocks srows) ?s)"
    using synced.bm_setup_kept by (simp only: sys_synced_kept [OF L, symmetric])
  then show ?thesis
    using lg by (simp add: lg_inv_def lg_setup_def Let_def inventory_ok_def)
qed

text \<open>The starting hash never changes, so a hash to ask from is always there.\<close>

lemma start_block_hash_process [simp]:
  "start_block_hash (bm (bm_process_block L E b s)) = start_block_hash (bm s)"
  by (simp add: bm_process_block_def Let_def split: option.split prod.split)

lemma start_block_hash_queued [simp]:
  "start_block_hash (bm (process_queued L E F e s)) = start_block_hash (bm s)"
  by (auto simp: process_queued_def Let_def dest: write_block_to_file_frame split: option.split prod.split)

lemma start_block_hash_queue [simp]:
  "start_block_hash (bm (process_block_queue L E F s)) = start_block_hash (bm s)"
proof (induction "length (block_queue (bm s))" arbitrary: s rule: less_induct)
  case less
  show ?case
  proof (cases "hm_get (block_queue (bm s)) (last_hash_processed (bm s))")
    case None
    then show ?thesis by (simp add: process_block_queue.simps [of L E F s])
  next
    case (Some e)
    let ?m = "(bm s)\<lparr>block_queue := hm_remove (last_hash_processed (bm s)) (block_queue (bm s))\<rparr>"
    show ?thesis
      using less.hyps [of "process_queued L E F e (s\<lparr>bm := ?m\<rparr>)"] Some length_hm_remove [OF Some]
      by (simp add: process_block_queue.simps [of L E F s])
  qed
qed

lemma start_block_hash_kept [simp]:
  "start_block_hash (bm (bm_on_block L E F b s)) = start_block_hash (bm s)"
  "start_block_hash (bm (bm_handle_orphan_block L s)) = start_block_hash (bm s)"
  by (auto simp: bm_on_block_def bm_handle_orphan_block_def enqueue_block_def Let_def
      dest: write_block_to_file_frame split: prod.split)

lemma last_known_decodes:
  assumes "hash_codec_ok L" and "hash_decode L (start_block_hash m) \<noteq> None"
  obtains h where "hash_decode L (bm_get_last_known_block_hash L m) = Some h"
  using assms by (cases "block_headers m") (auto simp: bm_get_last_known_block_hash_def hash_decode_encode)



text \<open>The download of one inventory: what is left of it, block by block.\<close>

lemma drop_received_next:
  assumes "iv_hash x = h" and "h \<notin> iv_hash ` set xs"
  shows "drop_received (Some h) [x # xs] = (if xs = [] then [] else [xs])"
proof -
  have "filter (\<lambda>b. iv_hash b \<noteq> h) xs = xs" using assms(2) by (intro filter_True) auto
  then show ?thesis using assms(1) by (simp add: drop_received_def)
qed

definition receive_blocks ::
  "ext_lib \<Rightarrow> 'db db_env \<Rightarrow> 'd file_env \<Rightarrow> bool option \<Rightarrow> (nat option \<times> block) list \<Rightarrow> ('d, 'db) logic \<Rightarrow> ('d, 'db) logic" where
  "receive_blocks L E F rnd nbs lg = fold (\<lambda>(now, b). lg_on_block L E F rnd now b) nbs lg"

lemma not_detecting_on_block:
  assumes "\<not> detecting_orphans lg"
  shows "lg_sys (lg_on_block L E F rnd now b lg) = bm_on_block L E F b (lg_sys lg)"
    and "block_inventory (lg_on_block L E F rnd now b lg) =
      drop_received (Some (header_hash L (blk_header b))) (block_inventory lg)"
    and "\<not> detecting_orphans (lg_on_block L E F rnd now b lg)"
  using assms by (simp_all add: lg_on_block_sel is_orphan_def)

lemma receive_inventory:
  assumes "\<not> detecting_orphans lg" and "block_inventory lg = [objects]" and "objects \<noteq> []"
    and "distinct (map iv_hash objects)"
    and "map (\<lambda>(now, b). header_hash L (blk_header b)) nbs = map iv_hash objects"
  shows "\<exists>last. send_message_queue (receive_blocks L E F rnd nbs lg) = send_message_queue lg @
      map (\<lambda>x. MsgGetData [x]) (tl objects) @ next_request L last [] \<and>
    block_inventory (receive_blocks L E F rnd nbs lg) = []"
  using assms
proof (induction objects arbitrary: lg nbs)
  case Nil
  then show ?case by simp
next
  case (Cons x xs)
  obtain now b nbs' where nbs: "nbs = (now, b) # nbs'" "header_hash L (blk_header b) = iv_hash x"
    "map (\<lambda>(now, b). header_hash L (blk_header b)) nbs' = map iv_hash xs"
    using Cons.prems(5) by (cases nbs) auto
  let ?lg = "lg_on_block L E F rnd now b lg"
  have ivs: "block_inventory ?lg = (if xs = [] then [] else [xs])"
    using Cons.prems drop_received_next [of x "iv_hash x" xs]
    by (simp add: not_detecting_on_block nbs(2))
  have msgs: "send_message_queue ?lg = send_message_queue lg @
      next_request L (lg_get_last_known_block_hash L rnd ?lg) (if xs = [] then [] else [xs])"
    using lg_on_block_sel(3) [of L E F rnd now b lg] ivs by simp
  show ?case
  proof (cases "xs = []")
    case True
    then show ?thesis using nbs ivs msgs by (auto simp: receive_blocks_def)
  next
    case False
    have "\<exists>last. send_message_queue (receive_blocks L E F rnd nbs' ?lg) = send_message_queue ?lg @
        map (\<lambda>x. MsgGetData [x]) (tl xs) @ next_request L last [] \<and>
      block_inventory (receive_blocks L E F rnd nbs' ?lg) = []"
      using Cons.prems False ivs nbs(3) not_detecting_on_block(3) [OF Cons.prems(1), of L E F rnd now b]
      by (intro Cons.IH) simp_all
    moreover have "send_message_queue ?lg = send_message_queue lg @ [MsgGetData [hd xs]]"
      using msgs False by (cases xs) (simp_all add: next_request_def)
    ultimately show ?thesis using False by (cases xs) (simp_all add: receive_blocks_def nbs(1))
  qed
qed



text \<open>
  C23: The server becomes ready with a block exactly when the last header it then has is less
  than ten minutes old, stays ready with further blocks, and nothing else a block does changes
  the state.
\<close>

theorem ready_at_chain_tip:
  "let lg' = lg_on_block L E F rnd now b lg; headers = block_headers (bm (lg_sys lg')) in
     (lg_state lg' = Ready \<longleftrightarrow> lg_state lg = Ready \<or>
        headers \<noteq> [] \<and> timestamp_age_as_sec now (bh_timestamp (last headers)) < 600) \<and>
     (lg_state lg' \<noteq> Ready \<longrightarrow> lg_state lg' = lg_state lg)"
  by (auto simp: Let_def lg_on_block_sel(5) has_chain_tip_def split: list.splits)

theorem ready_at_chain_tip_witness:
  "lg_state (lg_on_block sample_lib log_env sample_file None (Some 99999) (sample_block 9 5)
     (sample_lg\<lparr>lg_state := Connected\<rparr>)) = Connected"
  using ready_at_chain_tip [of sample_lib log_env sample_file None "Some 99999" "sample_block 9 5"
      "sample_lg\<lparr>lg_state := Connected\<rparr>"]
  by (auto simp: Let_def lg_on_block_sel(1) is_orphan_def sample_lg_def get_start_block_timestamp_def sample_sys_def
      sample_bm_def bm_on_block_def sample_block_def sample_header_def enqueue_block_def)

text \<open>
  With detection on and no start time yet, a block counts as an orphan exactly when there
  are more headers than the threshold and it is older than every one of them; the start time
  found then is kept for all later blocks.
\<close>

lemma orphan_older_than_all:
  assumes "detecting_orphans lg" and "start_block_timestamp lg = None"
  shows "let headers = block_headers (bm (lg_sys lg)); (orphan, lg') = is_orphan ts lg in
     (orphan \<longleftrightarrow> threshold (bm (lg_sys lg)) < length headers \<and> (\<forall>h \<in> set headers. ts < bh_timestamp h)) \<and>
     (orphan \<longrightarrow> start_block_timestamp lg' = Some (Min (bh_timestamp ` set headers)) \<and>
        (\<forall>ts'. is_orphan ts' lg' = (ts' < Min (bh_timestamp ` set headers), lg')))"
proof -
  let ?hs = "block_headers (bm (lg_sys lg))" and ?n = "threshold (bm (lg_sys lg))"
  have start: "get_start_block_timestamp (bm (lg_sys lg)) =
      (if ?n < length ?hs then Some (Min (bh_timestamp ` set ?hs)) else None)"
    by (cases ?hs) (auto simp: get_start_block_timestamp_def split: list.split)
  show ?thesis
  proof (cases "?n < length ?hs")
    case True
    then have "?hs \<noteq> []" by auto
    then have "ts < Min (bh_timestamp ` set ?hs) \<longleftrightarrow> (\<forall>h \<in> set ?hs. ts < bh_timestamp h)" by simp
    then show ?thesis using assms True start by (simp add: is_orphan_def Let_def)
  qed (use assms start in \<open>simp add: is_orphan_def Let_def\<close>)
qed

end
