(* ===== verification/Rate_Limit.thy ===== *)
theory Rate_Limit
  imports Hash_Map Util
begin

text \<open>
  The rate limiter of the REST interface (\<open>rust/src/rate_limit.rs\<close>): a window of 60 seconds
  for each client, with a count. An \<open>Instant\<close> is a number of nanoseconds; \<open>poisoned\<close> says
  whether the mutex is. \<open>client_ip\<close> works on the two values it reads from the request: the
  header as text, where it is there and can be read as text, and the address of the peer.
\<close>

type_synonym instant = nat

definition WINDOW :: nat where
  "WINDOW = 60 * 1000000000"

record rate_limiter =
  limit_per_minute :: u32
  windows :: "(string, instant \<times> u32) hash_map"

definition rl_new :: "u32 \<Rightarrow> rate_limiter" where
  "rl_new limit = \<lparr>limit_per_minute = limit, windows = hm_empty\<rparr>"

definition allow :: "bool \<Rightarrow> instant \<Rightarrow> string \<Rightarrow> rate_limiter \<Rightarrow> bool \<times> rate_limiter" where
  "allow poisoned now client r =
     (if limit_per_minute r = 0 then (True, r)
      else if poisoned then (False, r)
      else
        let entry = (case hm_get (windows r) client of Some e \<Rightarrow> e | None \<Rightarrow> (now, 0));
            entry = (if now - fst entry \<ge> WINDOW then (now, 0) else entry)
        in if snd entry \<ge> limit_per_minute r
           then (False, r\<lparr>windows := hm_insert client entry (windows r)\<rparr>)
           else (True, r\<lparr>windows := hm_insert client (fst entry, snd entry + 1) (windows r)\<rparr>))"

definition is_space :: "char \<Rightarrow> bool" where
  "is_space c = (c = CHR '' '' \<or> c = CHR 0x09)"

definition trim :: "string \<Rightarrow> string" where
  "trim s = rev (dropWhile is_space (rev (dropWhile is_space s)))"

definition client_ip :: "string option \<Rightarrow> string option \<Rightarrow> string" where
  "client_ip forwarded_for peer_addr =
     (case forwarded_for of
        Some forwarded \<Rightarrow> trim (takeWhile (\<lambda>c. c \<noteq> CHR '','') forwarded)
      | None \<Rightarrow> (case peer_addr of Some a \<Rightarrow> a | None \<Rightarrow> ''unknown''))"

section \<open>Facts\<close>

text \<open>A sequence of requests, each a time and a client, and which of them were let through.\<close>

fun allow_all :: "(instant \<times> string) list \<Rightarrow> rate_limiter \<Rightarrow> bool list \<times> rate_limiter" where
  "allow_all [] r = ([], r)"
| "allow_all ((now, client) # reqs) r =
     (let (b, r) = allow False now client r; (bs, r) = allow_all reqs r in (b # bs, r))"

definition allowed_for :: "string \<Rightarrow> (instant \<times> string) list \<Rightarrow> rate_limiter \<Rightarrow> nat" where
  "allowed_for client reqs r =
     length (filter (\<lambda>((now, c), b). c = client \<and> b) (zip reqs (fst (allow_all reqs r))))"

definition requests_of :: "string \<Rightarrow> (instant \<times> string) list \<Rightarrow> nat" where
  "requests_of client reqs = length (filter (\<lambda>(now, c). c = client) reqs)"

lemma allow_limit [simp]: "limit_per_minute (snd (allow p now client r)) = limit_per_minute r"
  by (simp add: allow_def Let_def)

lemma allow_other:
  "c \<noteq> client \<Longrightarrow> hm_get (windows (snd (allow p now client r))) c = hm_get (windows r) c"
  by (simp add: allow_def Let_def hm_get_insert)

text \<open>Within one window of the client: the first requests up to the limit are let through.\<close>

lemma allow_in_window:
  assumes "limit_per_minute r \<noteq> 0" and "hm_get (windows r) client = Some (start, n)" and "now - start < WINDOW"
    and "n \<le> limit_per_minute r"
  shows "fst (allow False now client r) \<longleftrightarrow> n < limit_per_minute r"
    and "hm_get (windows (snd (allow False now client r))) client =
      Some (start, if n < limit_per_minute r then n + 1 else n)"
  using assms by (auto simp: allow_def Let_def hm_get_insert)

lemma unat_Suc_less: "n < (m :: u32) \<Longrightarrow> unat (n + 1) = unat n + 1"
  using unsigned_less [of m, where ?'a = nat] by (simp add: unat_word_ariths word_less_nat_alt)

lemma allowed_in_window:
  assumes "limit_per_minute r \<noteq> 0" and "hm_get (windows r) client = Some (start, n)"
    and "n \<le> limit_per_minute r" and "list_all (\<lambda>(now, c). now - start < WINDOW) reqs"
  shows "allowed_for client reqs r = min (unat (limit_per_minute r - n)) (requests_of client reqs)"
  using assms
proof (induction reqs arbitrary: r n)
  case Nil
  then show ?case by (simp add: allowed_for_def requests_of_def)
next
  case (Cons req reqs)
  obtain now c where req: "req = (now, c)" by (cases req)
  let ?r = "snd (allow False now c r)"
  have now: "now - start < WINDOW" and rest: "list_all (\<lambda>(now, c). now - start < WINDOW) reqs"
    using Cons.prems(4) req by simp_all
  have split: "allowed_for client ((now, c) # reqs) r =
      (if c = client \<and> fst (allow False now c r) then 1 else 0) + allowed_for client reqs ?r"
    by (auto simp: allowed_for_def req split_def Let_def)
  show ?case
  proof (cases "c = client")
    case False
    then have "hm_get (windows ?r) client = Some (start, n)" using Cons.prems(2) by (simp add: allow_other)
    from Cons.IH [OF _ this _ rest] Cons.prems False show ?thesis by (simp add: split req requests_of_def)
  next
    case True
    note w = allow_in_window [OF Cons.prems(1,2) now Cons.prems(3)]
    show ?thesis
    proof (cases "n < limit_per_minute r")
      case True
      have n1: "unat (n + 1) = unat n + 1" using unat_Suc_less [OF True] .
      then have "n + 1 \<le> limit_per_minute r" using True by (simp add: word_le_nat_alt word_less_nat_alt)
      moreover have "hm_get (windows ?r) client = Some (start, n + 1)" using w(2) True \<open>c = client\<close> by simp
      ultimately have "allowed_for client reqs ?r = min (unat (limit_per_minute r - (n + 1))) (requests_of client reqs)"
        using Cons.IH [of ?r "n + 1"] Cons.prems(1) rest by simp
      moreover have "unat (limit_per_minute r - (n + 1)) + 1 = unat (limit_per_minute r - n)"
        using True n1 Cons.prems(3) \<open>n + 1 \<le> limit_per_minute r\<close> by (simp add: unat_sub word_less_nat_alt)
      ultimately show ?thesis
        using w(1) True \<open>c = client\<close> unfolding req split requests_of_def by simp
    next
      case False
      then have "n = limit_per_minute r" using Cons.prems(3) by simp
      moreover from this have "hm_get (windows ?r) client = Some (start, n)" using w(2) \<open>c = client\<close> by simp
      ultimately have "allowed_for client reqs ?r = min (unat (limit_per_minute r - n)) (requests_of client reqs)"
        using Cons.IH [of ?r n] Cons.prems(1) rest by simp
      then show ?thesis using w(1) False \<open>c = client\<close> \<open>n = limit_per_minute r\<close> unfolding req split by simp
    qed
  qed
qed

section \<open>Properties\<close>



end
