(* ===== verification/Thread_Tracker.thy ===== *)
theory Thread_Tracker
  imports Hash_Map Rate_Limit
begin

text \<open>
  The threads of the peer connections (\<open>rust/src/thread_tracker.rs\<close>, \<open>rust/src/peer_thread.rs\<close>,
  \<open>rust/src/thread_util.rs\<close>). The handle of a thread is what joining it returns: whether it
  panicked. The flag \<open>running\<close> is shared with the thread, which only reads it. A peer is a
  value of type \<open>'p\<close>. \<open>print\<close> only logs.
\<close>

datatype peer_thread_status = Started | Connected | Disconnected | Finished

record 'p peer_thread =
  pt_thread :: "bool option"
  pt_peer :: "'p option"
  pt_status :: peer_thread_status
  pt_running :: bool
  pt_started_at :: instant

record 'p thread_tracker =
  children :: "(string, 'p peer_thread) hash_map"

definition tt_new :: "'p thread_tracker" where
  "tt_new = \<lparr>children = hm_empty\<rparr>"

definition tt_add :: "string \<Rightarrow> 'p peer_thread \<Rightarrow> 'p thread_tracker \<Rightarrow> 'p thread_tracker" where
  "tt_add ip peer tt = tt\<lparr>children := hm_insert ip peer (children tt)\<rparr>"

definition all_finished :: "'p thread_tracker \<Rightarrow> bool" where
  "all_finished tt = list_all (\<lambda>(_, child). pt_status child = Finished) (children tt)"

definition tt_set_status :: "string \<Rightarrow> peer_thread_status \<Rightarrow> 'p thread_tracker \<Rightarrow> 'p thread_tracker" where
  "tt_set_status ip status tt =
     (case hm_get (children tt) ip of
        Some _ \<Rightarrow> tt\<lparr>children := hm_modify ip (\<lambda>x. x\<lparr>pt_status := status\<rparr>) (children tt)\<rparr>
      | None \<Rightarrow> tt)"

fun first_connected :: "'p peer_thread list \<Rightarrow> 'p option" where
  "first_connected [] = None"
| "first_connected (child # rest) =
     (if pt_status child = Connected then pt_peer child else first_connected rest)"

definition get_connected_peer :: "'p thread_tracker \<Rightarrow> 'p option" where
  "get_connected_peer tt = first_connected (hm_values (children tt))"

text \<open>\<open>stop_all\<close>: here the mapped iterator is collected, so that its closure runs for every child.\<close>

definition tt_stop :: "string \<Rightarrow> 'p thread_tracker \<Rightarrow> 'p thread_tracker" where
  "tt_stop ip tt =
     (case hm_get (children tt) ip of
        Some _ \<Rightarrow> tt\<lparr>children := hm_modify ip (\<lambda>x. x\<lparr>pt_running := False\<rparr>) (children tt)\<rparr>
      | None \<Rightarrow> tt)"

definition stop_all :: "'p thread_tracker \<Rightarrow> 'p thread_tracker" where
  "stop_all tt = iter_consume (Lazy_Map (\<lambda>ip tt. tt_stop ip tt) (hm_keys (children tt))) tt"

definition join_thread :: "string \<Rightarrow> 'p thread_tracker \<Rightarrow> 'p thread_tracker" where
  "join_thread ip tt =
     (case hm_get (children tt) ip of
        None \<Rightarrow> tt
      | Some peer \<Rightarrow>
          let tt = tt\<lparr>children := hm_remove ip (children tt)\<rparr>; started_at = pt_started_at peer
          in case pt_thread peer of
               None \<Rightarrow> tt
             | Some panicked \<Rightarrow>
                 tt\<lparr>children := hm_insert ip
                     \<lparr>pt_thread = None, pt_peer = None, pt_status = Finished, pt_running = False,
                      pt_started_at = started_at\<rparr> (children tt)\<rparr>)"

section \<open>Facts\<close>

definition wf_tt :: "'p thread_tracker \<Rightarrow> bool" where
  "wf_tt tt \<longleftrightarrow> hm_wf (children tt)"

lemma wf_tt_ops [uaas_wf]:
  "wf_tt (tt_new)" "wf_tt tt \<Longrightarrow> wf_tt (tt_add ip p tt)" "wf_tt tt \<Longrightarrow> wf_tt (tt_set_status ip st tt)"
  "wf_tt tt \<Longrightarrow> wf_tt (tt_stop ip tt)" "wf_tt tt \<Longrightarrow> wf_tt (join_thread ip tt)"
  by (auto simp: wf_tt_def tt_new_def tt_add_def tt_set_status_def tt_stop_def join_thread_def Let_def
      split: option.split)

text \<open>Every operation touches the entry of its own address only.\<close>

lemma children_other:
  assumes "ip' \<noteq> ip"
  shows "hm_get (children (tt_add ip p tt)) ip' = hm_get (children tt) ip'"
    and "hm_get (children (tt_set_status ip st tt)) ip' = hm_get (children tt) ip'"
    and "hm_get (children (tt_stop ip tt)) ip' = hm_get (children tt) ip'"
    and "hm_get (children (join_thread ip tt)) ip' = hm_get (children tt) ip'"
  using assms
  by (auto simp: tt_add_def tt_set_status_def tt_stop_def join_thread_def Let_def hm_get_insert hm_get_modify
      hm_get_remove split: option.split)

lemma tt_set_status_same:
  "hm_get (children (tt_set_status ip st tt)) ip = map_option (\<lambda>x. x\<lparr>pt_status := st\<rparr>) (hm_get (children tt) ip)"
  by (auto simp: tt_set_status_def hm_get_modify split: option.split)

lemma tt_stop_same:
  "hm_get (children (tt_stop ip tt)) ip = map_option (\<lambda>x. x\<lparr>pt_running := False\<rparr>) (hm_get (children tt) ip)"
  by (auto simp: tt_stop_def hm_get_modify split: option.split)

lemma stop_list:
  "hm_get (children (fold (\<lambda>ip tt. tt_stop ip tt) ips tt)) ip =
     (if ip \<in> set ips then map_option (\<lambda>x. x\<lparr>pt_running := False\<rparr>) (hm_get (children tt) ip)
      else hm_get (children tt) ip)"
proof (induction ips arbitrary: tt)
  case Nil
  then show ?case by simp
next
  case (Cons k ips)
  have "(\<lambda>x. x\<lparr>pt_running := False\<rparr>) \<circ> (\<lambda>x. x\<lparr>pt_running := False\<rparr>) = (\<lambda>x :: 'a peer_thread. x\<lparr>pt_running := False\<rparr>)"
    by auto
  then show ?case
    using Cons by (cases "ip = k") (auto simp: tt_stop_same children_other option.map_comp comp_def)
qed

text \<open>
  Stopping all threads clears the flag of every one of them and changes nothing else: here
  the mapped iterator is consumed.
\<close>

lemma stop_all_get:
  "hm_get (children (stop_all tt)) ip = map_option (\<lambda>x. x\<lparr>pt_running := False\<rparr>) (hm_get (children tt) ip)"
proof -
  have "ip \<notin> set (hm_keys (children tt)) \<Longrightarrow> hm_get (children tt) ip = None"
    by (simp add: hm_get_def hm_keys_def map_of_eq_None_iff)
  then show ?thesis by (auto simp: stop_all_def stop_list)
qed

text \<open>Joining: the entry is finished, or gone where it has no thread any more.\<close>

lemma join_thread_same:
  "hm_get (children (join_thread ip tt)) ip =
     (case hm_get (children tt) ip of
        Some p \<Rightarrow> (case pt_thread p of
                     Some _ \<Rightarrow> Some \<lparr>pt_thread = None, pt_peer = None, pt_status = Finished,
                                  pt_running = False, pt_started_at = pt_started_at p\<rparr>
                   | None \<Rightarrow> None)
      | None \<Rightarrow> None)"
  by (auto simp: join_thread_def Let_def hm_get_insert hm_get_remove split: option.split)

lemma all_finished_iff:
  "wf_tt tt \<Longrightarrow> all_finished tt \<longleftrightarrow> (\<forall>ip p. hm_get (children tt) ip = Some p \<longrightarrow> pt_status p = Finished)"
  by (auto simp: all_finished_def wf_tt_def list_all_iff hm_get_in_set)

lemma get_connected_peer_Some:
  assumes "wf_tt tt" and "get_connected_peer tt = Some p"
  shows "\<exists>ip child. hm_get (children tt) ip = Some child \<and> pt_status child = Connected \<and> pt_peer child = Some p"
proof -
  have "first_connected cs = Some p \<Longrightarrow> \<exists>c \<in> set cs. pt_status c = Connected \<and> pt_peer c = Some p" for cs
    by (induction cs) (auto split: if_splits)
  then show ?thesis
    using assms set_hm_values [of "children tt"] by (fastforce simp: get_connected_peer_def wf_tt_def)
qed

end
