(* ===== verification/Services.thy ===== *)
theory Services
  imports Prelude
begin

unbundle bit_operations_syntax

text \<open>
  The names of the service bits a peer announces (\<open>rust/src/services.rs\<close>). The static map is
  the list of its entries; the order in which the code iterates over it is left open by Rust,
  and no property here depends on it.
\<close>

definition SERVICE_FLAGS :: "(u64 \<times> string) list" where
  "SERVICE_FLAGS =
     [(push_bit 0 1, ''NODE_NETWORK''), (push_bit 1 1, ''NODE_GETUTXO''), (push_bit 2 1, ''NODE_BLOOM''),
      (push_bit 3 1, ''NODE_WITNESS''), (push_bit 4 1, ''NODE_XTHIN''), (push_bit 5 1, ''NODE_BITCOIN_CASH''),
      (push_bit 6 1, ''NODE_COMPACT_FILTERS''), (push_bit 10 1, ''NODE_NETWORK_LIMITED'')]"

definition decode_services :: "u64 \<Rightarrow> string list" where
  "decode_services nservice =
     (if nservice \<noteq> 0
      then map snd (filter (\<lambda>(key, value). nservice AND key > 0) SERVICE_FLAGS)
      else [''NODE_NONE''])"

lemma and_push_bit_pos: "(x :: u64) AND push_bit n 1 > 0 \<longleftrightarrow> bit x n"
proof -
  have "push_bit n (1 :: u64) = 2 ^ n" by (simp add: push_bit_eq_mult)
  then show ?thesis unfolding word_neq_0_conv [symmetric] by (simp add: and_exp_eq_0_iff_not_bit)
qed

text \<open>A name of the table is listed exactly when its bit is set.\<close>

lemma decode_services_bits:
  assumes "x \<noteq> 0"
  shows "decode_services x = map snd (filter (\<lambda>(n, name). bit x n)
      [(0, ''NODE_NETWORK''), (1, ''NODE_GETUTXO''), (2, ''NODE_BLOOM''), (3, ''NODE_WITNESS''),
      (4, ''NODE_XTHIN''), (5, ''NODE_BITCOIN_CASH''), (6, ''NODE_COMPACT_FILTERS''), (10, ''NODE_NETWORK_LIMITED'')])"
  using assms and_push_bit_pos [of x 0] and_push_bit_pos [of x 1] and_push_bit_pos [of x 2] and_push_bit_pos [of x 3]
    and_push_bit_pos [of x 4] and_push_bit_pos [of x 5] and_push_bit_pos [of x 6] and_push_bit_pos [of x 10]
  by (simp add: decode_services_def SERVICE_FLAGS_def del: push_bit_of_1)

end
