(* ===== verification/Peer_Events.thy ===== *)
theory Peer_Events
  imports Peer_Log Rate_Limit Services
begin

text \<open>
  What a peer's thread reports to the peer manager (\<open>rust/src/peer_event.rs\<close>,
  \<open>rust/src/event_handler.rs\<close>) and its waiting loop (\<open>rust/src/peer_connection.rs\<close>). The
  library calls the three observers; a lock is taken for the length of one method, and a
  poisoned one is used all the same, so the handler's state is a plain record. A message to
  the peer is an entry of a list; whether \<open>send\<close> succeeds is only logged here.
\<close>

section \<open>Events\<close>

datatype peer_event_type =
    EvConnected string
  | EvDisconnected
  | EvAddr "node_addr list"
  | EvTx tx
  | EvBlock block
  | EvHeaders "block_header list"
  | EvInv "inv_vect list"
  | EvStop

record peer_event_message =
  pe_time :: nat
  pe_peer :: string
  pe_event :: peer_event_type

definition obj_type_as_string :: "u32 \<Rightarrow> string" where
  "obj_type_as_string o_type =
     (if o_type = 1 then ''TX''
      else if o_type = 2 then ''BLOCK''
      else if o_type = 3 then ''FILTERED_BLOCK''
      else if o_type = 4 then ''CMPCT_BLOCK''
      else ''unknown obj_type '' @ show_nat (unat o_type))"

text \<open>\<open>Display\<close>; \<open>debug\<close> is the \<open>Debug\<close> text of a hash, \<open>date\<close> the text of a timestamp.\<close>

fun fmt_event :: "ext_lib \<Rightarrow> (hash256 \<Rightarrow> string) \<Rightarrow> (u32 \<Rightarrow> string) \<Rightarrow> peer_event_type \<Rightarrow> string" where
  "fmt_event L debug date (EvConnected detail) = ''Connected=('' @ detail @ '')''"
| "fmt_event L debug date EvDisconnected = ''Disconnected''"
| "fmt_event L debug date (EvAddr addrs) = ''Addr='' @ show_nat (length addrs)"
| "fmt_event L debug date (EvTx t) = ''Tx='' @ debug (tx_hash L t)"
| "fmt_event L debug date (EvBlock b) =
     ''Block='' @ debug (header_hash L (blk_header b)) @ '' - '' @ date (bh_timestamp (blk_header b))"
| "fmt_event L debug date (EvHeaders hs) = ''Headers='' @ show_nat (length hs)"
| "fmt_event L debug date (EvInv objects) =
     (case objects of
        [] \<Rightarrow> ''Inv=0''
      | [x] \<Rightarrow> ''Inv=1 ('' @ obj_type_as_string (iv_obj_type x) @ '') '' @ hash_encode L (iv_hash x)
      | _ \<Rightarrow> ''Inv='' @ show_nat (length objects))"
| "fmt_event L debug date EvStop = ''Stop''"

text \<open>\<open>show\<close> is the \<open>Debug\<close> text of the time since the epoch, where the clock is after it.\<close>

definition fmt_event_message ::
  "ext_lib \<Rightarrow> (hash256 \<Rightarrow> string) \<Rightarrow> (u32 \<Rightarrow> string) \<Rightarrow> (nat \<Rightarrow> string option) \<Rightarrow> peer_event_message \<Rightarrow> string" where
  "fmt_event_message L debug date show msg =
     (let elapsed = (case show (pe_time msg) of Some d \<Rightarrow> d | None \<Rightarrow> ''unknown'')
      in elapsed @ '', '' @ pe_peer msg @ '', '' @ fmt_event L debug date (pe_event msg))"

section \<open>The event handler\<close>

record event_handler =
  last_event :: instant
  connected_to_peer :: bool

definition eh_new :: "instant \<Rightarrow> event_handler" where
  "eh_new now = \<lparr>last_event = now, connected_to_peer = False\<rparr>"

definition get_elapsed_time :: "instant \<Rightarrow> event_handler \<Rightarrow> nat" where
  "get_elapsed_time now h = now - last_event h"

definition set_connected :: "bool \<Rightarrow> event_handler \<Rightarrow> event_handler" where
  "set_connected flag h = h\<lparr>connected_to_peer := flag\<rparr>"

definition update_timer :: "instant \<Rightarrow> event_handler \<Rightarrow> event_handler" where
  "update_timer now h = h\<lparr>last_event := now\<rparr>"

text \<open>What a handler works on: its state, the channel to the manager, what it sent the peer.\<close>

record handler_sys =
  eh :: event_handler
  eh_tx :: "peer_event_message chan"
  to_peer :: "peer_msg list"

definition eh_send_msg :: "peer_event_message \<Rightarrow> handler_sys \<Rightarrow> handler_sys" where
  "eh_send_msg msg s =
     (case chan_send msg (eh_tx s) of (Inl _, c) \<Rightarrow> s\<lparr>eh_tx := c\<rparr> | (Inr _, c) \<Rightarrow> s\<lparr>eh_tx := c\<rparr>)"

definition get_connected :: "event_handler \<Rightarrow> bool" where
  "get_connected h = connected_to_peer h"

definition eh_on_addr :: "nat \<Rightarrow> string \<Rightarrow> node_addr list \<Rightarrow> handler_sys \<Rightarrow> handler_sys" where
  "eh_on_addr time ip addr s = eh_send_msg \<lparr>pe_time = time, pe_peer = ip, pe_event = EvAddr addr\<rparr> s"

definition eh_on_inv :: "nat \<Rightarrow> string \<Rightarrow> inv_vect list \<Rightarrow> handler_sys \<Rightarrow> handler_sys" where
  "eh_on_inv time ip objects s = eh_send_msg \<lparr>pe_time = time, pe_peer = ip, pe_event = EvInv objects\<rparr> s"

definition eh_on_block :: "nat \<Rightarrow> string \<Rightarrow> block \<Rightarrow> handler_sys \<Rightarrow> handler_sys" where
  "eh_on_block time ip b s = eh_send_msg \<lparr>pe_time = time, pe_peer = ip, pe_event = EvBlock b\<rparr> s"

definition eh_on_tx :: "nat \<Rightarrow> string \<Rightarrow> tx \<Rightarrow> handler_sys \<Rightarrow> handler_sys" where
  "eh_on_tx time ip t s = eh_send_msg \<lparr>pe_time = time, pe_peer = ip, pe_event = EvTx t\<rparr> s"

definition eh_on_headers :: "nat \<Rightarrow> string \<Rightarrow> block_header list \<Rightarrow> handler_sys \<Rightarrow> handler_sys" where
  "eh_on_headers time ip hs s = eh_send_msg \<lparr>pe_time = time, pe_peer = ip, pe_event = EvHeaders hs\<rparr> s"

definition on_feefilter :: "u64 \<Rightarrow> handler_sys \<Rightarrow> handler_sys" where
  "on_feefilter value s =
     (if get_connected (eh s) then s\<lparr>to_peer := to_peer s @ [MsgFeeFilter 0]\<rparr> else s)"

definition on_sendcmpct :: "u8 \<Rightarrow> u64 \<Rightarrow> handler_sys \<Rightarrow> handler_sys" where
  "on_sendcmpct enable version s =
     (if get_connected (eh s) then s\<lparr>to_peer := to_peer s @ [MsgSendCmpct 0 1]\<rparr> else s)"

text \<open>
  The observer of \<open>PeerConnected\<close>: \<open>version\<close> is what the peer's version message says, the
  user agent and its services, or an error. \<open>hex\<close> and \<open>debug\<close> format the services.
\<close>

definition on_peer_connected ::
  "(u64 \<Rightarrow> string) \<Rightarrow> (string list \<Rightarrow> string) \<Rightarrow> instant \<Rightarrow> nat \<Rightarrow> string \<Rightarrow> (string \<times> u64) option \<Rightarrow>
   handler_sys \<Rightarrow> handler_sys" where
  "on_peer_connected hex debug now time ip version s =
     (let s = s\<lparr>eh := update_timer now (eh s)\<rparr>;
          detail = (case version of
                      Some (user_agent, services) \<Rightarrow>
                        ''user_agent='' @ user_agent @ '', services='' @ hex services @ '' ('' @
                        debug (decode_services services) @ '')''
                    | None \<Rightarrow> ''peer='' @ ip);
          s = s\<lparr>eh := set_connected True (eh s)\<rparr>
      in eh_send_msg \<lparr>pe_time = time, pe_peer = ip, pe_event = EvConnected detail\<rparr> s)"

definition on_peer_disconnected :: "instant \<Rightarrow> nat \<Rightarrow> string \<Rightarrow> handler_sys \<Rightarrow> handler_sys" where
  "on_peer_disconnected now time ip s =
     (let s = s\<lparr>eh := update_timer now (eh s)\<rparr>;
          s = s\<lparr>eh := set_connected False (eh s)\<rparr>
      in eh_send_msg \<lparr>pe_time = time, pe_peer = ip, pe_event = EvDisconnected\<rparr> s)"

datatype peer_message =
    PmAddr "node_addr list"
  | PmInv "inv_vect list"
  | PmBlock block
  | PmTx tx
  | PmHeaders "block_header list"
  | PmFeeFilter u64
  | PmSendCmpct u8 u64
  | PmOther

definition on_peer_message :: "instant \<Rightarrow> nat \<Rightarrow> string \<Rightarrow> peer_message \<Rightarrow> handler_sys \<Rightarrow> handler_sys" where
  "on_peer_message now time ip message s =
     (let s = s\<lparr>eh := update_timer now (eh s)\<rparr>
      in case message of
           PmAddr addr \<Rightarrow> eh_on_addr time ip addr s
         | PmInv objects \<Rightarrow> eh_on_inv time ip objects s
         | PmBlock b \<Rightarrow> eh_on_block time ip b s
         | PmTx t \<Rightarrow> eh_on_tx time ip t s
         | PmHeaders hs \<Rightarrow> eh_on_headers time ip hs s
         | PmFeeFilter value \<Rightarrow> on_feefilter value s
         | PmSendCmpct enable version \<Rightarrow> on_sendcmpct enable version s
         | PmOther \<Rightarrow> s)"

section \<open>The waiting loop\<close>

text \<open>
  \<open>wait_for_messages\<close>: one entry for each round of the loop, the \<open>running\<close> flag and the clock
  as the condition reads them and the time the sleep took. The result is the connected flag
  that the loop leaves, and whether it has ended within the rounds given.
\<close>

fun wait_rounds :: "nat \<Rightarrow> (bool \<times> instant \<times> nat) list \<Rightarrow> event_handler \<Rightarrow> bool \<times> event_handler" where
  "wait_rounds timeout [] h = (False, h)"
| "wait_rounds timeout ((running, now, slept) # rounds) h =
     (if running \<and> get_elapsed_time now h < timeout
      then if slept > 2 * 1000000000
           then (True, set_connected False h)
           else wait_rounds timeout rounds h
      else (True, h))"

section \<open>Facts\<close>

datatype handler_event =
    Connected_Event instant nat string "(string \<times> u64) option"
  | Disconnected_Event instant nat string
  | Message_Event instant nat string peer_message

fun handler_step :: "(u64 \<Rightarrow> string) \<Rightarrow> (string list \<Rightarrow> string) \<Rightarrow> handler_event \<Rightarrow> handler_sys \<Rightarrow> handler_sys" where
  "handler_step hex debug (Connected_Event now time ip version) s = on_peer_connected hex debug now time ip version s"
| "handler_step hex debug (Disconnected_Event now time ip) s = on_peer_disconnected now time ip s"
| "handler_step hex debug (Message_Event now time ip m) s = on_peer_message now time ip m s"

text \<open>The events that reach the manager, for each call of the library.\<close>

fun reported :: "handler_event \<Rightarrow> peer_event_type option" where
  "reported (Message_Event _ _ _ (PmAddr a)) = Some (EvAddr a)"
| "reported (Message_Event _ _ _ (PmInv i)) = Some (EvInv i)"
| "reported (Message_Event _ _ _ (PmBlock b)) = Some (EvBlock b)"
| "reported (Message_Event _ _ _ (PmTx t)) = Some (EvTx t)"
| "reported (Message_Event _ _ _ (PmHeaders h)) = Some (EvHeaders h)"
| "reported (Disconnected_Event _ _ _) = Some EvDisconnected"
| "reported _ = None"

lemma eh_send_msg_eq: "eh_send_msg m s = s\<lparr>eh_tx := chan_sends [m] (eh_tx s)\<rparr>"
  by (simp add: eh_send_msg_def chan_send_def chan_sends_def)

lemmas handler_defs = eh_on_addr_def eh_on_inv_def eh_on_block_def eh_on_tx_def eh_on_headers_def
  eh_send_msg_eq get_connected_def on_feefilter_def on_sendcmpct_def
  on_peer_connected_def on_peer_disconnected_def on_peer_message_def update_timer_def set_connected_def Let_def

interpretation handler_log: mono_machine "handler_step hex debug" "\<lambda>s. sent (eh_tx s)"
proof
  fix ev :: handler_event and s :: handler_sys
  show "\<exists>zs. sent (eh_tx (handler_step hex debug ev s)) = sent (eh_tx s) @ zs"
    by (cases ev) (auto simp: handler_defs sent_chan_sends split: peer_message.split)
qed

text \<open>
  C31: Every message of a peer that the service handles, and every disconnect, reaches the
  manager exactly once, in the order of arrival and with the address of its peer; the others
  report nothing but the start of a connection.
\<close>

theorem messages_reported_in_order:
  assumes "rx_alive (eh_tx s)" and "list_all (\<lambda>ev. case ev of Connected_Event _ _ _ _ \<Rightarrow> False | _ \<Rightarrow> True) evs"
  shows "map pe_event (sent (eh_tx (fold (handler_step hex debug) evs s))) =
     map pe_event (sent (eh_tx s)) @ List.map_filter reported evs"
  using assms
proof (induction evs arbitrary: s)
  case Nil
  then show ?case by (simp add: List.map_filter_def)
next
  case (Cons ev evs)
  have "rx_alive (eh_tx (handler_step hex debug ev s)) \<and>
      map pe_event (sent (eh_tx (handler_step hex debug ev s))) =
        map pe_event (sent (eh_tx s)) @ (case reported ev of Some e \<Rightarrow> [e] | None \<Rightarrow> [])"
  proof (cases ev)
    case (Message_Event now time ip m)
    then show ?thesis using Cons.prems(1) by (cases m) (simp_all add: handler_defs)
  qed (use Cons.prems in \<open>simp_all add: handler_defs\<close>)
  then show ?case using Cons by (auto simp: List.map_filter_simps split: option.split)
qed

theorem messages_reported_in_order_witness:
  "map pe_event (sent (eh_tx (fold (handler_step (\<lambda>_. ''0'') (\<lambda>_. ''[]''))
     [Message_Event 1 1 ''ip'' (PmTx sample_tx), Message_Event 2 2 ''ip'' (PmFeeFilter 7), Disconnected_Event 3 3 ''ip'']
     \<lparr>eh = eh_new 0, eh_tx = open_chan, to_peer = []\<rparr>))) = [EvTx sample_tx, EvDisconnected]"
  by (subst messages_reported_in_order) (simp_all add: List.map_filter_simps)

end
