(* ===== verification/Rest_Api.thy ===== *)
theory Rest_Api
  imports Db_Ops Config Rate_Limit
begin

text \<open>
  The REST interface (\<open>rust/src/rest_api.rs\<close>): its handlers as functions of the request and the
  state they share, which is the sending end of a channel, the API key, the rate limiter and the
  limit on the size of a transaction. A request is what the handlers read from it: the time,
  the value of the header \<open>X-API-Key\<close> where it can be read as text, and what \<open>client_ip\<close> reads.
  The path, the routing and the JSON text of the bodies belong to \<open>actix-web\<close>; a response is
  a status with the values that go into its body. The test of the database connection is an
  argument of \<open>health\<close>.
\<close>

datatype rest_event_message =
    TxForBroadcast tx
  | AddMonitor collection_config
  | DeleteMonitor string

record app_state =
  msg_from_rest_api :: "rest_event_message chan"
  as_api_key :: "string option"
  as_rate_limiter :: rate_limiter
  as_max_broadcast_tx_bytes :: usize

record http_request =
  rq_now :: instant
  rq_api_key :: "string option"
  rq_forwarded_for :: "string option"
  rq_peer_addr :: "string option"
  rq_poisoned :: bool

datatype http_response =
    TooManyRequests string
  | Unauthorized string
  | BroadcastTxResponse string string
  | HealthOk string
  | HealthFailed string
  | VersionResponse string
  | ServiceUnavailable string
  | OkEmpty

definition tx_hex_exceeds_limit :: "usize \<Rightarrow> usize \<Rightarrow> bool" where
  "tx_hex_exceeds_limit hex_len max_tx_bytes = (hex_len div 2 > max_tx_bytes)"

definition rate_limit :: "http_request \<Rightarrow> app_state \<Rightarrow> http_response option \<times> app_state" where
  "rate_limit req st =
     (let (ok, r) = allow (rq_poisoned req) (rq_now req)
                      (client_ip (rq_forwarded_for req) (rq_peer_addr req)) (as_rate_limiter st)
      in (if ok then None else Some (TooManyRequests ''Rate limit exceeded''), st\<lparr>as_rate_limiter := r\<rparr>))"

definition authorize :: "http_request \<Rightarrow> string option \<Rightarrow> http_response option" where
  "authorize req api_key =
     (case api_key of
        None \<Rightarrow> None
      | Some expected \<Rightarrow>
          if (case rq_api_key req of Some provided \<Rightarrow> provided = expected | None \<Rightarrow> False)
          then None else Some (Unauthorized ''Unauthorized''))"

text \<open>
  \<open>check_database\<close>: whether a connection can be had, and what the query returns, an error or
  the first row if there is one.
\<close>

definition check_database :: "string + unit \<Rightarrow> string + u8 option \<Rightarrow> string + unit" where
  "check_database get_conn query =
     (case get_conn of
        Inl err \<Rightarrow> Inl err
      | Inr _ \<Rightarrow>
          (case query of
             Inl err \<Rightarrow> Inl err
           | Inr None \<Rightarrow> Inl ''database health check returned no rows''
           | Inr (Some _) \<Rightarrow> Inr ()))"

text \<open>\<open>web::block\<close> runs the check on another thread and may fail itself.\<close>

definition health :: "string \<Rightarrow> string + (string + unit) \<Rightarrow> http_response" where
  "health version blocked =
     (case blocked of
        Inr (Inr _) \<Rightarrow> HealthOk version
      | Inr (Inl db_err) \<Rightarrow> HealthFailed db_err
      | Inl block_err \<Rightarrow> HealthFailed block_err)"

definition rest_version :: "string \<Rightarrow> http_request \<Rightarrow> app_state \<Rightarrow> http_response \<times> app_state" where
  "rest_version pkg_version req st =
     (case rate_limit req st of
        (Some response, st) \<Rightarrow> (response, st)
      | (None, st) \<Rightarrow> (VersionResponse pkg_version, st))"

definition rest_send :: "rest_event_message \<Rightarrow> app_state \<Rightarrow> (unit + unit) \<times> app_state" where
  "rest_send msg st =
     (let (r, c) = chan_send msg (msg_from_rest_api st) in (r, st\<lparr>msg_from_rest_api := c\<rparr>))"

text \<open>A panic in \<open>decode_hexstr\<close> ends the handler; the state is as the calls before it left it.\<close>

definition broadcast_tx ::
  "ext_lib \<Rightarrow> string \<Rightarrow> http_request \<Rightarrow> app_state \<Rightarrow> http_response outcome \<times> app_state" where
  "broadcast_tx L hexstr req st =
     (case rate_limit req st of
        (Some response, st) \<Rightarrow> (Ret response, st)
      | (None, st) \<Rightarrow>
          (case authorize req (as_api_key st) of
             Some response \<Rightarrow> (Ret response, st)
           | None \<Rightarrow>
               if tx_hex_exceeds_limit (length hexstr) (as_max_broadcast_tx_bytes st)
               then (Ret (BroadcastTxResponse ''Failed''
                       (''Transaction exceeds maximum broadcast size of '' @
                        show_nat (as_max_broadcast_tx_bytes st) @ '' bytes'')), st)
               else
                 (case decode_hexstr hexstr of
                    Panic \<Rightarrow> (Panic, st)
                  | Ret (Inl _) \<Rightarrow> (Ret (BroadcastTxResponse ''Failed'' ''Failed to decode hex''), st)
                  | Ret (Inr bytes) \<Rightarrow>
                      (case tx_read L bytes of
                         None \<Rightarrow> (Ret (BroadcastTxResponse ''Failed'' ''Failed to convert hex to tx''), st)
                       | Some t \<Rightarrow>
                           let hash = hash_encode L (tx_hash L t)
                           in case rest_send (TxForBroadcast t) st of
                                (Inl _, st) \<Rightarrow>
                                  (Ret (BroadcastTxResponse ''Failed'' ''Service unavailable''), st)
                              | (Inr _, st) \<Rightarrow> (Ret (BroadcastTxResponse ''Success'' hash), st)))))"

definition rest_add_monitor :: "collection_config \<Rightarrow> http_request \<Rightarrow> app_state \<Rightarrow> http_response \<times> app_state" where
  "rest_add_monitor cc req st =
     (case rate_limit req st of
        (Some response, st) \<Rightarrow> (response, st)
      | (None, st) \<Rightarrow>
          (case authorize req (as_api_key st) of
             Some response \<Rightarrow> (response, st)
           | None \<Rightarrow>
               (case rest_send (AddMonitor cc) st of
                  (Inl _, st) \<Rightarrow> (ServiceUnavailable ''Service unavailable'', st)
                | (Inr _, st) \<Rightarrow> (OkEmpty, st))))"

definition rest_delete_monitor :: "string \<Rightarrow> http_request \<Rightarrow> app_state \<Rightarrow> http_response \<times> app_state" where
  "rest_delete_monitor monitor_name req st =
     (case rate_limit req st of
        (Some response, st) \<Rightarrow> (response, st)
      | (None, st) \<Rightarrow>
          (case authorize req (as_api_key st) of
             Some response \<Rightarrow> (response, st)
           | None \<Rightarrow>
               (case rest_send (DeleteMonitor monitor_name) st of
                  (Inl _, st) \<Rightarrow> (ServiceUnavailable ''Service unavailable'', st)
                | (Inr _, st) \<Rightarrow> (OkEmpty, st))))"

section \<open>Facts\<close>

definition rest_msgs :: "app_state \<Rightarrow> rest_event_message list" where
  "rest_msgs st = sent (msg_from_rest_api st)"

lemma rate_limit_frame [simp]:
  "msg_from_rest_api (snd (rate_limit req st)) = msg_from_rest_api st"
  "as_api_key (snd (rate_limit req st)) = as_api_key st"
  "as_max_broadcast_tx_bytes (snd (rate_limit req st)) = as_max_broadcast_tx_bytes st"
  by (simp_all add: rate_limit_def split_def Let_def)

text \<open>A request passes when the limiter and the key let it.\<close>

definition passes :: "http_request \<Rightarrow> app_state \<Rightarrow> bool" where
  "passes req st \<longleftrightarrow> fst (rate_limit req st) = None \<and> authorize req (as_api_key st) = None"

lemma rest_send_alive:
  "rx_alive (msg_from_rest_api st) \<Longrightarrow>
   rest_send m st = (Inr (), st\<lparr>msg_from_rest_api := chan_sends [m] (msg_from_rest_api st)\<rparr>)"
  by (simp add: rest_send_def chan_send_def chan_sends_def)

lemma rest_send_dead: "\<not> rx_alive (msg_from_rest_api st) \<Longrightarrow> rest_send m st = (Inl (), st)"
  by (simp add: rest_send_def chan_send_def)

section \<open>Properties\<close>

definition sample_request :: http_request where
  "sample_request = \<lparr>rq_now = 0, rq_api_key = Some ''k'', rq_forwarded_for = None,
     rq_peer_addr = Some ''10.0.0.1'', rq_poisoned = False\<rparr>"

definition sample_app :: app_state where
  "sample_app = \<lparr>msg_from_rest_api = open_chan, as_api_key = Some ''k'', as_rate_limiter = rl_new 2,
     as_max_broadcast_tx_bytes = 10\<rparr>"

text \<open>
  A request that the rate limiter or the API key refuses changes nothing but the counts of
  the limiter: none of the three handlers that change the service sends a message, and the
  answer is the refusal.
\<close>

lemma refused_requests_send_nothing:
  assumes "\<not> passes req st"
  shows "rest_msgs (snd (broadcast_tx L hexstr req st)) = rest_msgs st \<and>
     rest_msgs (snd (rest_add_monitor cc req st)) = rest_msgs st \<and>
     rest_msgs (snd (rest_delete_monitor name req st)) = rest_msgs st \<and>
     fst (broadcast_tx L hexstr req st) \<in>
       {Ret (TooManyRequests ''Rate limit exceeded''), Ret (Unauthorized ''Unauthorized'')}"
proof -
  obtain r st' where r: "rate_limit req st = (r, st')" by (cases "rate_limit req st")
  have same: "msg_from_rest_api st' = msg_from_rest_api st" "as_api_key st' = as_api_key st"
    using rate_limit_frame [of req st] r by simp_all
  have limited: "x = TooManyRequests ''Rate limit exceeded''" if "r = Some x" for x
    using r that by (auto simp: rate_limit_def split_def Let_def split: if_splits)
  have denied: "x = Unauthorized ''Unauthorized''" if "authorize req (as_api_key st) = Some x" for x
    using that by (auto simp: authorize_def split: option.splits if_splits)
  consider x where "r = Some x" | x where "r = None" "authorize req (as_api_key st) = Some x"
    using assms r by (cases r) (auto simp: passes_def)
  then show ?thesis
  proof cases
    case 1
    then show ?thesis using r same limited
      by (simp add: broadcast_tx_def rest_add_monitor_def rest_delete_monitor_def rest_msgs_def)
  next
    case 2
    then show ?thesis using r same denied
      by (simp add: broadcast_tx_def rest_add_monitor_def rest_delete_monitor_def rest_msgs_def)
  qed
qed


end
