(* ===== verification/Thread_Manager.thy ===== *)
theory Thread_Manager
  imports Logic_Guarantees Thread_Tracker Peer_Events Rest_Api
begin

text \<open>
  The peer manager (\<open>rust/src/thread_manager.rs\<close>, the loop of \<open>rust/src/main.rs\<close>, and
  \<open>PeerConnection::new\<close> of \<open>rust/src/peer_connection.rs\<close>): the thread that takes the
  events of the peers and of the REST interface off their channels and makes the calls into
  the logic. Its state is the tracker of the threads, the logic, and the messages it has handed
  to a peer. A peer is a value of type \<open>'p\<close>.

  What happens outside is a list of rounds, one for each pass through the loop: the event that
  \<open>recv_timeout\<close> yields within 100 milliseconds, if any, the event \<open>try_recv\<close> finds, the
  clock, and the results of the calls made then. \<open>None\<close> as the result of the loop means that
  it is still running when the rounds given are over.
\<close>

section \<open>Threads\<close>

fun catch_unwind_logged :: "'a outcome \<Rightarrow> 'a option" where
  "catch_unwind_logged (Ret v) = Some v"
| "catch_unwind_logged Panic = None"

definition unwrap_or :: "'a \<Rightarrow> 'a option \<Rightarrow> 'a" where
  "unwrap_or d x = (case x of Some v \<Rightarrow> v | None \<Rightarrow> d)"

text \<open>\<open>connect\<close> stands for \<open>Peer::connect\<close>, with the address, port, network and user agent.\<close>

definition peer_connection_new ::
  "(string \<Rightarrow> 16 word \<Rightarrow> network \<Rightarrow> string \<Rightarrow> 'p) \<Rightarrow> string \<Rightarrow> config \<Rightarrow> string + 'p" where
  "peer_connection_new connect ip cf =
     (case get_network_settings cf of
        Inl err \<Rightarrow> Inl err
      | Inr settings \<Rightarrow>
          (case get_network cf of
             Inl err \<Rightarrow> Inl err
           | Inr network \<Rightarrow> Inr (connect ip (ns_port settings) network (sv_user_agent (cf_service cf)))))"

definition create_thread ::
  "(string \<Rightarrow> 16 word \<Rightarrow> network \<Rightarrow> string \<Rightarrow> 'p) \<Rightarrow> instant \<Rightarrow> string \<Rightarrow> config \<Rightarrow>
   'p thread_tracker \<Rightarrow> 'p thread_tracker" where
  "create_thread connect now ip cf tt =
     (case get_network_settings cf of
        Inl _ \<Rightarrow> tt
      | Inr _ \<Rightarrow>
          (case peer_connection_new connect ip cf of
             Inl _ \<Rightarrow> tt
           | Inr peer \<Rightarrow>
               tt_add ip \<lparr>pt_thread = Some False, pt_peer = Some peer, pt_status = Started,
                          pt_running = True, pt_started_at = now\<rparr> tt))"

text \<open>
  The end of the thread: where waiting for messages panicked, the thread itself reports the
  peer as disconnected, which the library has then not done.
\<close>

definition thread_end ::
  "nat \<Rightarrow> string \<Rightarrow> unit outcome \<Rightarrow> peer_event_message chan \<Rightarrow> peer_event_message chan" where
  "thread_end time ip waited c =
     (let finished = (catch_unwind_logged waited \<noteq> None)
      in if \<not> finished
         then snd (chan_send \<lparr>pe_time = time, pe_peer = ip, pe_event = EvDisconnected\<rparr> c)
         else c)"

section \<open>Events\<close>

record ('d, 'db, 'p) manager =
  mg_tracker :: "'p thread_tracker"
  mg_logic :: "('d, 'db) logic"
  mg_to_peers :: "('p \<times> peer_msg) list"

record round =
  rd_peer :: "peer_event_message option"
  rd_rest :: "rest_event_message option"
  rd_now :: "u64 option"
  rd_rest_now :: "u64 option"
  rd_rnd :: "bool option"
  rd_prepared :: bool
  rd_date :: string
  rd_send_ok :: bool
  rd_writable :: bool

definition lg_on_connection ::
  "('db \<Rightarrow> 'db) \<Rightarrow> ('d, 'db) logic \<Rightarrow> ('d, 'db) logic" where
  "lg_on_connection f lg =
     (let s = lg_sys lg in lg\<lparr>lg_sys := s\<lparr>ta := (ta s)\<lparr>ta_db := f (ta_db (ta s))\<rparr>\<rparr>\<rparr>)"

definition process_event_inner ::
  "ext_lib \<Rightarrow> 'db db_env \<Rightarrow> 'd file_env \<Rightarrow> round \<Rightarrow> peer_event_message \<Rightarrow> ('d, 'db, 'p) manager \<Rightarrow>
   bool \<times> ('d, 'db, 'p) manager" where
  "process_event_inner L E F rd received m =
     (let ip = pe_peer received; lg = mg_logic m; tt = mg_tracker m; rnd = rd_rnd rd
      in case pe_event received of
           EvConnected _ \<Rightarrow>
             let tt = tt_set_status ip Thread_Tracker.Connected tt;
                 lg = set_state L rnd Logic.Connected lg;
                 lg = lg_on_connection (on_connect E (rd_prepared rd) (rd_date rd) ip) lg
             in (True, m\<lparr>mg_tracker := tt, mg_logic := lg\<rparr>)
         | EvDisconnected \<Rightarrow>
             let tt = tt_set_status ip Thread_Tracker.Disconnected tt;
                 lg = set_state L rnd Logic.Disconnected lg;
                 lg = lg_on_connection (on_disconnect E (rd_prepared rd) (rd_date rd) ip) lg;
                 tt = tt_stop ip tt;
                 tt = join_thread ip tt
             in (if all_finished tt then False else True, m\<lparr>mg_tracker := tt, mg_logic := lg\<rparr>)
         | EvTx t \<Rightarrow> (True, m\<lparr>mg_logic := lg_on_tx L E (rd_now rd) t False lg\<rparr>)
         | EvBlock b \<Rightarrow> (True, m\<lparr>mg_logic := lg_on_block L E F rnd (map_option unat (rd_now rd)) b lg\<rparr>)
         | EvAddr addrs \<Rightarrow> (True, m\<lparr>mg_logic := lg_on_addr E (rd_prepared rd) addrs lg\<rparr>)
         | EvHeaders _ \<Rightarrow> (True, m)
         | EvInv objects \<Rightarrow> (True, m\<lparr>mg_logic := lg_on_inv L rnd objects lg\<rparr>)
         | EvStop \<Rightarrow> (False, m\<lparr>mg_tracker := stop_all tt\<rparr>))"

definition process_event ::
  "ext_lib \<Rightarrow> 'db db_env \<Rightarrow> 'd file_env \<Rightarrow> round \<Rightarrow> peer_event_message \<Rightarrow> ('d, 'db, 'p) manager \<Rightarrow>
   bool \<times> ('d, 'db, 'p) manager" where
  "process_event L E F rd received m =
     (let (keep, m) = process_event_inner L E F rd received m
      in (unwrap_or True (catch_unwind_logged (Ret keep)), m))"

definition peer_send :: "peer_msg \<Rightarrow> ('d, 'db, 'p) manager \<Rightarrow> ('d, 'db, 'p) manager" where
  "peer_send msg m =
     (case get_connected_peer (mg_tracker m) of
        Some peer \<Rightarrow> m\<lparr>mg_to_peers := mg_to_peers m @ [(peer, msg)]\<rparr>
      | None \<Rightarrow> m)"

text \<open>The first half of a round: an event of a peer, and the messages the logic then has to send.\<close>

definition peer_half ::
  "ext_lib \<Rightarrow> 'db db_env \<Rightarrow> 'd file_env \<Rightarrow> round \<Rightarrow> peer_event_message \<Rightarrow> ('d, 'db, 'p) manager \<Rightarrow>
   bool \<times> ('d, 'db, 'p) manager" where
  "peer_half L E F rd received m =
     (let (keep_looping, m) = process_event L E F rd received m;
          (msgs, lg) = message_to_send (mg_logic m);
          m = m\<lparr>mg_logic := lg\<rparr>
      in (keep_looping, fold peer_send msgs m))"

text \<open>
  The second half: an event of the REST interface. \<open>rd_send_ok\<close> is whether \<open>send\<close> to the peer
  succeeds for a transaction to broadcast.
\<close>

definition broadcast_half ::
  "ext_lib \<Rightarrow> 'db db_env \<Rightarrow> round \<Rightarrow> tx \<Rightarrow> ('d, 'db, 'p) manager \<Rightarrow> ('d, 'db, 'p) manager" where
  "broadcast_half L E rd t m =
     (if lg_tx_exists (mg_logic m) (tx_hash L t) then m
      else case get_connected_peer (mg_tracker m) of
             None \<Rightarrow> m
           | Some peer \<Rightarrow>
               let m = m\<lparr>mg_to_peers := mg_to_peers m @ [(peer, MsgTx t)]\<rparr>
               in if \<not> rd_send_ok rd then m
                  else let lg = lg_on_tx L E (rd_rest_now rd) t True (mg_logic m);
                           lg = lg_flush_database_cache lg
                       in m\<lparr>mg_logic := lg\<rparr>)"

definition rest_half ::
  "ext_lib \<Rightarrow> 'db db_env \<Rightarrow> round \<Rightarrow> rest_event_message \<Rightarrow> ('d, 'db, 'p) manager \<Rightarrow>
   ('d, 'db, 'p) manager" where
  "rest_half L E rd event m =
     (case event of
        TxForBroadcast t \<Rightarrow> broadcast_half L E rd t m
      | AddMonitor monitor \<Rightarrow> m\<lparr>mg_logic := lg_monitor (add_monitor L (rd_writable rd) monitor) (mg_logic m)\<rparr>
      | DeleteMonitor monitor_name \<Rightarrow>
          m\<lparr>mg_logic := lg_monitor (delete_monitor (rd_writable rd) monitor_name) (mg_logic m)\<rparr>)"

section \<open>The loops\<close>

text \<open>\<open>process_messages\<close>: the flag is \<open>should_stop\<close> as it stands before the round.\<close>

fun process_rounds ::
  "ext_lib \<Rightarrow> 'db db_env \<Rightarrow> 'd file_env \<Rightarrow> round list \<Rightarrow> bool \<Rightarrow> ('d, 'db, 'p) manager \<Rightarrow>
   bool option \<times> ('d, 'db, 'p) manager" where
  "process_rounds L E F [] should_stop m = (None, m)"
| "process_rounds L E F (rd # rds) should_stop m =
     (let (should_stop, keep_looping, m) =
            (case rd_peer rd of
               Some received \<Rightarrow>
                 let (keep, m) = peer_half L E F rd received m in (pe_event received = EvStop, keep, m)
             | None \<Rightarrow> (should_stop, True, m));
          m = (case rd_rest rd of Some event \<Rightarrow> rest_half L E rd event m | None \<Rightarrow> m)
      in if keep_looping then process_rounds L E F rds should_stop m else (Some should_stop, m))"

definition process_messages ::
  "ext_lib \<Rightarrow> 'db db_env \<Rightarrow> 'd file_env \<Rightarrow> round list \<Rightarrow> ('d, 'db, 'p) manager \<Rightarrow>
   bool option \<times> ('d, 'db, 'p) manager" where
  "process_messages L E F rds m = process_rounds L E F rds False m"

text \<open>
  The peer manager's thread in \<open>main.rs\<close>: the addresses in turn, over and over, one thread at
  a time. Each session has the time its thread starts and its own rounds; \<open>n\<close> counts them.
\<close>

fun peer_manager ::
  "ext_lib \<Rightarrow> 'db db_env \<Rightarrow> 'd file_env \<Rightarrow> (string \<Rightarrow> 16 word \<Rightarrow> network \<Rightarrow> string \<Rightarrow> 'p) \<Rightarrow> config \<Rightarrow>
   string list \<Rightarrow> nat \<Rightarrow> (instant \<times> round list) list \<Rightarrow> ('d, 'db, 'p) manager \<Rightarrow> ('d, 'db, 'p) manager" where
  "peer_manager L E F connect cf ips n [] m = m"
| "peer_manager L E F connect cf ips n ((now, rds) # sessions) m =
     (if ips = [] then m
      else
        let ip = ips ! (n mod length ips);
            m = m\<lparr>mg_tracker := create_thread connect now ip cf (mg_tracker m)\<rparr>;
            (quit, m) = process_messages L E F rds m
        in case quit of
             Some True \<Rightarrow> m
           | Some False \<Rightarrow> peer_manager L E F connect cf ips (n + 1) sessions m
           | None \<Rightarrow> m)"

text \<open>The limit on the size of a request that \<open>run\<close> gives the web server.\<close>

definition payload_limit :: "usize \<Rightarrow> usize" where
  "payload_limit max_broadcast_tx_bytes = max (min (max_broadcast_tx_bytes * 2) (2 ^ 64 - 1)) 1024"

section \<open>Starting the service\<close>

text \<open>
  \<open>run\<close> up to the start of the peer manager's thread. \<open>cfg\<close> is what \<open>get_config\<close> returned,
  \<open>logger\<close> and \<open>pool\<close> the results of initialising the logger and of opening the pool, \<open>parse\<close>
  the parser of addresses, and the others are the arguments of \<open>lg_new\<close> and \<open>lg_setup\<close>. What it
  hands on is the state of the web server, the manager, and the addresses.
\<close>

definition run_start ::
  "ext_lib \<Rightarrow> 'db db_env \<Rightarrow> 'd file_env \<Rightarrow> (string \<Rightarrow> string option) \<Rightarrow> string + config \<Rightarrow> string + unit \<Rightarrow>
   string + unit \<Rightarrow> bool \<times> bool \<times> bool \<times> bool \<Rightarrow> bool \<times> bool \<times> bool \<times> bool \<Rightarrow> dyn_file \<Rightarrow> setup_rows \<Rightarrow>
   'db \<Rightarrow> 'd \<Rightarrow> string + app_state \<times> config \<times> ('d, 'db, 'p) manager \<times> string list" where
  "run_start L E F parse cfg logger pool conns ta_conns file rows db disk =
     (case cfg of Inl e \<Rightarrow> Inl e | Inr cf \<Rightarrow>
     (case logger of Inl err \<Rightarrow> Inl (''failed to initialize logger: '' @ err) | Inr _ \<Rightarrow>
     (case validate_startup L parse cf of Inl e \<Rightarrow> Inl e | Inr _ \<Rightarrow>
        let rate_limiter = rl_new (wi_rate_limit_per_minute (cf_web_interface cf));
            max_broadcast_tx_bytes = wi_max_broadcast_tx_bytes (cf_web_interface cf)
        in (case pool of
              Inl err \<Rightarrow> Inl (''Problem connecting to database. Check database is connected and database connection configuration is correct: '' @ err)
            | Inr _ \<Rightarrow>
                let app = \<lparr>msg_from_rest_api = open_chan, as_api_key = wi_api_key (cf_web_interface cf),
                           as_rate_limiter = rate_limiter, as_max_broadcast_tx_bytes = max_broadcast_tx_bytes\<rparr>
                in (case lg_new L cf conns ta_conns file db disk of Inl e \<Rightarrow> Inl e | Inr lg \<Rightarrow>
                      let lg = lg_setup L E F rows lg;
                          children = tt_new
                      in (case get_ips parse cf of Inl e \<Rightarrow> Inl e | Inr ips \<Rightarrow>
                            Inr (app, cf, \<lparr>mg_tracker = children, mg_logic = lg, mg_to_peers = []\<rparr>, ips)))))))"

end
