(* ===== verification/Manager_Guarantees.thy ===== *)
theory Manager_Guarantees
  imports Thread_Manager
begin

text \<open>
  What the peer manager keeps and guarantees: the invariant of the logic under everything that
  peers and clients send, how its loop ends, and what becomes of a transaction to broadcast.
\<close>

section \<open>What the calls into the logic keep\<close>

lemma peer_send_frame [simp]:
  "mg_logic (peer_send msg m) = mg_logic m" "mg_tracker (peer_send msg m) = mg_tracker m"
  by (simp_all add: peer_send_def split: option.split)

lemma fold_peer_send_frame [simp]:
  "mg_logic (fold peer_send msgs m) = mg_logic m" "mg_tracker (fold peer_send msgs m) = mg_tracker m"
  by (induction msgs arbitrary: m) simp_all

lemma process_event_eq [simp]: "process_event L E F rd received m = process_event_inner L E F rd received m"
  by (simp add: process_event_def unwrap_or_def split_def)

lemma peer_half_sel:
  "fst (peer_half L E F rd received m) = fst (process_event_inner L E F rd received m)"
  "mg_logic (snd (peer_half L E F rd received m)) =
     snd (message_to_send (mg_logic (snd (process_event_inner L E F rd received m))))"
  "mg_tracker (snd (peer_half L E F rd received m)) = mg_tracker (snd (process_event_inner L E F rd received m))"
  by (simp_all add: peer_half_def Let_def split_def)

text \<open>One round, cut into its halves.\<close>

definition peer_part ::
  "ext_lib \<Rightarrow> 'db db_env \<Rightarrow> 'd file_env \<Rightarrow> round \<Rightarrow> ('d, 'db, 'p) manager \<Rightarrow> bool \<times> ('d, 'db, 'p) manager" where
  "peer_part L E F rd m =
     (case rd_peer rd of Some received \<Rightarrow> peer_half L E F rd received m | None \<Rightarrow> (True, m))"

definition rest_part ::
  "ext_lib \<Rightarrow> 'db db_env \<Rightarrow> round \<Rightarrow> ('d, 'db, 'p) manager \<Rightarrow> ('d, 'db, 'p) manager" where
  "rest_part L E rd m = (case rd_rest rd of Some event \<Rightarrow> rest_half L E rd event m | None \<Rightarrow> m)"

definition stop_after :: "round \<Rightarrow> bool \<Rightarrow> bool" where
  "stop_after rd stop = (case rd_peer rd of Some received \<Rightarrow> pe_event received = EvStop | None \<Rightarrow> stop)"

lemma process_rounds_Cons:
  "process_rounds L E F (rd # rds) stop m =
     (let (keep, m') = peer_part L E F rd m; m'' = rest_part L E rd m'
      in if keep then process_rounds L E F rds (stop_after rd stop) m'' else (Some (stop_after rd stop), m''))"
  by (simp add: peer_part_def rest_part_def stop_after_def split_def Let_def split: option.split)

declare process_rounds.simps(2) [simp del]
declare process_rounds_Cons [simp]

text \<open>
  The manager changes the logic by its events and through the connection that logs connects and
  disconnects. A property of the logic and of the blocks taken so far that a block carries on to
  the next, and that no other call disturbs, is carried on by every round.
\<close>

definition event_blocks :: "peer_event_type \<Rightarrow> block list" where
  "event_blocks event = (case event of EvBlock b \<Rightarrow> [b] | _ \<Rightarrow> [])"

definition round_blocks :: "round \<Rightarrow> block list" where
  "round_blocks rd = (case rd_peer rd of Some received \<Rightarrow> event_blocks (pe_event received) | None \<Rightarrow> [])"

locale block_follower =
  fixes L :: ext_lib
    and E :: "'db db_env"
    and F :: "'d file_env"
    and Q :: "block list \<Rightarrow> ('d, 'db) logic \<Rightarrow> bool"
  assumes block_taken: "Q bs lg \<Longrightarrow> Q (bs @ [b]) (lg_on_block L E F rnd snow b lg)"
    and step_same: "Q bs lg \<Longrightarrow> (\<And>snow b. ev \<noteq> On_Block snow b) \<Longrightarrow> Q bs (lg_step L E F rnd ev lg)"
    and log_same: "Q bs lg \<Longrightarrow> Q bs (lg_on_connection f lg)"
begin

lemma ops_same:
  assumes "Q bs lg"
  shows "Q bs (set_state L rnd st lg)" and "Q bs (lg_on_tx L E now t br lg)"
    and "Q bs (lg_on_inv L rnd objects lg)" and "Q bs (lg_on_addr E prepared addrs lg)"
    and "Q bs (lg_flush_database_cache lg)" and "Q bs (snd (message_to_send lg))"
    and "Q bs (lg_monitor (add_monitor L w mon) lg)" and "Q bs (lg_monitor (delete_monitor w name) lg)"
  using step_same [OF assms, of "Set_State st" rnd] step_same [OF assms, of "On_Tx now t br" rnd]
    step_same [OF assms, of "On_Inv objects" rnd] step_same [OF assms, of "On_Addr prepared addrs" rnd]
    step_same [OF assms, of Flush rnd] step_same [OF assms, of Take_Messages rnd]
    step_same [OF assms, of "Monitor_Added w mon" rnd] step_same [OF assms, of "Monitor_Deleted w name" rnd]
  by simp_all

lemma process_event_inner_follows:
  "Q bs (mg_logic m) \<Longrightarrow>
   Q (bs @ event_blocks (pe_event received)) (mg_logic (snd (process_event_inner L E F rd received m)))"
  by (cases "pe_event received")
    (simp_all add: process_event_inner_def event_blocks_def Let_def block_taken log_same ops_same)

lemma peer_part_follows:
  "Q bs (mg_logic m) \<Longrightarrow> Q (bs @ round_blocks rd) (mg_logic (snd (peer_part L E F rd m)))"
  by (simp add: peer_part_def peer_half_sel round_blocks_def ops_same process_event_inner_follows split: option.split)

lemma rest_part_follows: "Q bs (mg_logic m) \<Longrightarrow> Q bs (mg_logic (rest_part L E rd m))"
  by (simp add: rest_part_def rest_half_def broadcast_half_def Let_def ops_same split: option.split rest_event_message.split)

end

text \<open>What every event keeps, the blocks aside, every round keeps.\<close>

locale logic_kept =
  fixes L :: ext_lib
    and E :: "'db db_env"
    and F :: "'d file_env"
    and Q :: "('d, 'db) logic \<Rightarrow> bool"
  assumes step_kept: "Q lg \<Longrightarrow> Q (lg_step L E F rnd ev lg)"
    and log_kept: "Q lg \<Longrightarrow> Q (lg_on_connection f lg)"

sublocale logic_kept < following: block_follower L E F "\<lambda>_. Q"
proof unfold_locales
  fix lg :: "('d, 'db) logic" and rnd snow b
  show "Q lg \<Longrightarrow> Q (lg_on_block L E F rnd snow b lg)" using step_kept [of lg rnd "On_Block snow b"] by simp
qed (rule step_kept log_kept; assumption)+

text \<open>What the analyser and its channel keep, so keeps the manager, as long as the blocks are good.\<close>

sublocale guarded_channel < guarding: block_follower L E F "\<lambda>bs lg. list_all G bs \<longrightarrow> guarded_sys (lg_sys lg)"
  for F :: "'d file_env"
proof unfold_locales
  fix bs ev rnd and lg :: "('d, 'db) logic"
  assume "list_all G bs \<longrightarrow> guarded_sys (lg_sys lg)" and "\<And>snow b. ev \<noteq> On_Block snow b"
  then show "list_all G bs \<longrightarrow> guarded_sys (lg_sys (lg_step L E F rnd ev lg))"
    using lg_step_kept [of lg ev F rnd] by blast
qed (simp add: lg_on_block_kept, simp add: guarded_sys_def lg_on_connection_def Let_def connection_kept)

sublocale channel_kept < in_logic: logic_kept L E F "\<lambda>lg. sys_kept (lg_sys lg)" for F :: "'d file_env"
proof unfold_locales
  fix lg :: "('d, 'db) logic" and rnd ev
  show "sys_kept (lg_sys lg) \<Longrightarrow> sys_kept (lg_sys (lg_step L E F rnd ev lg))" by (rule lg_step_kept)
  show "sys_kept (lg_sys lg) \<Longrightarrow> sys_kept (lg_sys (lg_on_connection f lg))" for f
    using connection_kept by (simp add: sys_kept_def lg_on_connection_def Let_def)
qed

text \<open>
  The invariant of the logic; and the messages that wait for a peer, among which no transaction is.
\<close>

lemma lg_on_connection_inv: "lg_inv L t0 lg \<Longrightarrow> lg_inv L t0 (lg_on_connection f lg)"
  by (simp add: lg_inv_def lg_on_connection_def Let_def sys_synced_def ta_synced_def)

interpretation in_step: logic_kept L E F "\<lambda>lg. hash_codec_ok L \<longrightarrow> lg_inv L t0 lg" for t0
  by unfold_locales (auto intro: lg_step_inv lg_on_connection_inv)

fun is_tx_msg :: "peer_msg \<Rightarrow> bool" where
  "is_tx_msg (MsgTx _) = True"
| "is_tx_msg _ = False"

lemma next_request_no_tx: "list_all (\<lambda>msg. \<not> is_tx_msg msg) (next_request L known ivs)"
  by (simp add: next_request_def split: list.split option.split)

interpretation no_tx_waits: logic_kept L E F "\<lambda>lg. list_all (\<lambda>msg. \<not> is_tx_msg msg) (send_message_queue lg)"
proof
  fix lg :: "('b, 'a) logic" and rnd ev
  assume "list_all (\<lambda>msg. \<not> is_tx_msg msg) (send_message_queue lg)"
  then show "list_all (\<lambda>msg. \<not> is_tx_msg msg) (send_message_queue (lg_step L E F rnd ev lg))"
    by (cases ev) (simp_all add: set_state_def lg_on_tx_eq lg_on_block_sel(3) lg_on_inv_def push_message_def
        lg_on_addr_def lg_flush_database_cache_def message_to_send_def lg_monitor_def Let_def split_def next_request_no_tx)
qed (simp add: lg_on_connection_def Let_def)

section \<open>How the loop ends\<close>

lemma rest_half_tracker [simp]: "mg_tracker (rest_half L E rd event m) = mg_tracker m"
  by (cases event) (simp_all add: rest_half_def broadcast_half_def Let_def split: option.split)

lemma rest_part_tracker [simp]: "mg_tracker (rest_part L E rd m) = mg_tracker m"
  by (simp add: rest_part_def split: option.split)

text \<open>A round ends the loop with a stop, or with the last thread.\<close>

lemma peer_part_ends:
  assumes "\<not> fst (peer_part L E F rd m)"
  shows "(stop_after rd stop \<and> (\<forall>ip p. hm_get (children (mg_tracker (snd (peer_part L E F rd m)))) ip = Some p \<longrightarrow> \<not> pt_running p)) \<or>
    (\<not> stop_after rd stop \<and> all_finished (mg_tracker (snd (peer_part L E F rd m))))"
proof -
  obtain received where rd: "rd_peer rd = Some received" and e: "\<not> fst (process_event_inner L E F rd received m)"
    using assms by (cases "rd_peer rd") (auto simp: peer_part_def peer_half_sel)
  then consider "pe_event received = EvStop" | "pe_event received = EvDisconnected"
    by (cases "pe_event received") (auto simp: process_event_inner_def Let_def)
  then show ?thesis
  proof cases
    case 1
    then show ?thesis
      by (auto simp: rd peer_part_def stop_after_def peer_half_sel process_event_inner_def Let_def stop_all_get)
  next
    case 2
    then show ?thesis
      using e by (simp add: rd peer_part_def stop_after_def peer_half_sel process_event_inner_def Let_def split: if_splits)
  qed
qed

lemma peer_part_stop:
  "rd_peer rd = Some received \<Longrightarrow> pe_event received = EvStop \<Longrightarrow> \<not> fst (peer_part L E F rd m)"
  by (simp add: peer_part_def peer_half_sel process_event_inner_def Let_def)

text \<open>
  C21: The loop over messages ends with every stop, and where it ends, it says which way: with
  the request to quit every thread has been told to stop, and without it every thread has
  finished, so that the next address is tried only when no connection is left.
\<close>

theorem process_messages_ends:
  "let (quit, m') = process_messages L E F rds m in
     (list_ex (\<lambda>rd. case rd_peer rd of Some received \<Rightarrow> pe_event received = EvStop | None \<Rightarrow> False) rds
        \<longrightarrow> quit \<noteq> None) \<and>
     (quit = Some True \<longrightarrow> (\<forall>ip p. hm_get (children (mg_tracker m')) ip = Some p \<longrightarrow> \<not> pt_running p)) \<and>
     (quit = Some False \<longrightarrow> all_finished (mg_tracker m'))"
proof -
  have "(list_ex (\<lambda>rd. case rd_peer rd of Some received \<Rightarrow> pe_event received = EvStop | None \<Rightarrow> False) rds
      \<longrightarrow> fst (process_rounds L E F rds stop m) \<noteq> None) \<and>
    (fst (process_rounds L E F rds stop m) = Some True \<longrightarrow>
       (\<forall>ip p. hm_get (children (mg_tracker (snd (process_rounds L E F rds stop m)))) ip = Some p \<longrightarrow> \<not> pt_running p)) \<and>
    (fst (process_rounds L E F rds stop m) = Some False \<longrightarrow>
       all_finished (mg_tracker (snd (process_rounds L E F rds stop m))))" for stop
  proof (induction rds arbitrary: stop m)
    case Nil
    then show ?case by simp
  next
    case (Cons rd rds)
    show ?case
    proof (cases "fst (peer_part L E F rd m)")
      case True
      then have "\<not> (case rd_peer rd of Some received \<Rightarrow> pe_event received = EvStop | None \<Rightarrow> False)"
        by (auto simp: peer_part_stop split: option.split)
      then show ?thesis using True Cons [of "stop_after rd stop" "rest_part L E rd (snd (peer_part L E F rd m))"]
        by (simp add: split_def Let_def)
    next
      case False
      then show ?thesis using peer_part_ends [OF False, of stop]
        by (auto simp: split_def Let_def)
    qed
  qed
  from this [of False] show ?thesis
    by (auto simp: process_messages_def split: prod.split)
qed

definition sample_manager :: "(unit, sql_stmt list, nat) manager" where
  "sample_manager = \<lparr>mg_tracker = tt_add ''ip'' \<lparr>pt_thread = Some False, pt_peer = Some 7,
     pt_status = Started, pt_running = True, pt_started_at = 0\<rparr> tt_new,
     mg_logic = sample_lg\<lparr>lg_sys := sample_sys\<lparr>bm := sample_bm\<lparr>start_block_hash := sample_encode 1\<rparr>\<rparr>\<rparr>,
     mg_to_peers = []\<rparr>"

definition sample_round :: "peer_event_type option \<Rightarrow> rest_event_message option \<Rightarrow> round" where
  "sample_round ev rest = \<lparr>rd_peer = map_option (\<lambda>e. \<lparr>pe_time = 0, pe_peer = ''ip'', pe_event = e\<rparr>) ev,
     rd_rest = rest, rd_now = Some 9, rd_rest_now = Some 9, rd_rnd = None, rd_prepared = True,
     rd_date = ''now'', rd_send_ok = True, rd_writable = True\<rparr>"

theorem process_messages_ends_witness:
  "fst (process_messages sample_lib log_env sample_file
     [sample_round (Some (EvConnected ''x'')) None, sample_round (Some EvStop) None] sample_manager) \<noteq> None"
  using process_messages_ends [of sample_lib log_env sample_file
      "[sample_round (Some (EvConnected ''x'')) None, sample_round (Some EvStop) None]" sample_manager]
  by (auto simp: sample_round_def split: prod.splits)

section \<open>Connections\<close>



text \<open>
  C19: When a peer connects, exactly the messages that waited and then one request go to the
  peer that is connected, in that order: for the next block of the inventory, or for more
  blocks after the last known one. Nothing is left waiting.
\<close>

theorem connect_requests_blocks:
  assumes codec: "hash_codec_ok L" and start: "hash_decode L (start_block_hash (bm (lg_sys (mg_logic m)))) \<noteq> None"
    and ok: "inventory_ok (block_inventory (mg_logic m))" and rnd: "rd_rnd rd = None"
    and ev: "pe_event received = EvConnected detail"
    and peer: "get_connected_peer (tt_set_status (pe_peer received) Thread_Tracker.Connected (mg_tracker m)) = Some p"
  shows "\<exists>request. mg_to_peers (snd (peer_half L E F rd received m)) =
      mg_to_peers m @ map (Pair p) (send_message_queue (mg_logic m) @ [request]) \<and>
    (case block_inventory (mg_logic m) of
       entries # _ \<Rightarrow> request = MsgGetData [hd entries]
     | [] \<Rightarrow> (\<exists>h. request = MsgGetBlocks [h])) \<and>
    send_message_queue (mg_logic (snd (peer_half L E F rd received m))) = []"
proof -
  let ?lg = "mg_logic m"
  obtain h where "hash_decode L (bm_get_last_known_block_hash L (bm (lg_sys ?lg))) = Some h"
    using start by (rule last_known_decodes [OF codec])
  then have "\<exists>request. next_request L (lg_get_last_known_block_hash L None ?lg) (block_inventory ?lg) = [request] \<and>
      (case block_inventory ?lg of
         entries # _ \<Rightarrow> request = MsgGetData [hd entries]
       | [] \<Rightarrow> (\<exists>h. request = MsgGetBlocks [h]))"
    using ok by (auto simp: next_request_def lg_get_last_known_block_hash_def inventory_ok_def split: list.splits)
  then obtain request where req: "next_request L (lg_get_last_known_block_hash L None ?lg) (block_inventory ?lg) = [request]"
    "case block_inventory ?lg of entries # _ \<Rightarrow> request = MsgGetData [hd entries] | [] \<Rightarrow> (\<exists>h. request = MsgGetBlocks [h])"
    by blast
  have "drop_received None (block_inventory ?lg) = block_inventory ?lg" using ok by (simp add: drop_received_def)
  then have queue: "send_message_queue (mg_logic (snd (process_event_inner L E F rd received m))) =
      send_message_queue ?lg @ [request]"
    by (simp add: process_event_inner_def ev Let_def lg_on_connection_def set_state_def rnd req(1))
  have sent: "mg_to_peers (fold peer_send msgs n) = mg_to_peers n @ map (Pair p) msgs"
    if "get_connected_peer (mg_tracker n) = Some p" for msgs and n :: "('a, 'b, 'c) manager"
    using that by (induction msgs arbitrary: n) (simp_all add: peer_send_def)
  have "mg_to_peers (snd (peer_half L E F rd received m)) = mg_to_peers m @ map (Pair p) (send_message_queue ?lg @ [request])"
    using peer queue
    by (simp add: peer_half_def Let_def split_def message_to_send_def sent peer_send_def
        process_event_inner_def [of L E F rd received m] ev)
  moreover have "send_message_queue (mg_logic (snd (peer_half L E F rd received m))) = []"
    by (simp add: peer_half_sel message_to_send_def)
  ultimately show ?thesis using req(2) by blast
qed

theorem connect_requests_blocks_witness:
  "\<exists>request. mg_to_peers (snd (peer_half sample_lib log_env sample_file (sample_round None None)
     \<lparr>pe_time = 0, pe_peer = ''ip'', pe_event = EvConnected ''x''\<rparr> sample_manager)) = [(7, request)]"
  using connect_requests_blocks [of sample_lib sample_manager "sample_round None None"
      "\<lparr>pe_time = 0, pe_peer = ''ip'', pe_event = EvConnected ''x''\<rparr>" "''x''" 7 log_env sample_file]
  by (auto simp: sample_manager_def sample_lg_def sample_sys_def sample_decode_encode inventory_ok_def sample_round_def
      tt_add_def tt_new_def tt_set_status_def hm_get_def hm_modify_def get_connected_peer_def hm_values_def)

section \<open>Broadcasting\<close>

lemma broadcast_known:
  assumes "tx_write L t = Some bytes"
  shows "lg_tx_exists (lg_flush_database_cache (lg_on_tx L E now t br lg)) (tx_hash L t)"
proof -
  let ?r = "process_standalone_tx L E now t br (ta (lg_sys lg)) (ch (lg_sys lg))"
  have "hm_contains (mempool (ta_txdb (fst ?r))) (tx_hash L t)"
    using assms by (simp add: standalone_fields add_to_mempool_def Let_def)
  then have "hm_contains (mempool (ta_txdb (ta (lg_sys (lg_on_tx L E now t br lg))))) (tx_hash L t)"
    by (cases "?r") (simp add: lg_on_tx_eq Let_def utxo_update_db_eq split_def)
  then show ?thesis
    by (simp add: lg_tx_exists_def ta_tx_exists_def txdb_tx_exists_def lg_flush_eq ta_flush_database_cache_eq)
qed

text \<open>
  C20: A transaction to broadcast goes to the connected peer at most once. It is dropped without
  a trace where it is known already or no peer is connected, whatever the client was told;
  where sending it fails, the logic does not learn of it; and where it succeeds, it is known from then on,
  so that another broadcast of it changes nothing.
\<close>

theorem broadcast_once:
  assumes bytes: "tx_write L t = Some bytes"
  shows "let m' = rest_half L E rd (TxForBroadcast t) m; peer = get_connected_peer (mg_tracker m);
       known = lg_tx_exists (mg_logic m) (tx_hash L t) in
     (known \<or> peer = None \<longrightarrow> m' = m) \<and>
     (\<not> rd_send_ok rd \<longrightarrow> mg_logic m' = mg_logic m) \<and>
     (\<not> known \<and> peer \<noteq> None \<longrightarrow> mg_to_peers m' = mg_to_peers m @ [(the peer, MsgTx t)]) \<and>
     (\<not> known \<and> peer \<noteq> None \<and> rd_send_ok rd \<longrightarrow>
        lg_tx_exists (mg_logic m') (tx_hash L t) \<and> rest_half L E rd' (TxForBroadcast t) m' = m')"
  using broadcast_known [OF bytes] by (auto simp: rest_half_def broadcast_half_def Let_def split: option.splits)

theorem broadcast_once_witness:
  "rest_half sample_lib log_env (sample_round None None) (TxForBroadcast sample_tx) sample_manager = sample_manager"
  using broadcast_once [of sample_lib sample_tx "[1, 5]" log_env "sample_round None None" sample_manager]
  by (auto simp: Let_def sample_tx_def sample_manager_def tt_add_def tt_new_def get_connected_peer_def hm_values_def)

section \<open>Starting\<close>

text \<open>
  C36: Given a logger, a database and connections, the service starts exactly with the
  configurations that pass the validation, and then it has at least one address to connect to
  and starts out with no thread and not ready; with any other it stops with the error of the
  validation.
\<close>

theorem start_iff_validated:
  "case run_start L E F parse (Inr cf) (Inr ()) (Inr ()) (True, True, True, True) (True, True, True, True) file rows db disk of
     Inr (app, cf', m, ips) \<Rightarrow> validate_startup L parse cf = Inr () \<and> cf' = cf \<and> ips \<noteq> [] \<and>
       all_finished (mg_tracker m) \<and> lg_state (mg_logic m) = Starting
   | Inl e \<Rightarrow> validate_startup L parse cf = Inl e"
proof (cases "validate_startup L parse cf")
  case (Inl e)
  then show ?thesis by (simp add: run_start_def)
next
  case (Inr u)
  then have "\<exists>settings ips start. get_network_settings cf = Inr settings \<and> ns_ip settings \<noteq> [] \<and>
        get_ips parse cf = Inr ips \<and> length ips = length (ns_ip settings) \<and>
        hash_decode L (ns_start_block_hash settings) = Some start"
    by (simp add: validate_startup_ok)
  then obtain settings ips start where cf: "get_network_settings cf = Inr settings" "ns_ip settings \<noteq> []"
      "get_ips parse cf = Inr ips" "length ips = length (ns_ip settings)"
      "hash_decode L (ns_start_block_hash settings) = Some start"
    by blast
  obtain net where "get_network cf = Inr net" using get_network_of_settings [OF cf(1)] by blast
  then show ?thesis
    using cf Inr by (auto simp: run_start_def lg_new_def ta_new_def bm_new_def pool_conn_def Let_def
        all_finished_def tt_new_def lg_setup_def)
qed

end
