(* ===== verification/Database_Guarantees.thy ===== *)
theory Database_Guarantees
  imports Tx_Sync "HOL-Library.Sublist"
begin

text \<open>
  The properties of the database writer: what becomes of the rows it is sent, what merging
  loses when operations arrive close together, and how often a statement is issued.
\<close>

section \<open>Rows\<close>

lemma coalesce_drop_short: "length (coalesce_drop sel q) \<le> 1"
  by (induction sel q rule: coalesce_drop.induct) (auto split: option.split)

lemma merge_drop_short: "length (merge_drop oper q) \<le> 1"
  by (cases oper) (simp_all add: coalesce_drop_short del: One_nat_def)

lemma worker_drops_few: "length (worker_dropped q) \<le> length (worker_trace q)"
proof (induction q rule: worker_trace.induct)
  case (3 oper q)
  then show ?case using merge_drop_short [of oper q] by simp
qed simp_all

lemma worker_trace_subseq: "subseq (rows_of (worker_trace q)) (rows_of (arrivals q))"
proof (induction q rule: worker_trace.induct)
  case (3 oper q)
  let ?m = "merged_op oper q"
  have "subseq (op_rows (fst ?m) @ rows_of (worker_trace (snd ?m)))
      (op_rows (fst ?m) @ rows_of (merge_drop oper q) @ rows_of (arrivals (snd ?m)))"
    using 3 by (intro list_emb_append_mono subseq_order.refl) (simp add: list_emb_append2)
  then show ?case using merged_op_rows [of oper q] by simp
qed simp_all


section \<open>One operation at a time\<close>

text \<open>
  What the writer takes for one operation, out of all that waits, is a part of the schedule by
  itself: the operations taken, and a pause.
\<close>

lemma coalesce_taken:
  "coalesce sel es (map Some opers) = (es', r) \<Longrightarrow>
   \<exists>taken rest. opers = taken @ rest \<and> r = map Some rest \<and>
     fst (coalesce sel es (map Some taken @ [None])) = es' \<and>
     set (snd (coalesce sel es (map Some taken @ [None]))) \<subseteq> {None} \<and>
     coalesce_drop sel (map Some taken @ [None]) = coalesce_drop sel (map Some opers)"
proof (induction opers arbitrary: es)
  case Nil
  then show ?case by (intro exI [of _ "[]"]) auto
next
  case (Cons oper opers)
  show ?case
  proof (cases "sel oper")
    case None
    then show ?thesis using Cons.prems by (intro exI [of _ "[oper]"] exI [of _ opers]) auto
  next
    case (Some ys)
    then have "coalesce sel (es @ ys) (map Some opers) = (es', r)" using Cons.prems by simp
    from Cons.IH [OF this] obtain taken rest where t: "opers = taken @ rest \<and> r = map Some rest \<and>
        fst (coalesce sel (es @ ys) (map Some taken @ [None])) = es' \<and>
        set (snd (coalesce sel (es @ ys) (map Some taken @ [None]))) \<subseteq> {None} \<and>
        coalesce_drop sel (map Some taken @ [None]) = coalesce_drop sel (map Some opers)"
      by (elim exE)
    show ?thesis using Some by (intro exI [of _ "oper # taken"] exI [of _ rest]) (simp add: t del: set_map)
  qed
qed

lemma coalesce_taken_batch:
  "\<exists>taken rest. opers = taken @ rest \<and> snd (apfst mk (coalesce sel es (map Some opers))) = map Some rest \<and>
     fst (apfst mk (coalesce sel es (map Some taken @ [None]))) = fst (apfst mk (coalesce sel es (map Some opers))) \<and>
     set (snd (apfst mk (coalesce sel es (map Some taken @ [None])))) \<subseteq> {None} \<and>
     coalesce_drop sel (map Some taken @ [None]) = coalesce_drop sel (map Some opers)"
  using coalesce_taken [of sel es opers, OF surjective_pairing] by simp metis

lemma merged_op_taken:
  "\<exists>taken rest. opers = taken @ rest \<and> snd (merged_op oper (map Some opers)) = map Some rest \<and>
     fst (merged_op oper (map Some taken @ [None])) = fst (merged_op oper (map Some opers)) \<and>
     set (snd (merged_op oper (map Some taken @ [None]))) \<subseteq> {None} \<and>
     merge_drop oper (map Some taken @ [None]) = merge_drop oper (map Some opers)"
proof (cases oper)
  case (UtxoBatchWrite xs)
  show ?thesis unfolding UtxoBatchWrite merged_op.simps merge_drop.simps coalesce_defs by (rule coalesce_taken_batch)
next
  case (UtxoBatchDelete xs)
  show ?thesis unfolding UtxoBatchDelete merged_op.simps merge_drop.simps coalesce_defs by (rule coalesce_taken_batch)
next
  case (TxBatchWrite xs)
  show ?thesis unfolding TxBatchWrite merged_op.simps merge_drop.simps coalesce_defs by (rule coalesce_taken_batch)
next
  case (MempoolBatchWrite xs)
  show ?thesis unfolding MempoolBatchWrite merged_op.simps merge_drop.simps coalesce_defs by (rule coalesce_taken_batch)
next
  case (MempoolBatchDelete xs)
  show ?thesis unfolding MempoolBatchDelete merged_op.simps merge_drop.simps coalesce_defs by (rule coalesce_taken_batch)
qed (rule exI [of _ "[]"], simp)+

lemma worker_only_pauses: "set q \<subseteq> {None} \<Longrightarrow> worker_trace q = [] \<and> worker_dropped q = []"
  by (induction q) auto


lemma coalesce_pause:
  "\<exists>rest. coalesce sel es (q @ None # q') = (fst (coalesce sel es q), rest) \<and>
     (rest = snd (coalesce sel es q) @ None # q' \<or> snd (coalesce sel es q) = [] \<and> rest = q') \<and>
     coalesce_drop sel (q @ None # q') = coalesce_drop sel q"
  by (induction sel es q rule: coalesce.induct) (auto split: option.split)

lemma coalesce_pause_batch:
  "\<exists>rest. apfst mk (coalesce sel es (q @ None # q')) = (fst (apfst mk (coalesce sel es q)), rest) \<and>
     (rest = snd (apfst mk (coalesce sel es q)) @ None # q' \<or> snd (apfst mk (coalesce sel es q)) = [] \<and> rest = q') \<and>
     coalesce_drop sel (q @ None # q') = coalesce_drop sel q"
  using coalesce_pause [of sel es q q'] by auto

lemma merged_op_pause:
  "\<exists>rest. merged_op oper (q @ None # q') = (fst (merged_op oper q), rest) \<and>
     (rest = snd (merged_op oper q) @ None # q' \<or> snd (merged_op oper q) = [] \<and> rest = q') \<and>
     merge_drop oper (q @ None # q') = merge_drop oper q"
proof (cases oper)
  case (UtxoBatchWrite xs)
  show ?thesis unfolding UtxoBatchWrite merged_op.simps merge_drop.simps coalesce_defs by (rule coalesce_pause_batch)
next
  case (UtxoBatchDelete xs)
  show ?thesis unfolding UtxoBatchDelete merged_op.simps merge_drop.simps coalesce_defs by (rule coalesce_pause_batch)
next
  case (TxBatchWrite xs)
  show ?thesis unfolding TxBatchWrite merged_op.simps merge_drop.simps coalesce_defs by (rule coalesce_pause_batch)
next
  case (MempoolBatchWrite xs)
  show ?thesis unfolding MempoolBatchWrite merged_op.simps merge_drop.simps coalesce_defs by (rule coalesce_pause_batch)
next
  case (MempoolBatchDelete xs)
  show ?thesis unfolding MempoolBatchDelete merged_op.simps merge_drop.simps coalesce_defs by (rule coalesce_pause_batch)
qed simp_all

text \<open>A pause cuts a schedule in two.\<close>

lemma worker_cut:
  "worker_trace (q @ None # q') = worker_trace q @ worker_trace q' \<and>
   worker_dropped (q @ None # q') = worker_dropped q @ worker_dropped q'"
proof (induction q rule: worker_trace.induct)
  case (3 oper q)
  obtain rest where "merged_op oper (q @ None # q') = (fst (merged_op oper q), rest)"
    "rest = snd (merged_op oper q) @ None # q' \<or> snd (merged_op oper q) = [] \<and> rest = q'"
    "merge_drop oper (q @ None # q') = merge_drop oper q"
    using merged_op_pause by blast
  then show ?case using 3 by auto
qed simp_all

section \<open>Losses\<close>

lemma worker_after_utxo_write:
  assumes "utxo_writes oper = None"
  shows "worker_trace (Some (UtxoBatchWrite xs) # Some oper # q) = UtxoBatchWrite xs # worker_trace q"
    and "worker_dropped (Some (UtxoBatchWrite xs) # Some oper # q) = oper # worker_dropped q"
  using assms by (simp_all add: coalesce_utxo_batch_write_def)

lemma worker_after_mempool_delete:
  assumes "mempool_dels oper = None"
  shows "worker_trace (Some (MempoolBatchDelete xs) # Some oper # q) = MempoolBatchDelete xs # worker_trace q"
    and "worker_dropped (Some (MempoolBatchDelete xs) # Some oper # q) = oper # worker_dropped q"
  using assms by (simp_all add: coalesce_mempool_batch_delete_def)

lemma worker_single: "worker_trace [Some oper] = [oper]" "worker_dropped [Some oper] = []"
  by (cases oper; simp add: coalesce_defs)+



section \<open>Attempts\<close>

lemma attempts_trail:
  "\<exists>dbs. length dbs \<le> n \<and> (\<forall>i < length dbs. call ((db # dbs) ! i) = (Inl (), dbs ! i)) \<and>
     attempts n call db = call (last (db # dbs)) \<and>
     (fst (attempts n call db) = Inl () \<longrightarrow> length dbs = n)"
proof (induction n arbitrary: db)
  case 0
  then show ?case by (intro exI [of _ "[]"]) simp
next
  case (Suc n)
  obtain r db' where c: "call db = (r, db')" by (cases "call db")
  show ?case
  proof (cases r)
    case (Inr u)
    then show ?thesis using c by (intro exI [of _ "[]"]) simp
  next
    case (Inl u)
    obtain dbs where "length dbs \<le> n" "\<forall>i < length dbs. call ((db' # dbs) ! i) = (Inl (), dbs ! i)"
      "attempts n call db' = call (last (db' # dbs))" "fst (attempts n call db') = Inl () \<longrightarrow> length dbs = n"
      using Suc [of db'] by blast
    then show ?thesis
      using c Inl by (intro exI [of _ "db' # dbs"]) (auto simp: nth_Cons split: nat.split)
  qed
qed



end
