(* ===== verification/Service_System.thy ===== *)
theory Service_System
  imports Manager_Guarantees Database_Guarantees
begin

text \<open>
  The running service as one system: the workers of the web server, the peers' threads, the
  peer manager, the database writer and the main task, each on a thread of its own, with the
  three channels between them. A step is one request, one call of an event handler, one pass of
  the manager's loop, the start or the death of a peer's thread, one operation of the writer, the
  signal to shut down, or one of the ways in which the process goes on from there; a run is any
  interleaving of them. The threads share no other state: a request and a handler end
  with their send, the manager takes what clients sent after all it does for the peer, and what the
  writer does to the database the others never read. So a step may stand where its last
  use of a channel is: a round at its \<open>try_recv\<close>, an operation of the writer at the last
  \<open>try_recv\<close> of its merging. Within a round the manager sends several operations one after the
  other, and the writer may run in between: the number of a \<open>Write\<close> is how many of the operations
  behind the one it takes have arrived while it merges.

  \<open>sc_taken\<close>, \<open>sc_heard\<close> and \<open>sc_done\<close> count what was taken off the channels of requests, of
  events and of operations; \<open>sc_lost\<close> records what merging took off the channel and dropped.
  \<open>Between\<close> is the manager before it starts the next thread, \<open>Ended\<close> after a stop, when its
  ends of the channels are gone. \<open>Serving\<close> is the web server running, \<open>Draining\<close> the main task
  waiting for the manager's thread, \<open>Exited\<close> the process gone. The web server stops when the
  task that heard the signal tells it to, and it may stop on a signal that it hears itself.
\<close>

datatype phase = Between | Looping bool | Ended
datatype life = Serving | Draining | Exited

record ('d, 'db, 'p, 'w) service =
  sc_app :: app_state
  sc_taken :: nat
  sc_handlers :: "string \<Rightarrow> event_handler option"
  sc_replies :: "(string \<times> peer_msg) list"
  sc_events :: "peer_event_message chan"
  sc_heard :: nat
  sc_phase :: phase
  sc_turn :: nat
  sc_manager :: "('d, 'db, 'p) manager"
  sc_done :: nat
  sc_lost :: "db_operation_type list"
  sc_db :: 'w
  sc_signalled :: bool
  sc_life :: life

datatype act =
    Broadcast string http_request
  | Add collection_config http_request
  | Delete string http_request
  | Version string http_request
  | Peer_Event "u64 \<Rightarrow> string" "string list \<Rightarrow> string" handler_event
  | Thread_Panic nat string
  | Start_Thread instant
  | Round round
  | Write nat
  | Signal nat
  | Server_Stopped
  | Server_Failed
  | Exit

definition sc_ops :: "('d, 'db, 'p, 'w) service \<Rightarrow> db_operation_type list" where
  "sc_ops s = sent (ch (lg_sys (mg_logic (sc_manager s))))"

definition sc_queue :: "('d, 'db, 'p, 'w) service \<Rightarrow> db_operation_type list" where
  "sc_queue s = drop (sc_done s) (sc_ops s)"

text \<open>What \<open>try_recv\<close> and \<open>recv_timeout\<close> find: the oldest message that has not been taken.\<close>

definition next_msg :: "nat \<Rightarrow> 'a list \<Rightarrow> 'a option" where
  "next_msg n msgs = (if n < length msgs then Some (msgs ! n) else None)"

definition next_rest :: "('d, 'db, 'p, 'w) service \<Rightarrow> rest_event_message option" where
  "next_rest s = next_msg (sc_taken s) (rest_msgs (sc_app s))"

definition next_event :: "('d, 'db, 'p, 'w) service \<Rightarrow> peer_event_message option" where
  "next_event s = next_msg (sc_heard s) (sent (sc_events s))"

text \<open>The service as \<open>run_start\<close> hands it on, with the writer's connection.\<close>

definition service_init :: "app_state \<Rightarrow> ('d, 'db, 'p) manager \<Rightarrow> 'w \<Rightarrow> ('d, 'db, 'p, 'w) service" where
  "service_init app m db = \<lparr>sc_app = app, sc_taken = 0, sc_handlers = (\<lambda>_. None), sc_replies = [],
     sc_events = open_chan, sc_heard = 0, sc_phase = Between, sc_turn = 0, sc_manager = m,
     sc_done = 0, sc_lost = [], sc_db = db, sc_signalled = False, sc_life = Serving\<rparr>"

definition close_rest :: "app_state \<Rightarrow> app_state" where
  "close_rest app = app\<lparr>msg_from_rest_api := (msg_from_rest_api app)\<lparr>rx_alive := False\<rparr>\<rparr>"

definition after_round ::
  "bool \<Rightarrow> bool \<Rightarrow> ('d, 'db, 'p) manager \<Rightarrow> ('d, 'db, 'p, 'w) service \<Rightarrow> ('d, 'db, 'p, 'w) service" where
  "after_round keep stop m s =
     (let s = s\<lparr>sc_manager := m, sc_taken := sc_taken s + (if next_rest s = None then 0 else 1),
                sc_heard := sc_heard s + (if next_event s = None then 0 else 1)\<rparr>
      in if keep then s\<lparr>sc_phase := Looping stop\<rparr>
         else if stop then s\<lparr>sc_phase := Ended, sc_app := close_rest (sc_app s),
                             sc_events := (sc_events s)\<lparr>rx_alive := False\<rparr>\<rparr>
         else s\<lparr>sc_phase := Between, sc_turn := sc_turn s + 1\<rparr>)"

text \<open>The handler that \<open>PeerConnection::new\<close> subscribes, where it succeeds.\<close>

definition new_handler ::
  "config \<Rightarrow> instant \<Rightarrow> string \<Rightarrow> (string \<Rightarrow> event_handler option) \<Rightarrow> string \<Rightarrow> event_handler option" where
  "new_handler cf now ip handlers =
     (case peer_connection_new (\<lambda>_ _ _ _. ()) ip cf of
        Inl _ \<Rightarrow> handlers
      | Inr _ \<Rightarrow> handlers(ip \<mapsto> eh_new now))"

fun event_ip :: "handler_event \<Rightarrow> string" where
  "event_ip (Connected_Event _ _ ip _) = ip"
| "event_ip (Disconnected_Event _ _ ip) = ip"
| "event_ip (Message_Event _ _ ip _) = ip"

definition stop_message :: "nat \<Rightarrow> peer_event_message" where
  "stop_message time = \<lparr>pe_time = time, pe_peer = ''127.0.0.1'', pe_event = EvStop\<rparr>"

inductive service_step ::
  "ext_lib \<Rightarrow> 'db db_env \<Rightarrow> 'd file_env \<Rightarrow> 'w db_env \<Rightarrow> (string \<Rightarrow> 16 word \<Rightarrow> network \<Rightarrow> string \<Rightarrow> 'p) \<Rightarrow>
   config \<Rightarrow> string list \<Rightarrow> ('d, 'db, 'p, 'w) service \<Rightarrow> act \<Rightarrow> ('d, 'db, 'p, 'w) service \<Rightarrow> bool"
  for L E F W connect cf ips where
  On_Broadcast:
    "sc_life s = Serving \<Longrightarrow> broadcast_tx L hexstr req (sc_app s) = (answer, app) \<Longrightarrow>
     service_step L E F W connect cf ips s (Broadcast hexstr req) (s\<lparr>sc_app := app\<rparr>)"
| On_Add:
    "sc_life s = Serving \<Longrightarrow> rest_add_monitor mon req (sc_app s) = (response, app) \<Longrightarrow>
     service_step L E F W connect cf ips s (Add mon req) (s\<lparr>sc_app := app\<rparr>)"
| On_Delete:
    "sc_life s = Serving \<Longrightarrow> rest_delete_monitor name req (sc_app s) = (response, app) \<Longrightarrow>
     service_step L E F W connect cf ips s (Delete name req) (s\<lparr>sc_app := app\<rparr>)"
| On_Version:
    "sc_life s = Serving \<Longrightarrow> rest_version pkg req (sc_app s) = (response, app) \<Longrightarrow>
     service_step L E F W connect cf ips s (Version pkg req) (s\<lparr>sc_app := app\<rparr>)"
| On_Peer_Event:
    "sc_life s \<noteq> Exited \<Longrightarrow> sc_handlers s (event_ip ev) = Some h \<Longrightarrow>
     handler_step hex debug ev \<lparr>eh = h, eh_tx = sc_events s, to_peer = []\<rparr> = r \<Longrightarrow>
     service_step L E F W connect cf ips s (Peer_Event hex debug ev)
       (s\<lparr>sc_handlers := (sc_handlers s)(event_ip ev \<mapsto> eh r),
          sc_replies := sc_replies s @ map (Pair (event_ip ev)) (to_peer r), sc_events := eh_tx r\<rparr>)"
| On_Thread_Panic:
    "sc_life s \<noteq> Exited \<Longrightarrow> sc_handlers s ip = Some h \<Longrightarrow>
     service_step L E F W connect cf ips s (Thread_Panic time ip)
       (s\<lparr>sc_events := thread_end time ip Panic (sc_events s)\<rparr>)"
| On_Start_Thread:
    "sc_life s \<noteq> Exited \<Longrightarrow> sc_phase s = Between \<Longrightarrow> ips \<noteq> [] \<Longrightarrow>
     m = sc_manager s \<Longrightarrow> ip = ips ! (sc_turn s mod length ips) \<Longrightarrow>
     service_step L E F W connect cf ips s (Start_Thread now)
       (s\<lparr>sc_manager := m\<lparr>mg_tracker := create_thread connect now ip cf (mg_tracker m)\<rparr>,
          sc_handlers := new_handler cf now ip (sc_handlers s), sc_phase := Looping False\<rparr>)"
| On_Round:
    "sc_life s \<noteq> Exited \<Longrightarrow> sc_phase s = Looping stop \<Longrightarrow> rd_peer rd = next_event s \<Longrightarrow> rd_rest rd = next_rest s \<Longrightarrow>
     peer_part L E F rd (sc_manager s) = (keep, m) \<Longrightarrow>
     service_step L E F W connect cf ips s (Round rd)
       (after_round keep (stop_after rd stop) (rest_part L E rd m) s)"
| On_Write:
    "sc_life s \<noteq> Exited \<Longrightarrow> sc_queue s = oper # rest \<Longrightarrow> ready = map Some (take seen rest) \<Longrightarrow>
     perform_db_operation L W oper ready (sc_db s) = (q, db) \<Longrightarrow>
     service_step L E F W connect cf ips s (Write seen)
       (s\<lparr>sc_done := sc_done s + Suc (length ready) - length q,
          sc_lost := sc_lost s @ merge_drop oper ready, sc_db := db\<rparr>)"
| On_Signal:
    "sc_life s \<noteq> Exited \<Longrightarrow> \<not> sc_signalled s \<Longrightarrow>
     service_step L E F W connect cf ips s (Signal time)
       (s\<lparr>sc_events := snd (chan_send (stop_message time) (sc_events s)), sc_signalled := True\<rparr>)"
| On_Server_Stopped:
    "sc_life s = Serving \<Longrightarrow>
     service_step L E F W connect cf ips s Server_Stopped (s\<lparr>sc_life := Draining\<rparr>)"
| On_Server_Failed:
    "sc_life s = Serving \<Longrightarrow> service_step L E F W connect cf ips s Server_Failed (s\<lparr>sc_life := Exited\<rparr>)"
| On_Exit:
    "sc_life s = Draining \<Longrightarrow> sc_phase s = Ended \<Longrightarrow>
     service_step L E F W connect cf ips s Exit (s\<lparr>sc_life := Exited\<rparr>)"

inductive_cases service_stepE: "service_step L E F W connect cf ips s a s'"

inductive service_run ::
  "ext_lib \<Rightarrow> 'db db_env \<Rightarrow> 'd file_env \<Rightarrow> 'w db_env \<Rightarrow> (string \<Rightarrow> 16 word \<Rightarrow> network \<Rightarrow> string \<Rightarrow> 'p) \<Rightarrow>
   config \<Rightarrow> string list \<Rightarrow> ('d, 'db, 'p, 'w) service \<Rightarrow> act list \<Rightarrow> ('d, 'db, 'p, 'w) service \<Rightarrow> bool"
  for L E F W connect cf ips s0 where
  Nothing: "service_run L E F W connect cf ips s0 [] s0"
| Step: "service_run L E F W connect cf ips s0 acts s \<Longrightarrow> service_step L E F W connect cf ips s a s' \<Longrightarrow>
    service_run L E F W connect cf ips s0 (acts @ [a]) s'"

text \<open>Nothing but what happens outside decides the next state.\<close>

lemma service_step_deterministic:
  "service_step L E F W connect cf ips s a s' \<Longrightarrow> service_step L E F W connect cf ips s a s'' \<Longrightarrow> s'' = s'"
  by (induction rule: service_step.induct) (auto elim!: service_stepE)

section \<open>What a step does to each part\<close>

lemma after_round_sel [simp]:
  "sc_manager (after_round keep stop m s) = m"
  "sc_taken (after_round keep stop m s) = sc_taken s + (if next_rest s = None then 0 else 1)"
  "rest_msgs (sc_app (after_round keep stop m s)) = rest_msgs (sc_app s)"
  "sc_handlers (after_round keep stop m s) = sc_handlers s"
  "sc_done (after_round keep stop m s) = sc_done s"
  "sc_lost (after_round keep stop m s) = sc_lost s"
  "sc_db (after_round keep stop m s) = sc_db s"
  "sc_heard (after_round keep stop m s) = sc_heard s + (if next_event s = None then 0 else 1)"
  "sent (sc_events (after_round keep stop m s)) = sent (sc_events s)"
  "sc_signalled (after_round keep stop m s) = sc_signalled s" "sc_life (after_round keep stop m s) = sc_life s"
  by (simp_all add: after_round_def Let_def close_rest_def rest_msgs_def)

lemma service_init_sel [simp]:
  "sc_app (service_init app m db) = app" "sc_taken (service_init app m db) = 0"
  "sc_phase (service_init app m db) = Between" "sc_manager (service_init app m db) = m"
  "sc_events (service_init app m db) = open_chan" "sc_heard (service_init app m db) = 0"
  "sc_signalled (service_init app m db) = False" "sc_life (service_init app m db) = Serving" "sc_turn (service_init app m db) = 0"
  "sc_handlers (service_init app m db) = (\<lambda>_. None)"
  "sc_done (service_init app m db) = 0" "sc_lost (service_init app m db) = []" "sc_db (service_init app m db) = db"
  by (simp_all add: service_init_def)

text \<open>What follows the blocks that a round takes follows those of a run.\<close>

definition blocks_taken :: "act list \<Rightarrow> block list" where
  "blocks_taken acts = concat (map (\<lambda>a. case a of Round rd \<Rightarrow> round_blocks rd | _ \<Rightarrow> []) acts)"

lemma blocks_taken_simps [simp]:
  "blocks_taken [] = []"
  "blocks_taken (acts @ acts') = blocks_taken acts @ blocks_taken acts'"
  "blocks_taken [a] = (case a of Round rd \<Rightarrow> round_blocks rd | _ \<Rightarrow> [])"
  by (simp_all add: blocks_taken_def)

context block_follower
begin

lemma service_step_follows:
  assumes "service_step L E F W connect cf ips s a s'" and "Q bs (mg_logic (sc_manager s))"
  shows "Q (bs @ blocks_taken [a]) (mg_logic (sc_manager s'))"
  using assms(1)
proof (cases rule: service_step.cases)
  case (On_Round stop rd keep m)
  then show ?thesis using rest_part_follows [OF peer_part_follows [OF assms(2), of rd]] by simp
qed (use assms(2) in simp_all)

lemma service_run_follows:
  "service_run L E F W connect cf ips s acts s' \<Longrightarrow> Q bs (mg_logic (sc_manager s)) \<Longrightarrow>
   Q (bs @ blocks_taken acts) (mg_logic (sc_manager s'))"
proof (induction rule: service_run.induct)
  case (Step acts s a s')
  then show ?case using service_step_follows [OF Step(2)] by fastforce
qed simp

end

lemma service_step_ops:
  assumes "service_step L E F W connect cf ips s a s'"
  shows "prefix (sc_ops s) (sc_ops s')"
  using logged.in_logic.following.service_step_follows [OF assms, of "sc_ops s"] by (simp add: logged.sys_kept_def sc_ops_def)

section \<open>The writer follows a schedule\<close>

text \<open>
  Whatever the interleaving, the database is as the writer's loop leaves it on a schedule
  of what it has taken so far, and what it lost is what merging drops on that schedule.
\<close>

definition follows_schedule ::
  "ext_lib \<Rightarrow> 'w db_env \<Rightarrow> 'w \<Rightarrow> rx \<Rightarrow> ('d, 'db, 'p, 'w) service \<Rightarrow> bool" where
  "follows_schedule L W db0 q s \<longleftrightarrow>
     sc_done s \<le> length (sc_ops s) \<and> arrivals q = take (sc_done s) (sc_ops s) \<and>
     worker_dropped q = sc_lost s \<and> sc_db s = perform_db_operations L W q db0 \<and> (q = [] \<or> last q = None)"

lemma follows_schedule_frame:
  assumes "follows_schedule L W db0 q s" and "prefix (sc_ops s) (sc_ops s')"
    and "sc_done s' = sc_done s" and "sc_lost s' = sc_lost s" and "sc_db s' = sc_db s"
  shows "follows_schedule L W db0 q s'"
  using assms by (auto simp: follows_schedule_def prefix_def)

lemma arrivals_append [simp]: "arrivals (q @ q') = arrivals q @ arrivals q'"
  by (simp add: arrivals_def List.map_filter_def)

lemma arrivals_map_Some [simp]: "arrivals (map Some opers) = opers"
  by (induction opers) simp_all

lemma worker_append:
  assumes "q = [] \<or> last q = None"
  shows "worker_trace (q @ q') = worker_trace q @ worker_trace q'"
    and "worker_dropped (q @ q') = worker_dropped q @ worker_dropped q'"
proof -
  have "worker_trace (q @ q') = worker_trace q @ worker_trace q' \<and> worker_dropped (q @ q') = worker_dropped q @ worker_dropped q'"
  proof (cases "q = []")
    case False
    then have "q = butlast q @ [None]" using assms append_butlast_last_id [of q] by simp
    then obtain p where q: "q = p @ [None]" by blast
    show ?thesis using worker_cut [of p "[]"] worker_cut [of p q'] by (simp add: q)
  qed simp
  then show "worker_trace (q @ q') = worker_trace q @ worker_trace q'"
    and "worker_dropped (q @ q') = worker_dropped q @ worker_dropped q'" by simp_all
qed

lemma follows_schedule_write:
  assumes f: "follows_schedule L W db0 q s" and queue: "sc_queue s = oper # rest" and ready: "ready = map Some (take seen rest)"
    and step: "perform_db_operation L W oper ready (sc_db s) = (r, db)"
  shows "\<exists>q'. follows_schedule L W db0 q' (s\<lparr>sc_done := sc_done s + Suc (length ready) - length r,
           sc_lost := sc_lost s @ merge_drop oper ready, sc_db := db\<rparr>)"
proof -
  let ?s = "s\<lparr>sc_done := sc_done s + Suc (length ready) - length r, sc_lost := sc_lost s @ merge_drop oper ready, sc_db := db\<rparr>"
  obtain taken left where t: "take seen rest = taken @ left" "snd (merged_op oper ready) = map Some left"
    "fst (merged_op oper (map Some taken @ [None])) = fst (merged_op oper ready)"
    "set (snd (merged_op oper (map Some taken @ [None]))) \<subseteq> {None}"
    "merge_drop oper (map Some taken @ [None]) = merge_drop oper ready"
    using merged_op_taken [of "take seen rest" oper] unfolding ready [symmetric] by (elim exE conjE) (rule that)
  let ?q = "map Some (oper # taken) @ [None]"
  have r: "r = map Some left" "db = exec_op L W (fst (merged_op oper ready)) (sc_db s)"
    using step t(2) by (simp_all add: perform_db_operation_merged)
  have seg: "worker_trace ?q = [fst (merged_op oper ready)]" "worker_dropped ?q = merge_drop oper ready"
    using t(3,5) worker_only_pauses [OF t(4)] by simp_all
  have le: "sc_done s \<le> length (sc_ops s)" and q: "q = [] \<or> last q = None"
    using f by (simp_all add: follows_schedule_def)
  have "rest = taken @ left @ drop seen rest" using t(1) append_take_drop_id [of seen rest] by simp
  then have drop: "drop (sc_done s) (sc_ops s) = (oper # taken) @ left @ drop seen rest"
    using queue by (simp add: sc_queue_def)
  from arg_cong [OF drop, of length] have len: "length (oper # taken) \<le> length (sc_ops s) - sc_done s" by simp
  have "take (sc_done s + length (oper # taken)) (sc_ops s) = take (sc_done s) (sc_ops s) @ oper # taken"
    unfolding take_add drop by simp
  moreover have "sc_done s + Suc (length ready) - length r = sc_done s + length (oper # taken)"
    unfolding ready t(1) r(1) by simp
  ultimately have "follows_schedule L W db0 (q @ ?q) ?s"
    using f len le seg r(2) by (simp add: follows_schedule_def worker_append [OF q] perform_trace sc_ops_def del: worker_trace.simps worker_dropped.simps list.map)
  then show ?thesis by blast
qed

lemma run_follows_schedule:
  assumes "service_run L E F W connect cf ips (service_init app m db0) acts s"
  shows "\<exists>q. follows_schedule L W db0 q s"
  using assms
proof (induction rule: service_run.induct)
  case Nothing
  show ?case by (intro exI [of _ "[]"]) (simp add: follows_schedule_def perform_trace)
next
  case (Step acts s a s')
  then obtain q where q: "follows_schedule L W db0 q s" by blast
  from Step(2) show ?case
  proof (cases rule: service_step.cases)
    case (On_Write oper rest ready seen r db)
    then show ?thesis using follows_schedule_write [OF q] by simp
  qed (use service_step_ops [OF Step(2)] in \<open>auto intro!: exI [of _ q] follows_schedule_frame [OF q]\<close>)
qed

section \<open>Requests\<close>

text \<open>What makes a client's transaction accepted: the answer is its hash, and it is sent on.\<close>

definition accepts :: "ext_lib \<Rightarrow> string \<Rightarrow> http_request \<Rightarrow> app_state \<Rightarrow> tx \<Rightarrow> bool" where
  "accepts L hexstr req app t \<longleftrightarrow>
     passes req app \<and> length hexstr div 2 \<le> as_max_broadcast_tx_bytes app \<and>
     (\<exists>bytes. decode_hexstr hexstr = Ret (Inr bytes) \<and> tx_read L bytes = Some t) \<and>
     fst (broadcast_tx L hexstr req app) = Ret (BroadcastTxResponse ''Success'' (hash_encode L (tx_hash L t)))"

lemma broadcast_tx_msgs:
  "rest_msgs (snd (broadcast_tx L hexstr req app)) = rest_msgs app \<or>
   (\<exists>t. rest_msgs (snd (broadcast_tx L hexstr req app)) = rest_msgs app @ [TxForBroadcast t] \<and> accepts L hexstr req app t)"
proof -
  obtain r app' where r: "rate_limit req app = (r, app')" by (cases "rate_limit req app")
  have same: "msg_from_rest_api app' = msg_from_rest_api app" "as_api_key app' = as_api_key app"
    "as_max_broadcast_tx_bytes app' = as_max_broadcast_tx_bytes app"
    using rate_limit_frame [of req app] r by simp_all
  show ?thesis
    using r same
    by (cases "rx_alive (msg_from_rest_api app)")
      (auto simp: broadcast_tx_def accepts_def passes_def tx_hex_exceeds_limit_def rest_send_alive rest_send_dead
        rest_msgs_def Let_def split: outcome.splits sum.splits option.splits)
qed

lemma rest_monitor_msgs:
  "\<exists>msgs. rest_msgs (snd (rest_add_monitor mon req app)) = rest_msgs app @ msgs \<and> (\<forall>t. TxForBroadcast t \<notin> set msgs)"
  "\<exists>msgs. rest_msgs (snd (rest_delete_monitor name req app)) = rest_msgs app @ msgs \<and> (\<forall>t. TxForBroadcast t \<notin> set msgs)"
  "rest_msgs (snd (rest_version pkg req app)) = rest_msgs app"
proof -
  obtain r app' where r: "rate_limit req app = (r, app')" by (cases "rate_limit req app")
  have same: "msg_from_rest_api app' = msg_from_rest_api app" "as_api_key app' = as_api_key app"
    using rate_limit_frame [of req app] r by simp_all
  show "\<exists>msgs. rest_msgs (snd (rest_add_monitor mon req app)) = rest_msgs app @ msgs \<and> (\<forall>t. TxForBroadcast t \<notin> set msgs)"
    "\<exists>msgs. rest_msgs (snd (rest_delete_monitor name req app)) = rest_msgs app @ msgs \<and> (\<forall>t. TxForBroadcast t \<notin> set msgs)"
    using r same
    by (cases "rx_alive (msg_from_rest_api app)";
        simp add: rest_add_monitor_def rest_delete_monitor_def rest_send_alive rest_send_dead rest_msgs_def split: option.split)+
  show "rest_msgs (snd (rest_version pkg req app)) = rest_msgs app"
    using r same by (simp add: rest_version_def rest_msgs_def split: option.split)
qed

text \<open>The messages on the channel only become more, and each transaction among them was accepted.\<close>

lemma service_step_msgs:
  assumes "service_step L E F W connect cf ips s a s'"
  shows "\<exists>msgs. rest_msgs (sc_app s') = rest_msgs (sc_app s) @ msgs \<and>
    (\<forall>t. TxForBroadcast t \<in> set msgs \<longrightarrow> (\<exists>hexstr req. a = Broadcast hexstr req \<and> accepts L hexstr req (sc_app s) t))"
  using assms
proof (cases rule: service_step.cases)
  case (On_Broadcast hexstr req answer app)
  then show ?thesis using broadcast_tx_msgs [of L hexstr req "sc_app s"] by auto
next
  case (On_Add mon req response app)
  then show ?thesis using rest_monitor_msgs(1) [of mon req "sc_app s"] by auto
next
  case (On_Delete name req response app)
  then show ?thesis using rest_monitor_msgs(2) [of name req "sc_app s"] by auto
next
  case (On_Version pkg req response app)
  then show ?thesis using rest_monitor_msgs(3) [of pkg req "sc_app s"] by auto
qed auto

lemma run_accepted:
  assumes "service_run L E F W connect cf ips s0 acts s" and "rest_msgs (sc_app s0) = []"
    and "TxForBroadcast t \<in> set (rest_msgs (sc_app s))"
  shows "\<exists>earlier hexstr req later s1. acts = earlier @ Broadcast hexstr req # later \<and>
    service_run L E F W connect cf ips s0 earlier s1 \<and> accepts L hexstr req (sc_app s1) t"
  using assms
proof (induction rule: service_run.induct)
  case Nothing
  then show ?case by simp
next
  case (Step acts s a s')
  obtain msgs where msgs: "rest_msgs (sc_app s') = rest_msgs (sc_app s) @ msgs"
    "\<forall>t. TxForBroadcast t \<in> set msgs \<longrightarrow> (\<exists>hexstr req. a = Broadcast hexstr req \<and> accepts L hexstr req (sc_app s) t)"
    using service_step_msgs [OF Step(2)] by blast
  show ?case
  proof (cases "TxForBroadcast t \<in> set (rest_msgs (sc_app s))")
    case True
    then obtain earlier hexstr req later s1 where "acts = earlier @ Broadcast hexstr req # later"
      "service_run L E F W connect cf ips s0 earlier s1" "accepts L hexstr req (sc_app s1) t"
      using Step by blast
    then show ?thesis by (intro exI [of _ earlier] exI [of _ hexstr] exI [of _ req] exI [of _ "later @ [a]"] exI [of _ s1]) simp
  next
    case False
    then obtain hexstr req where "a = Broadcast hexstr req" "accepts L hexstr req (sc_app s) t"
      using Step(5) msgs by auto
    then show ?thesis using Step(1) by blast
  qed
qed

section \<open>Transactions to peers\<close>

definition broadcast_txs :: "('d, 'db, 'p) manager \<Rightarrow> tx list" where
  "broadcast_txs m = List.map_filter (\<lambda>(p, msg). case msg of MsgTx t \<Rightarrow> Some t | _ \<Rightarrow> None) (mg_to_peers m)"

definition requested_txs :: "rest_event_message list \<Rightarrow> tx list" where
  "requested_txs msgs = List.map_filter (\<lambda>msg. case msg of TxForBroadcast t \<Rightarrow> Some t | _ \<Rightarrow> None) msgs"

lemma map_filter_append: "List.map_filter f (xs @ ys) = List.map_filter f xs @ List.map_filter f ys"
  by (simp add: List.map_filter_def)

lemma requested_txs_append: "requested_txs (xs @ ys) = requested_txs xs @ requested_txs ys"
  by (simp add: requested_txs_def map_filter_append)

lemma in_broadcast_txs: "t \<in> set (broadcast_txs m) \<longleftrightarrow> (\<exists>p. (p, MsgTx t) \<in> set (mg_to_peers m))"
  by (force simp: broadcast_txs_def List.map_filter_def split: peer_msg.splits)

lemma in_requested_txs: "t \<in> set (requested_txs msgs) \<longleftrightarrow> TxForBroadcast t \<in> set msgs"
  by (force simp: requested_txs_def List.map_filter_def split: rest_event_message.splits)

lemma broadcast_txs_cong: "mg_to_peers m = mg_to_peers m' \<Longrightarrow> broadcast_txs m = broadcast_txs m'"
  by (simp add: broadcast_txs_def)

lemma broadcast_txs_logic [simp]: "broadcast_txs (m\<lparr>mg_logic := lg\<rparr>) = broadcast_txs m"
  by (simp add: broadcast_txs_def)

lemma fold_peer_send_broadcasts:
  "list_all (\<lambda>msg. \<not> is_tx_msg msg) msgs \<Longrightarrow> broadcast_txs (fold peer_send msgs m) = broadcast_txs m"
proof (induction msgs arbitrary: m)
  case (Cons msg msgs)
  then have "broadcast_txs (peer_send msg m) = broadcast_txs m"
    by (cases msg) (simp_all add: peer_send_def broadcast_txs_def map_filter_append List.map_filter_simps split: option.split)
  then show ?case using Cons by simp
qed simp

lemma peer_part_broadcasts:
  assumes "list_all (\<lambda>msg. \<not> is_tx_msg msg) (send_message_queue (mg_logic m))"
  shows "broadcast_txs (snd (peer_part L E F rd m)) = broadcast_txs m"
proof (cases "rd_peer rd")
  case None
  then show ?thesis by (simp add: peer_part_def)
next
  case (Some received)
  let ?m = "snd (process_event_inner L E F rd received m)"
  have "mg_to_peers ?m = mg_to_peers m"
    by (cases "pe_event received") (simp_all add: process_event_inner_def Let_def)
  moreover have "list_all (\<lambda>msg. \<not> is_tx_msg msg) (send_message_queue (mg_logic ?m))"
    using assms by (rule no_tx_waits.following.process_event_inner_follows)
  ultimately show ?thesis
    using Some broadcast_txs_cong [of ?m m]
    by (simp add: peer_part_def peer_half_def Let_def split_def message_to_send_def fold_peer_send_broadcasts)
qed

lemma rest_part_broadcasts:
  "\<exists>ts. broadcast_txs (rest_part L E rd m) = broadcast_txs m @ ts \<and>
     subseq ts (case rd_rest rd of Some event \<Rightarrow> requested_txs [event] | None \<Rightarrow> [])"
proof (cases "rd_rest rd")
  case None
  then show ?thesis by (simp add: rest_part_def)
next
  case (Some event)
  show ?thesis
  proof (cases event)
    case (TxForBroadcast t)
    let ?m = "rest_part L E rd m"
    have "mg_to_peers ?m = mg_to_peers m \<or> (\<exists>p. mg_to_peers ?m = mg_to_peers m @ [(p, MsgTx t)])"
      by (simp add: rest_part_def Some TxForBroadcast rest_half_def broadcast_half_def Let_def split: option.split)
    then show ?thesis
      by (auto simp: Some TxForBroadcast broadcast_txs_def map_filter_append List.map_filter_simps requested_txs_def)
  qed (simp_all add: rest_part_def Some rest_half_def broadcast_txs_def)
qed

definition broadcasts_ok :: "('d, 'db, 'p, 'w) service \<Rightarrow> bool" where
  "broadcasts_ok s \<longleftrightarrow> list_all (\<lambda>msg. \<not> is_tx_msg msg) (send_message_queue (mg_logic (sc_manager s))) \<and>
     sc_taken s \<le> length (rest_msgs (sc_app s)) \<and>
     subseq (broadcast_txs (sc_manager s)) (requested_txs (take (sc_taken s) (rest_msgs (sc_app s))))"

lemma next_rest_taken:
  "sc_taken s \<le> length (rest_msgs (sc_app s)) \<Longrightarrow>
   take (sc_taken s + (if next_rest s = None then 0 else 1)) (rest_msgs (sc_app s)) =
     take (sc_taken s) (rest_msgs (sc_app s)) @ (case next_rest s of Some event \<Rightarrow> [event] | None \<Rightarrow> [])"
  by (simp add: next_rest_def next_msg_def take_Suc_conv_app_nth)

lemma service_step_broadcasts:
  assumes step: "service_step L E F W connect cf ips s a s'" and ok: "broadcasts_ok s"
  shows "broadcasts_ok s'"
proof -
  have queue: "list_all (\<lambda>msg. \<not> is_tx_msg msg) (send_message_queue (mg_logic (sc_manager s')))"
    using no_tx_waits.following.service_step_follows [OF step] ok by (simp add: broadcasts_ok_def)
  obtain msgs where msgs: "rest_msgs (sc_app s') = rest_msgs (sc_app s) @ msgs"
    using service_step_msgs [OF step] by (elim exE conjE) (rule that)
  have frame: "broadcasts_ok s'" if "sc_taken s' = sc_taken s" "broadcast_txs (sc_manager s') = broadcast_txs (sc_manager s)"
    using ok queue msgs that by (simp add: broadcasts_ok_def)
  from step show ?thesis
  proof (cases rule: service_step.cases)
    case (On_Round stop rd keep m)
    have "m = snd (peer_part L E F rd (sc_manager s))" using On_Round by simp
    then have same: "broadcast_txs m = broadcast_txs (sc_manager s)"
      using ok by (simp add: broadcasts_ok_def peer_part_broadcasts)
    obtain ts where ts: "broadcast_txs (rest_part L E rd m) = broadcast_txs (sc_manager s) @ ts"
      "subseq ts (case next_rest s of Some event \<Rightarrow> requested_txs [event] | None \<Rightarrow> [])"
      using rest_part_broadcasts [of L E rd m] On_Round same by auto
    have "subseq (broadcast_txs (sc_manager s) @ ts)
        (requested_txs (take (sc_taken s) (rest_msgs (sc_app s))) @
         (case next_rest s of Some event \<Rightarrow> requested_txs [event] | None \<Rightarrow> []))"
      using ok ts(2) by (intro list_emb_append_mono) (simp_all add: broadcasts_ok_def)
    moreover have "sc_taken s + (if next_rest s = None then 0 else 1) \<le> length (rest_msgs (sc_app s))"
      using ok by (simp add: next_rest_def next_msg_def broadcasts_ok_def)
    ultimately show ?thesis
      using queue ok next_rest_taken [of s] ts(1)
      by (simp add: broadcasts_ok_def On_Round requested_txs_append requested_txs_def [of "[]"] List.map_filter_simps
          split: option.splits)
  qed (rule frame; simp add: broadcast_txs_def)+
qed

lemma run_start_fresh:
  assumes "run_start L E F parse cfg logger pool conns ta_conns file rows db disk = Inr (app, cf, m, ips)"
  shows "mg_to_peers m = []" and "send_message_queue (mg_logic m) = []" and "msg_from_rest_api app = open_chan"
    and "rest_msgs app = []"
  using assms
  by (auto simp: run_start_def Let_def lg_new_def lg_setup_def rest_msgs_def split: sum.splits prod.splits)

lemma run_broadcasts:
  assumes start: "run_start L E F parse cfg logger pool conns ta_conns file rows db disk = Inr (app, cf, m, ips)"
    and run: "service_run L E F W connect cf ips (service_init app m db0) acts s"
  shows "broadcasts_ok s"
  using run
proof (induction rule: service_run.induct)
  case Nothing
  show ?case using run_start_fresh [OF start] by (simp add: broadcasts_ok_def broadcast_txs_def List.map_filter_simps)
next
  case (Step acts s a s')
  then show ?case using service_step_broadcasts by blast
qed

section \<open>Progress\<close>

definition rounds_in :: "act list \<Rightarrow> nat" where
  "rounds_in acts = length (filter (\<lambda>a. case a of Round _ \<Rightarrow> True | _ \<Rightarrow> False) acts)"

definition writes_in :: "act list \<Rightarrow> nat" where
  "writes_in acts = length (filter (\<lambda>a. case a of Write _ \<Rightarrow> True | _ \<Rightarrow> False) acts)"

lemma service_step_taken:
  assumes "service_step L E F W connect cf ips s a s'" and "n \<le> length (rest_msgs (sc_app s))"
    and "min n k \<le> sc_taken s"
  shows "min n (k + rounds_in [a]) \<le> sc_taken s'"
  using assms(1)
proof (cases rule: service_step.cases)
  case (On_Round stop rd keep m)
  then show ?thesis using assms(2,3) by (auto simp: rounds_in_def next_rest_def next_msg_def)
qed (use assms(3) in \<open>auto simp: rounds_in_def\<close>)

lemma service_step_heard:
  assumes "service_step L E F W connect cf ips s a s'" and "n \<le> length (sent (sc_events s))"
    and "min n k \<le> sc_heard s"
  shows "min n (k + rounds_in [a]) \<le> sc_heard s'"
  using assms(1)
proof (cases rule: service_step.cases)
  case (On_Round stop rd keep m)
  then show ?thesis using assms(2,3) by (auto simp: rounds_in_def next_event_def next_msg_def)
qed (use assms(3) in \<open>auto simp: rounds_in_def\<close>)

lemma service_step_done:
  assumes step: "service_step L E F W connect cf ips s a s'" and n: "n \<le> length (sc_ops s)" "min n k \<le> sc_done s"
  shows "min n (k + writes_in [a]) \<le> sc_done s'"
  using step
proof (cases rule: service_step.cases)
  case (On_Write oper rest ready seen q db)
  have "length q \<le> length ready"
    using perform_db_operation_shorter [of L W oper ready "sc_db s"] On_Write by simp
  then have "Suc (sc_done s) \<le> sc_done s'" by (simp add: On_Write(2))
  then show ?thesis using n On_Write(1) by (simp add: writes_in_def)
qed (use n(2) in \<open>auto simp: writes_in_def\<close>)

lemma service_run_msgs:
  "service_run L E F W connect cf ips s0 acts s \<Longrightarrow> prefix (rest_msgs (sc_app s0)) (rest_msgs (sc_app s))"
proof (induction rule: service_run.induct)
  case (Step acts s a s')
  then show ?case using service_step_msgs [OF Step(2)] by (auto simp: prefix_def)
qed simp

lemma service_run_ops:
  "service_run L E F W connect cf ips s0 acts s \<Longrightarrow> prefix (sc_ops s0) (sc_ops s)"
  by (induction rule: service_run.induct) (auto dest: service_step_ops intro: prefix_order.order_trans)

text \<open>Events only become more, and none of the peers' threads sends a stop.\<close>

lemma handler_step_events:
  "\<exists>msgs. sent (eh_tx (handler_step hex debug ev r)) = sent (eh_tx r) @ msgs \<and>
     (\<forall>msg \<in> set msgs. pe_event msg \<noteq> EvStop) \<and> rx_alive (eh_tx (handler_step hex debug ev r)) = rx_alive (eh_tx r)"
  by (cases ev) (auto simp: handler_defs sent_chan_sends split: peer_message.split)

lemma thread_end_events:
  "\<exists>msgs. sent (thread_end time ip waited c) = sent c @ msgs \<and> (\<forall>msg \<in> set msgs. pe_event msg \<noteq> EvStop) \<and>
     rx_alive (thread_end time ip waited c) = rx_alive c"
  by (cases waited) (auto simp: thread_end_def Let_def chan_send_def)

lemma service_step_events:
  assumes "service_step L E F W connect cf ips s a s'"
  shows "\<exists>msgs. sent (sc_events s') = sent (sc_events s) @ msgs \<and>
    (\<forall>msg \<in> set msgs. pe_event msg = EvStop \<longrightarrow> (\<exists>time. a = Signal time))"
  using assms
proof (cases rule: service_step.cases)
  case (On_Peer_Event ev h hex debug r)
  then show ?thesis using handler_step_events [of hex debug ev "\<lparr>eh = h, eh_tx = sc_events s, to_peer = []\<rparr>"] by auto
next
  case (On_Thread_Panic ip h time)
  then show ?thesis using thread_end_events [of time ip Panic "sc_events s"] by auto
qed (auto simp: chan_send_def)

lemma service_run_events:
  "service_run L E F W connect cf ips s0 acts s \<Longrightarrow> prefix (sent (sc_events s0)) (sent (sc_events s))"
proof (induction rule: service_run.induct)
  case (Step acts s a s')
  then show ?case using service_step_events [OF Step(2)] by (auto simp: prefix_def)
qed simp

section \<open>The end\<close>

text \<open>
  The manager ends with the first stop it takes and with nothing else; a stop comes of the
  signal only; and the signal is heard unless the manager has ended.
\<close>

definition stop_at :: "peer_event_message list \<Rightarrow> bool" where
  "stop_at msgs \<longleftrightarrow> (\<exists>msg \<in> set msgs. pe_event msg = EvStop)"

definition stops_ok :: "('d, 'db, 'p, 'w) service \<Rightarrow> bool" where
  "stops_ok s \<longleftrightarrow> sc_heard s \<le> length (sent (sc_events s)) \<and>
     (sc_phase s = Ended \<longleftrightarrow> stop_at (take (sc_heard s) (sent (sc_events s)))) \<and>
     (sc_phase s = Ended \<longleftrightarrow> \<not> rx_alive (sc_events s)) \<and>
     (sc_signalled s \<longleftrightarrow> stop_at (sent (sc_events s)))"

lemma stop_at_append [simp]: "stop_at (xs @ ys) \<longleftrightarrow> stop_at xs \<or> stop_at ys"
  by (auto simp: stop_at_def)

lemma stop_at_single [simp]: "stop_at [msg] \<longleftrightarrow> pe_event msg = EvStop" "\<not> stop_at []"
  by (simp_all add: stop_at_def)

lemma next_msg_take:
  "n \<le> length msgs \<Longrightarrow>
   take (n + (if next_msg n msgs = None then 0 else 1)) msgs =
     take n msgs @ (case next_msg n msgs of Some msg \<Rightarrow> [msg] | None \<Rightarrow> [])"
  by (simp add: next_msg_def take_Suc_conv_app_nth)

lemma round_ends:
  assumes "peer_part L E F rd m = (keep, m')"
  shows "(\<not> keep \<and> stop_after rd stop) \<longleftrightarrow> (case rd_peer rd of Some msg \<Rightarrow> pe_event msg = EvStop | None \<Rightarrow> False)"
proof (cases "rd_peer rd")
  case (Some received)
  then show ?thesis using assms peer_part_stop [OF Some, of L E F m] by (auto simp: stop_after_def)
qed (use assms in \<open>auto simp: peer_part_def\<close>)

lemma stops_ok_round:
  assumes ok: "stops_ok s" and phase: "sc_phase s = Looping stop" and rd: "rd_peer rd = next_event s"
    and part: "peer_part L E F rd (sc_manager s) = (keep, m)"
  shows "stops_ok (after_round keep (stop_after rd stop) m' s)"
proof -
  let ?msgs = "sent (sc_events s)"
  have le: "sc_heard s \<le> length ?msgs" using ok by (simp add: stops_ok_def)
  have heard: "take (sc_heard s + (if next_event s = None then 0 else 1)) ?msgs =
      take (sc_heard s) ?msgs @ (case next_event s of Some msg \<Rightarrow> [msg] | None \<Rightarrow> [])"
    using next_msg_take [OF le] by (simp add: next_event_def)
  have le': "sc_heard s + (if next_event s = None then 0 else 1) \<le> length ?msgs"
    using le by (simp add: next_event_def next_msg_def)
  have "sc_phase (after_round keep (stop_after rd stop) m' s) = Ended \<longleftrightarrow> \<not> keep \<and> stop_after rd stop"
    "rx_alive (sc_events (after_round keep (stop_after rd stop) m' s)) \<longleftrightarrow> keep \<or> \<not> stop_after rd stop"
    using ok phase by (simp_all add: after_round_def Let_def stops_ok_def)
  moreover have "(\<not> keep \<and> stop_after rd stop) \<longleftrightarrow> stop_at (take (sc_heard s + (if next_event s = None then 0 else 1)) ?msgs)"
    unfolding heard using round_ends [OF part, of stop] rd ok phase
    by (simp add: stops_ok_def split: option.split)
  ultimately show ?thesis using le' ok by (auto simp: stops_ok_def)
qed

lemma service_step_stops:
  assumes step: "service_step L E F W connect cf ips s a s'" and ok: "stops_ok s"
  shows "stops_ok s'"
  using step
proof (cases rule: service_step.cases)
  case (On_Peer_Event ev h hex debug r)
  then show ?thesis
    using ok handler_step_events [of hex debug ev "\<lparr>eh = h, eh_tx = sc_events s, to_peer = []\<rparr>"]
    by (auto simp: stops_ok_def stop_at_def)
next
  case (On_Thread_Panic ip h time)
  then show ?thesis using ok thread_end_events [of time ip Panic "sc_events s"] by (auto simp: stops_ok_def stop_at_def)
next
  case (On_Round stop rd keep m)
  then show ?thesis using stops_ok_round [OF ok] by simp
next
  case (On_Signal time)
  then show ?thesis using ok by (auto simp: stops_ok_def chan_send_def stop_message_def stop_at_def dest: in_set_takeD)
qed (use ok in \<open>auto simp: stops_ok_def\<close>)

lemma run_stops:
  assumes "service_run L E F W connect cf ips (service_init app m db) acts s"
  shows "stops_ok s \<and> (sc_signalled s \<longrightarrow> (\<exists>time. Signal time \<in> set acts))"
  using assms
proof (induction rule: service_run.induct)
  case Nothing
  show ?case by (simp add: stops_ok_def)
next
  case (Step acts s a s')
  have "sc_signalled s' \<longrightarrow> sc_signalled s \<or> (\<exists>time. a = Signal time)"
    using Step(2) by (cases rule: service_step.cases) auto
  then show ?case using Step service_step_stops [OF Step(2)] by auto
qed

lemma ended_stays:
  assumes "service_step L E F W connect cf ips s a s'" and "sc_phase s = Ended" and "\<not> rx_alive (msg_from_rest_api (sc_app s))"
  shows "sc_phase s' = Ended \<and> sc_manager s' = sc_manager s \<and> sc_taken s' = sc_taken s \<and>
    msg_from_rest_api (sc_app s') = msg_from_rest_api (sc_app s)"
  using assms(1)
proof (cases rule: service_step.cases)
  case (On_Broadcast hexstr req answer app)
  obtain r app' where r: "rate_limit req (sc_app s) = (r, app')" by (cases "rate_limit req (sc_app s)")
  then have "msg_from_rest_api app' = msg_from_rest_api (sc_app s)"
    using rate_limit_frame [of req "sc_app s"] by simp
  then show ?thesis
    using On_Broadcast assms r
    by (auto simp: broadcast_tx_def rest_send_dead Let_def split: option.splits outcome.splits sum.splits if_splits)
next
  case (On_Add mon req response app)
  obtain r app' where r: "rate_limit req (sc_app s) = (r, app')" by (cases "rate_limit req (sc_app s)")
  then have "msg_from_rest_api app' = msg_from_rest_api (sc_app s)"
    using rate_limit_frame [of req "sc_app s"] by simp
  then show ?thesis
    using On_Add assms r by (auto simp: rest_add_monitor_def rest_send_dead split: option.splits)
next
  case (On_Delete name req response app)
  obtain r app' where r: "rate_limit req (sc_app s) = (r, app')" by (cases "rate_limit req (sc_app s)")
  then have "msg_from_rest_api app' = msg_from_rest_api (sc_app s)"
    using rate_limit_frame [of req "sc_app s"] by simp
  then show ?thesis
    using On_Delete assms r by (auto simp: rest_delete_monitor_def rest_send_dead split: option.splits)
next
  case (On_Version pkg req response app)
  obtain r app' where r: "rate_limit req (sc_app s) = (r, app')" by (cases "rate_limit req (sc_app s)")
  then have "msg_from_rest_api app' = msg_from_rest_api (sc_app s)"
    using rate_limit_frame [of req "sc_app s"] by simp
  then show ?thesis
    using On_Version assms r by (auto simp: rest_version_def split: option.splits)
qed (use assms in auto)

lemma ended_for_good:
  assumes "service_run L E F W connect cf ips s0 acts s" and "sc_phase s0 = Ended"
    and "\<not> rx_alive (msg_from_rest_api (sc_app s0))"
  shows "sc_phase s = Ended \<and> sc_manager s = sc_manager s0 \<and> sc_taken s = sc_taken s0 \<and>
    msg_from_rest_api (sc_app s) = msg_from_rest_api (sc_app s0)"
  using assms
proof (induction rule: service_run.induct)
  case (Step acts s a s')
  then show ?case using ended_stays [OF Step(2)] by simp
qed simp

text \<open>The counters never run ahead of the channels.\<close>

lemma run_counters:
  assumes "service_run L E F W connect cf ips (service_init app m db) acts s"
  shows "sc_taken s \<le> length (rest_msgs (sc_app s))" and "sc_heard s \<le> length (sent (sc_events s))"
    and "sc_done s \<le> length (sc_ops s)"
proof -
  show "sc_taken s \<le> length (rest_msgs (sc_app s))"
    using assms
  proof (induction rule: service_run.induct)
    case (Step acts s a s')
    obtain msgs where "rest_msgs (sc_app s') = rest_msgs (sc_app s) @ msgs"
      using service_step_msgs [OF Step(2)] by (elim exE conjE) (rule that)
    moreover have "sc_taken s' \<le> max (sc_taken s) (length (rest_msgs (sc_app s)))"
      using Step(2) by (cases rule: service_step.cases) (auto simp: next_rest_def next_msg_def)
    ultimately show ?case using Step(3) by simp
  qed simp
  show "sc_heard s \<le> length (sent (sc_events s))" using run_stops [OF assms] by (simp add: stops_ok_def)
  show "sc_done s \<le> length (sc_ops s)" using run_follows_schedule [OF assms] by (auto simp: follows_schedule_def)
qed

lemma service_run_trans:
  assumes "service_run L E F W connect cf ips s0 acts s" and "service_run L E F W connect cf ips s acts' s'"
  shows "service_run L E F W connect cf ips s0 (acts @ acts') s'"
  using assms(2)
proof (induction rule: service_run.induct)
  case (Step acts' s1 a s2)
  from service_run.Step [OF Step(3,2)] show ?case by simp
qed (simp add: assms(1))

lemma run_takes:
  assumes "service_run L E F W connect cf ips s0 acts s"
  shows "sc_taken s0 \<le> length (rest_msgs (sc_app s0)) \<Longrightarrow>
      min (length (rest_msgs (sc_app s0))) (sc_taken s0 + rounds_in acts) \<le> sc_taken s"
    and "sc_heard s0 \<le> length (sent (sc_events s0)) \<Longrightarrow>
      min (length (sent (sc_events s0))) (sc_heard s0 + rounds_in acts) \<le> sc_heard s"
    and "sc_done s0 \<le> length (sc_ops s0) \<Longrightarrow> min (length (sc_ops s0)) (sc_done s0 + writes_in acts) \<le> sc_done s"
proof -
  show "min (length (rest_msgs (sc_app s0))) (sc_taken s0 + rounds_in acts) \<le> sc_taken s"
    if "sc_taken s0 \<le> length (rest_msgs (sc_app s0))"
    using assms that
  proof (induction rule: service_run.induct)
    case (Step acts s a s')
    have "length (rest_msgs (sc_app s0)) \<le> length (rest_msgs (sc_app s))"
      using service_run_msgs [OF Step(1)] by (rule prefix_length_le)
    with service_step_taken [OF Step(2) this Step(3)] Step(4) show ?case by (simp add: rounds_in_def add.assoc)
  qed (simp add: rounds_in_def)
  show "min (length (sent (sc_events s0))) (sc_heard s0 + rounds_in acts) \<le> sc_heard s"
    if "sc_heard s0 \<le> length (sent (sc_events s0))"
    using assms that
  proof (induction rule: service_run.induct)
    case (Step acts s a s')
    have "length (sent (sc_events s0)) \<le> length (sent (sc_events s))"
      using service_run_events [OF Step(1)] by (rule prefix_length_le)
    with service_step_heard [OF Step(2) this Step(3)] Step(4) show ?case by (simp add: rounds_in_def add.assoc)
  qed (simp add: rounds_in_def)
  show "min (length (sc_ops s0)) (sc_done s0 + writes_in acts) \<le> sc_done s"
    if "sc_done s0 \<le> length (sc_ops s0)"
    using assms that
  proof (induction rule: service_run.induct)
    case (Step acts s a s')
    have "length (sc_ops s0) \<le> length (sc_ops s)"
      using service_run_ops [OF Step(1)] by (rule prefix_length_le)
    with service_step_done [OF Step(2) this Step(3)] Step(4) show ?case by (simp add: writes_in_def add.assoc)
  qed (simp add: writes_in_def)
qed

text \<open>What is possible: a round while the manager loops, a step of the writer while operations wait.\<close>

lemma round_possible:
  assumes "sc_life s \<noteq> Exited" and "sc_phase s = Looping stop" and "rd_peer rd = next_event s" and "rd_rest rd = next_rest s"
  shows "\<exists>s'. service_step L E F W connect cf ips s (Round rd) s'"
proof -
  obtain keep m where "peer_part L E F rd (sc_manager s) = (keep, m)" by (cases "peer_part L E F rd (sc_manager s)")
  from service_step.On_Round [OF assms this] show ?thesis by (rule exI)
qed

lemma write_possible:
  assumes "sc_life s \<noteq> Exited" and "sc_queue s \<noteq> []"
  shows "\<exists>s'. service_step L E F W connect cf ips s (Write seen) s'"
proof -
  obtain oper rest where o: "sc_queue s = oper # rest" using assms(2) by (cases "sc_queue s") simp_all
  from service_step.On_Write [OF assms(1) o refl surjective_pairing] show ?thesis by (rule exI)
qed

lemma exited_stuck: "sc_life s = Exited \<Longrightarrow> \<not> service_step L E F W connect cf ips s a s'"
  by (auto elim: service_stepE)

section \<open>The loop over the addresses\<close>

text \<open>
  The sessions of the manager in a run: the rounds between one start of a thread and the next.
\<close>

definition add_act :: "act \<Rightarrow> (instant \<times> round list) list \<Rightarrow> (instant \<times> round list) list" where
  "add_act a ses =
     (case a of
        Start_Thread now \<Rightarrow> ses @ [(now, [])]
      | Round rd \<Rightarrow> butlast ses @ [(fst (last ses), snd (last ses) @ [rd])]
      | _ \<Rightarrow> ses)"

definition sessions_of :: "act list \<Rightarrow> (instant \<times> round list) list" where
  "sessions_of acts = fold add_act acts []"

text \<open>Where the loop over the addresses stands, as a function of the phase.\<close>

definition loop_at ::
  "ext_lib \<Rightarrow> 'db db_env \<Rightarrow> 'd file_env \<Rightarrow> (string \<Rightarrow> 16 word \<Rightarrow> network \<Rightarrow> string \<Rightarrow> 'p) \<Rightarrow> config \<Rightarrow>
   string list \<Rightarrow> ('d, 'db, 'p) manager \<Rightarrow> (instant \<times> round list) list \<Rightarrow> nat \<Rightarrow> ('d, 'db, 'p) manager \<Rightarrow> bool" where
  "loop_at L E F connect cf ips m0 ses n m \<longleftrightarrow> n = length ses \<and>
     (\<forall>more_ses. peer_manager L E F connect cf ips 0 (ses @ more_ses) m0 = peer_manager L E F connect cf ips n more_ses m)"

definition rounds_at ::
  "ext_lib \<Rightarrow> 'db db_env \<Rightarrow> 'd file_env \<Rightarrow> round list \<Rightarrow> ('d, 'db, 'p) manager \<Rightarrow> bool \<Rightarrow> ('d, 'db, 'p) manager \<Rightarrow> bool" where
  "rounds_at L E F rds m0 stop m \<longleftrightarrow>
     (\<forall>more_rds. process_rounds L E F (rds @ more_rds) False m0 = process_rounds L E F more_rds stop m)"

lemma rounds_at_keep:
  "rounds_at L E F rds m0 stop m \<Longrightarrow> peer_part L E F rd m = (True, m') \<Longrightarrow>
   rounds_at L E F (rds @ [rd]) m0 (stop_after rd stop) (rest_part L E rd m')"
  by (simp add: rounds_at_def)

lemma rounds_at_leave:
  "rounds_at L E F rds m0 stop m \<Longrightarrow> peer_part L E F rd m = (False, m') \<Longrightarrow>
   process_messages L E F (rds @ [rd]) m0 = (Some (stop_after rd stop), rest_part L E rd m')"
  by (simp add: rounds_at_def process_messages_def)

definition follows_loop ::
  "ext_lib \<Rightarrow> 'db db_env \<Rightarrow> 'd file_env \<Rightarrow> (string \<Rightarrow> 16 word \<Rightarrow> network \<Rightarrow> string \<Rightarrow> 'p) \<Rightarrow> config \<Rightarrow>
   string list \<Rightarrow> ('d, 'db, 'p) manager \<Rightarrow> (instant \<times> round list) list \<Rightarrow> ('d, 'db, 'p, 'w) service \<Rightarrow> bool" where
  "follows_loop L E F connect cf ips m0 ses s =
     (case sc_phase s of
        Between \<Rightarrow> loop_at L E F connect cf ips m0 ses (sc_turn s) (sc_manager s)
      | Looping stop \<Rightarrow> (\<exists>past now rds m. ses = past @ [(now, rds)] \<and> ips \<noteq> [] \<and>
          loop_at L E F connect cf ips m0 past (sc_turn s) m \<and>
          rounds_at L E F rds
            (m\<lparr>mg_tracker := create_thread connect now (ips ! (sc_turn s mod length ips)) cf (mg_tracker m)\<rparr>)
            stop (sc_manager s))
      | Ended \<Rightarrow> peer_manager L E F connect cf ips 0 ses m0 = sc_manager s)"

lemma follows_loop_round:
  assumes f: "follows_loop L E F connect cf ips m0 ses s" and phase: "sc_phase s = Looping stop"
    and part: "peer_part L E F rd (sc_manager s) = (keep, m)"
  shows "follows_loop L E F connect cf ips m0 (add_act (Round rd) ses)
    (after_round keep (stop_after rd stop) (rest_part L E rd m) s)"
proof -
  obtain past now rds m1 where ses: "ses = past @ [(now, rds)]" "ips \<noteq> []"
    and past: "loop_at L E F connect cf ips m0 past (sc_turn s) m1"
    and rds: "rounds_at L E F rds
      (m1\<lparr>mg_tracker := create_thread connect now (ips ! (sc_turn s mod length ips)) cf (mg_tracker m1)\<rparr>) stop (sc_manager s)"
    using f phase by (auto simp: follows_loop_def)
  have act: "add_act (Round rd) ses = past @ [(now, rds @ [rd])]" by (simp add: add_act_def ses(1))
  show ?thesis
  proof (cases keep)
    case True
    then show ?thesis
      using past ses(2) rounds_at_keep [OF rds, of rd m] part
      by (auto simp: act follows_loop_def after_round_def)
  next
    case False
    with rounds_at_leave [OF rds, of rd m] part past ses(2) show ?thesis
      by (cases "stop_after rd stop") (simp_all add: act follows_loop_def after_round_def loop_at_def)
  qed
qed

lemma follows_loop_idle:
  assumes "follows_loop L E F connect cf ips m0 ses s"
    and "sc_phase s' = sc_phase s" "sc_turn s' = sc_turn s" "sc_manager s' = sc_manager s"
  shows "follows_loop L E F connect cf ips m0 ses s'"
  using assms(1) unfolding follows_loop_def assms(2-4) .

lemma follows_loop_start:
  assumes "follows_loop L E F connect cf ips m0 ses s" and "sc_phase s = Between" and "ips \<noteq> []"
  shows "follows_loop L E F connect cf ips m0 (ses @ [(now, [])])
    (s\<lparr>sc_manager := (sc_manager s)\<lparr>mg_tracker :=
        create_thread connect now (ips ! (sc_turn s mod length ips)) cf (mg_tracker (sc_manager s))\<rparr>,
      sc_phase := Looping False\<rparr>)"
proof -
  have "rounds_at L E F [] m False m" for m :: "('b, 'a, 'c) manager" by (simp add: rounds_at_def)
  then show ?thesis using assms by (auto simp: follows_loop_def)
qed

lemma run_follows_loop:
  assumes "service_run L E F W connect cf ips (service_init app m0 db) acts s"
  shows "follows_loop L E F connect cf ips m0 (sessions_of acts) s"
  using assms
proof (induction rule: service_run.induct)
  case Nothing
  show ?case by (simp add: follows_loop_def sessions_of_def loop_at_def service_init_def)
next
  case (Step acts s a s')
  have next_ses: "sessions_of (acts @ [a]) = add_act a (sessions_of acts)" for a by (simp add: sessions_of_def)
  from Step(2) show ?case
  proof (cases rule: service_step.cases)
    case (On_Start_Thread m ip now)
    then show ?thesis
      using follows_loop_idle [OF follows_loop_start [OF Step(3), of now], of s'] by (simp add: next_ses add_act_def)
  next
    case (On_Round stop rd keep m)
    then show ?thesis using follows_loop_round [OF Step(3)] by (simp add: next_ses)
  qed (simp_all add: next_ses add_act_def follows_loop_idle [OF Step(3)])
qed

end
