(* ===== verification/Service_State.thy ===== *)
theory Service_State
  imports Service_System
begin

text \<open>
  What holds in every state that a run of the service reaches: its data are well-formed, and the
  block manager is as the blocks leave it that the rounds of the run took, in their order.
\<close>

section \<open>Well-formed states\<close>

lemma monitor_txdb [simp]:
  "ta_txdb (add_monitor L w m s) = ta_txdb s" "ta_txdb (delete_monitor w n s) = ta_txdb s"
  by (simp_all add: add_monitor_def delete_monitor_def Let_def split: sum.split prod.split option.split)

interpretation formed: channel_kept L E "\<lambda>sc. wf_ta L (fst sc)"
proof unfold_locales
  fix sc :: "'a tx_analyser \<times> db_chan" and ev
  assume "wf_ta L (fst sc)"
  then show "wf_ta L (fst (ta_step L E ev sc))"
    using wf_utxo_update_db [of L "ta_utxo (fst sc)" "snd sc"]
    by (cases sc; cases ev) (simp_all add: wf_ta_ops, simp_all add: Let_def split_def wf_ta_def)
qed (simp_all add: wf_ta_def)

definition lg_formed :: "ext_lib \<Rightarrow> ('d, 'db) logic \<Rightarrow> bool" where
  "lg_formed L lg \<longleftrightarrow> wf_ta L (ta (lg_sys lg)) \<and> inventory_ok (block_inventory lg)"

interpretation formed_logic: logic_kept L E F "lg_formed L"
proof unfold_locales
  fix lg :: "('b, 'a) logic" and rnd ev
  assume "lg_formed L lg"
  then show "lg_formed L (lg_step L E F rnd ev lg)"
    using formed.lg_step_kept [of L lg E F rnd ev] by (simp add: lg_formed_def formed.sys_kept_def lg_step_inventory)
qed (simp add: lg_formed_def lg_on_connection_def Let_def wf_ta_def)

text \<open>No transaction twice in a collection; names used once, and the collections of the configuration.\<close>

interpretation distinct: channel_kept L E "\<lambda>sc. collections_distinct (fst sc)"
  by unfold_locales (simp_all add: ta_step_distinct, simp_all add: collections_distinct_def)

interpretation named: channel_kept L E "\<lambda>sc. monitors_ok (fst sc) \<and> static_names (fst sc) = names" for names
proof unfold_locales
  fix sc :: "'a tx_analyser \<times> db_chan" and ev
  assume "monitors_ok (fst sc) \<and> static_names (fst sc) = names"
  then show "monitors_ok (fst (ta_step L E ev sc)) \<and> static_names (fst (ta_step L E ev sc)) = names"
    using ta_step_monitors [of "fst sc" L E ev "snd sc"] by simp
qed (simp_all add: monitors_ok_def static_names_def coll_names_def dynamic_names_def)

text \<open>The logic that a start of the service hands on.\<close>

lemma run_start_logic:
  assumes "run_start L E F parse cfg logger pool conns ta_conns file srows db disk = Inr (app, cf, m, ips)"
  obtains lg where "lg_new L cf conns ta_conns file db disk = Inr lg" and "mg_logic m = lg_setup L E F srows lg"
    and "mg_tracker m = tt_new"
  using assms by (auto simp: run_start_def Let_def split: sum.splits)

lemma lg_new_sel:
  assumes "lg_new L cf conns ta_conns file db disk = Inr lg"
  obtains save where "ta_utxo (ta (lg_sys lg)) = utxo_new" and "ta_txdb (ta (lg_sys lg)) = txdb_new save"
    and "block_inventory lg = []" and "detecting_orphans lg = oc_detect (cf_orphan cf)"
    and "bm_new L cf disk = Inr (bm (lg_sys lg))"
  using assms by (auto simp: lg_new_def ta_new_def Let_def split: prod.splits sum.splits if_splits)

lemma wf_read_tables: "wf_ta L s \<Longrightarrow> wf_ta L (read_tables L mempool_rows tx_rows utxo_rows collection_rows s)"
  by (simp add: read_tables_def Let_def wf_ta_def wf_load_utxo wf_txdb_load_tx wf_txdb_load_mempool)

lemma start_formed:
  assumes "run_start L E F parse cfg logger pool conns ta_conns file srows db disk = Inr (app, cf, m, ips)"
  shows "lg_formed L (mg_logic m)" and "mg_tracker m = tt_new"
proof -
  obtain lg where lg: "lg_new L cf conns ta_conns file db disk = Inr lg" "mg_logic m = lg_setup L E F srows lg"
    and "mg_tracker m = tt_new" by (rule run_start_logic [OF assms])
  then show "mg_tracker m = tt_new" by simp
  obtain save where new: "ta_utxo (ta (lg_sys lg)) = utxo_new" "ta_txdb (ta (lg_sys lg)) = txdb_new save"
    "block_inventory lg = []" by (rule lg_new_sel [OF lg(1)])
  let ?s = "(lg_sys lg)\<lparr>ta := read_tables L (sr_mempool srows) (sr_txs srows) (sr_utxo srows) (sr_collections srows) (ta (lg_sys lg))\<rparr>"
  have "wf_ta L (ta (lg_sys lg))" using new by (simp add: wf_ta_def)
  then have "wf_ta L (ta ?s)" by (simp add: wf_read_tables)
  then have "wf_ta L (ta (bm_setup L E F (sr_headers srows) (sr_opened srows) (sr_blocks srows) ?s))"
    using formed.bm_setup_kept [of L ?s] by (simp add: formed.sys_kept_def)
  then show "lg_formed L (mg_logic m)"
    using new by (simp add: lg(2) lg_formed_def lg_setup_def Let_def inventory_ok_def)
qed

text \<open>The threads that are tracked and the handlers that are subscribed are those of known addresses.\<close>

definition tracks :: "string list \<Rightarrow> 'p thread_tracker \<Rightarrow> bool" where
  "tracks ips tt \<longleftrightarrow> wf_tt tt \<and> (\<forall>ip. hm_get (children tt) ip \<noteq> None \<longrightarrow> ip \<in> set ips)"

lemma wf_tt_stops: "wf_tt tt \<Longrightarrow> wf_tt (fold tt_stop ks tt)"
  by (induction ks arbitrary: tt) (simp_all add: wf_tt_ops)

lemma child_stays:
  "hm_get (children (tt_set_status ip st tt)) k = None \<longleftrightarrow> hm_get (children tt) k = None"
  "hm_get (children (tt_stop ip tt)) k = None \<longleftrightarrow> hm_get (children tt) k = None"
  "hm_get (children tt) k = None \<Longrightarrow> hm_get (children (join_thread ip tt)) k = None"
  by (cases "k = ip"; simp add: children_other tt_set_status_same tt_stop_same join_thread_same)+

lemma tracks_ops:
  assumes "tracks ips tt"
  shows "tracks ips (tt_set_status ip st tt)" and "tracks ips (tt_stop ip tt)" and "tracks ips (join_thread ip tt)"
    and "tracks ips (stop_all tt)" and "ip \<in> set ips \<Longrightarrow> tracks ips (create_thread connect now ip cf tt)"
proof -
  show "tracks ips (tt_set_status ip st tt)" "tracks ips (tt_stop ip tt)" "tracks ips (stop_all tt)"
    using assms by (simp_all add: tracks_def child_stays wf_tt_ops stop_all_get, simp add: stop_all_def wf_tt_stops)
  show "tracks ips (join_thread ip tt)"
    using assms child_stays(3) [of tt _ ip] by (force simp: tracks_def wf_tt_ops)
  have "tracks ips (tt_add ip p tt)" if "ip \<in> set ips" for p
  proof -
    have "k \<in> set ips" if "hm_get (children (tt_add ip p tt)) k \<noteq> None" for k
      using that \<open>ip \<in> set ips\<close> assms children_other(1) [of k ip p tt] by (cases "k = ip") (simp_all add: tracks_def)
    then show ?thesis using assms by (simp add: tracks_def wf_tt_ops)
  qed
  then show "tracks ips (create_thread connect now ip cf tt)" if "ip \<in> set ips"
    using assms that by (simp add: create_thread_def split: sum.split)
qed

lemma peer_part_tracks: "tracks ips (mg_tracker m) \<Longrightarrow> tracks ips (mg_tracker (snd (peer_part L E F rd m)))"
  by (cases "rd_peer rd"; simp add: peer_part_def peer_half_sel)
    (simp add: process_event_inner_def Let_def tracks_ops split: peer_event_type.split)

definition threads_formed :: "string list \<Rightarrow> ('d, 'db, 'p, 'w) service \<Rightarrow> bool" where
  "threads_formed ips s \<longleftrightarrow> tracks ips (mg_tracker (sc_manager s)) \<and> dom (sc_handlers s) \<subseteq> set ips"

lemma new_handler_dom: "dom (new_handler cf now ip handlers) \<subseteq> insert ip (dom handlers)"
  by (auto simp: new_handler_def split: sum.splits if_splits)

lemma service_step_threads:
  assumes step: "service_step L E F W connect cf ips s a s'" and ok: "threads_formed ips s"
  shows "threads_formed ips s'"
  using step
proof (cases rule: service_step.cases)
  case (On_Start_Thread m ip now)
  then have ip: "ip \<in> set ips" by simp
  have "tracks ips (create_thread connect now ip cf (mg_tracker (sc_manager s)))"
    using ok ip by (simp add: threads_formed_def tracks_ops(5))
  moreover have "dom (new_handler cf now ip (sc_handlers s)) \<subseteq> set ips"
    using new_handler_dom [of cf now ip "sc_handlers s"] ok ip unfolding threads_formed_def by blast
  ultimately show ?thesis by (simp add: On_Start_Thread(2) On_Start_Thread(6,7) threads_formed_def)
next
  case (On_Peer_Event ev h hex debug r)
  then show ?thesis using ok by (auto simp: threads_formed_def)
next
  case (On_Round stop rd keep m)
  then show ?thesis using ok peer_part_tracks [of ips "sc_manager s" L E F rd]
    by (auto simp: threads_formed_def)
qed (use ok in \<open>simp_all add: threads_formed_def\<close>)

text \<open>
  A well-formed state: no address, outpoint or hash stands twice in a map, every row waits under the key
  it will have in the table, the first entry of the inventory is not empty, no counter is ahead
  of its channel, and the manager's ends of the channels are gone exactly when it has ended.
\<close>

definition ends_formed :: "('d, 'db, 'p, 'w) service \<Rightarrow> bool" where
  "ends_formed s \<longleftrightarrow> (rx_alive (sc_events s) \<longleftrightarrow> sc_phase s \<noteq> Ended) \<and>
     (rx_alive (msg_from_rest_api (sc_app s)) \<longleftrightarrow> sc_phase s \<noteq> Ended)"

definition service_formed :: "ext_lib \<Rightarrow> string list \<Rightarrow> ('d, 'db, 'p, 'w) service \<Rightarrow> bool" where
  "service_formed L ips s \<longleftrightarrow> lg_formed L (mg_logic (sc_manager s)) \<and> threads_formed ips s \<and> ends_formed s \<and>
     sc_taken s \<le> length (rest_msgs (sc_app s)) \<and> sc_heard s \<le> length (sent (sc_events s)) \<and>
     sc_done s \<le> length (sc_ops s)"

lemma request_keeps_ends:
  "rx_alive (msg_from_rest_api (snd (broadcast_tx L hexstr req app))) = rx_alive (msg_from_rest_api app)"
  "rx_alive (msg_from_rest_api (snd (rest_add_monitor mon req app))) = rx_alive (msg_from_rest_api app)"
  "rx_alive (msg_from_rest_api (snd (rest_delete_monitor name req app))) = rx_alive (msg_from_rest_api app)"
  "rx_alive (msg_from_rest_api (snd (rest_version pkg req app))) = rx_alive (msg_from_rest_api app)"
proof -
  obtain r app' where r: "rate_limit req app = (r, app')" by (cases "rate_limit req app")
  then have same: "msg_from_rest_api app' = msg_from_rest_api app" using rate_limit_frame(1) [of req app] by simp
  show "rx_alive (msg_from_rest_api (snd (broadcast_tx L hexstr req app))) = rx_alive (msg_from_rest_api app)"
    using r same by (auto simp: broadcast_tx_def rest_send_def chan_send_def Let_def
        split: option.split outcome.split sum.split)
  show "rx_alive (msg_from_rest_api (snd (rest_add_monitor mon req app))) = rx_alive (msg_from_rest_api app)"
    "rx_alive (msg_from_rest_api (snd (rest_delete_monitor name req app))) = rx_alive (msg_from_rest_api app)"
    "rx_alive (msg_from_rest_api (snd (rest_version pkg req app))) = rx_alive (msg_from_rest_api app)"
    using r same by (auto simp: rest_add_monitor_def rest_delete_monitor_def rest_version_def rest_send_def chan_send_def
        split: option.split sum.split)
qed

lemma service_step_ends:
  assumes step: "service_step L E F W connect cf ips s a s'" and ok: "ends_formed s"
  shows "ends_formed s'"
  using step
proof (cases rule: service_step.cases)
  case (On_Broadcast hexstr req answer app)
  then show ?thesis using ok request_keeps_ends(1) [of L hexstr req "sc_app s"] by (simp add: ends_formed_def)
next
  case (On_Add mon req response app)
  then show ?thesis using ok request_keeps_ends(2) [of mon req "sc_app s"] by (simp add: ends_formed_def)
next
  case (On_Delete name req response app)
  then show ?thesis using ok request_keeps_ends(3) [of name req "sc_app s"] by (simp add: ends_formed_def)
next
  case (On_Version pkg req response app)
  then show ?thesis using ok request_keeps_ends(4) [of pkg req "sc_app s"] by (simp add: ends_formed_def)
next
  case (On_Peer_Event ev h hex debug r)
  then show ?thesis
    using ok handler_step_events [of hex debug ev "\<lparr>eh = h, eh_tx = sc_events s, to_peer = []\<rparr>"]
    by (auto simp: ends_formed_def)
next
  case (On_Thread_Panic ip h time)
  then show ?thesis using ok thread_end_events [of time ip Panic "sc_events s"] by (auto simp: ends_formed_def)
next
  case (On_Round stop rd keep m)
  then show ?thesis using ok by (simp add: ends_formed_def after_round_def close_rest_def Let_def)
qed (use ok in \<open>simp_all add: ends_formed_def chan_send_def\<close>)

lemma run_formed:
  assumes "service_run L E F W connect cf ips s0 acts s" and "threads_formed ips s0" and "ends_formed s0"
  shows "threads_formed ips s" and "ends_formed s"
proof -
  have "threads_formed ips s \<and> ends_formed s"
    using assms
    by (induction rule: service_run.induct) (simp, blast intro: service_step_threads service_step_ends)
  then show "threads_formed ips s" "ends_formed s" by simp_all
qed

section \<open>The blocks of a run\<close>

text \<open>The block manager's own state depends on itself and the blocks only.\<close>

lemma bm_process_block_only:
  "bm s = bm s' \<Longrightarrow> bm (bm_process_block L E b s) = bm (bm_process_block L E b s')"
  by (simp add: bm_process_block_def Let_def split: option.split prod.split)

lemma process_queued_only:
  "bm s = bm s' \<Longrightarrow> bm (process_queued L E F e s) = bm (process_queued L E F e s')"
  by (auto simp: process_queued_def Let_def split: option.split prod.split intro!: bm_process_block_only)

lemma process_block_queue_only:
  "bm s = bm s' \<Longrightarrow> bm (process_block_queue L E F s) = bm (process_block_queue L E F s')"
proof (induction "length (block_queue (bm s))" arbitrary: s s' rule: less_induct)
  case less
  show ?case
  proof (cases "hm_get (block_queue (bm s)) (last_hash_processed (bm s))")
    case None
    then show ?thesis using less.prems by (simp add: process_block_queue.simps [of L E F s] process_block_queue.simps [of L E F s'])
  next
    case (Some e)
    let ?m = "(bm s)\<lparr>block_queue := hm_remove (last_hash_processed (bm s)) (block_queue (bm s))\<rparr>"
    have "bm (process_queued L E F e (s\<lparr>bm := ?m\<rparr>)) = bm (process_queued L E F e (s'\<lparr>bm := ?m\<rparr>))"
      by (rule process_queued_only) simp
    from less.hyps [OF _ this] Some length_hm_remove [OF Some] less.prems
    show ?thesis by (simp add: process_block_queue.simps [of L E F s] process_block_queue.simps [of L E F s'])
  qed
qed

lemma bm_on_block_only: "bm s = bm s' \<Longrightarrow> bm (bm_on_block L E F b s) = bm (bm_on_block L E F b s')"
  by (auto simp: bm_on_block_def Let_def split: prod.split intro!: process_block_queue_only bm_process_block_only)

text \<open>Where orphans are not detected, only blocks change the block manager.\<close>

definition holds_blocks ::
  "ext_lib \<Rightarrow> 'db db_env \<Rightarrow> 'd file_env \<Rightarrow> ('d, 'db) bm_sys \<Rightarrow> block list \<Rightarrow> ('d, 'db) logic \<Rightarrow> bool" where
  "holds_blocks L E F s0 bs lg \<longleftrightarrow> \<not> detecting_orphans lg \<and> bm (lg_sys lg) = bm (fold (bm_on_block L E F) bs s0)"

lemma lg_step_bm:
  assumes "\<And>now b. ev \<noteq> On_Block now b"
  shows "bm (lg_sys (lg_step L E F rnd ev lg)) = bm (lg_sys lg)"
    and "detecting_orphans (lg_step L E F rnd ev lg) = detecting_orphans lg"
proof -
  have "bm (lg_sys (lg_on_tx L E now t br lg)) = bm (lg_sys lg)"
    "detecting_orphans (lg_on_tx L E now t br lg) = detecting_orphans lg" for now t br
    by (simp_all add: lg_on_tx_def Let_def split_def)
  moreover have "bm (lg_sys (lg_on_inv L rnd objects lg)) = bm (lg_sys lg)"
    "detecting_orphans (lg_on_inv L rnd objects lg) = detecting_orphans lg" for objects
    by (simp_all add: lg_on_inv_def push_message_def Let_def)
  moreover have "bm (lg_sys (lg_flush_database_cache lg)) = bm (lg_sys lg)"
    "detecting_orphans (lg_flush_database_cache lg) = detecting_orphans lg" by (simp_all add: lg_flush_eq)
  ultimately show "bm (lg_sys (lg_step L E F rnd ev lg)) = bm (lg_sys lg)"
    "detecting_orphans (lg_step L E F rnd ev lg) = detecting_orphans lg"
    using assms by (cases ev; simp add: lg_on_addr_def message_to_send_def lg_monitor_def Let_def split_def)+
qed

interpretation holding: block_follower L E F "holds_blocks L E F s0" for s0
proof unfold_locales
  fix bs and lg :: "('b, 'a) logic" and b rnd now
  show "holds_blocks L E F s0 bs lg \<Longrightarrow> holds_blocks L E F s0 (bs @ [b]) (lg_on_block L E F rnd now b lg)"
    using bm_on_block_only [of "lg_sys lg" "fold (bm_on_block L E F) bs s0"]
    by (simp add: holds_blocks_def not_detecting_on_block)
qed (simp_all add: holds_blocks_def lg_step_bm, simp add: lg_on_connection_def Let_def)

section \<open>The chain at the start\<close>

lemma bm_new_sel:
  assumes "bm_new L cf disk = Inr m" and "get_network_settings cf = Inr ns"
  shows "block_headers m = []" and "hash_to_index m = []" and "block_queue m = []"
    and "startup_load_from_database m = ns_startup_load_from_database ns"
  using assms by (auto simp: bm_new_def split: option.splits)

lemma start_chain:
  assumes L: "hash_codec_ok L" and off: "\<not> oc_detect (cf_orphan cf)"
    and db: "get_network_settings cf = Inr ns" "ns_startup_load_from_database ns"
    and stored: "linked L base hs" "hs \<noteq> []" "sr_headers srows = Some (map (stored_header L) (enumerate h0 hs))"
      "h0 + length hs < 2 ^ 31"
    and start: "run_start L E F parse cfg logger pool conns ta_conns file srows db0 disk = Inr (app, cf, m, ips)"
  shows "chain_inv L base h0 (bm (lg_sys (mg_logic m)))" and "block_headers (bm (lg_sys (mg_logic m))) = hs"
    and "block_queue (bm (lg_sys (mg_logic m))) = []" and "\<not> detecting_orphans (mg_logic m)"
proof -
  obtain lg where lg: "lg_new L cf conns ta_conns file db0 disk = Inr lg" "mg_logic m = lg_setup L E F srows lg"
    by (rule run_start_logic [OF start])
  obtain save where new: "detecting_orphans lg = oc_detect (cf_orphan cf)" "bm_new L cf disk = Inr (bm (lg_sys lg))"
    by (rule lg_new_sel [OF lg(1)])
  note bm = bm_new_sel [OF new(2) db(1)]
  let ?s = "(lg_sys lg)\<lparr>ta := read_tables L (sr_mempool srows) (sr_txs srows) (sr_utxo srows) (sr_collections srows) (ta (lg_sys lg))\<rparr>"
  let ?m = "bm (bm_setup L E F (sr_headers srows) (sr_opened srows) (sr_blocks srows) ?s)"
  have m: "bm (lg_sys (mg_logic m)) = ?m" and "\<not> detecting_orphans (mg_logic m)"
    using off new(1) by (simp_all add: lg(2) lg_setup_def Let_def)
  then show "\<not> detecting_orphans (mg_logic m)" by simp
  have "block_headers ?m = hs \<and> chain_inv L base h0 ?m"
    using stored_chain [OF L stored(1,2,4), where s = ?s and E = E and F = F and opened = "sr_opened srows"
        and bs = "sr_blocks srows" and rows = "map (stored_header L) (enumerate h0 hs)"] bm db(2) stored(3)
    by (simp add: Let_def)
  then show "chain_inv L base h0 (bm (lg_sys (mg_logic m)))" "block_headers (bm (lg_sys (mg_logic m))) = hs"
    unfolding m by simp_all
  have "block_queue ?m = []"
    using bm db(2) stored by (simp add: bm_setup_def Let_def load_blockheaders_from_database_def load_stored_headers(4) [OF L stored(4)])
  then show "block_queue (bm (lg_sys (mg_logic m))) = []" unfolding m .
qed

lemma new_blocks_appended:
  assumes m: "chain_inv L base h0 (bm s0)" "block_headers (bm s0) = hs" "block_queue (bm s0) = []"
    and bs: "new_chain L (tip L base hs) bs" "set got = set bs"
      "header_hash L ` set (map blk_header bs) \<inter> header_hash L ` set hs = {}"
    and room: "h0 + length hs + length got < 2 ^ 31"
  shows "block_headers (bm (fold (bm_on_block L E F) got s0)) = hs @ map blk_header bs"
    and "block_queue (bm (fold (bm_on_block L E F) got s0)) = []"
proof -
  have at: "unat (bm_height (bm s0)) = h0 + length hs" "last_hash_processed (bm s0) = tip L base hs"
    using m(1,2) by (simp_all add: chain_inv_def)
  have "length bs \<le> length got"
    using bs distinct_card [of bs] card_length [of got] by (auto simp: new_chain_def distinct_map)
  moreover have "\<not> hm_contains (hash_to_index (bm s0)) (header_hash L (blk_header b))" if "b \<in> set bs" for b
    using m(1,2) bs(3) that by (auto simp: chain_inv_def hm_contains_def heights_None)
  then have "partly L (last_hash_processed (bm s0)) bs hs (h0 + length hs) 0 {} (bm s0)"
    using m at by (intro partlyI) (simp_all add: chain_key_Suc queue_ok_def, simp add: chain_key_def)
  ultimately show "block_headers (bm (fold (bm_on_block L E F) got s0)) = hs @ map blk_header bs"
    "block_queue (bm (fold (bm_on_block L E F) got s0)) = []"
    using on_block.recv_all [OF _ _ _ bs(2), of L "tip L base hs" "h0 + length hs" hs s0 E F] bs(1) room at(2) by simp_all
qed

text \<open>What blocks have made of the chain, in any run from the start.\<close>

lemma run_chain:
  assumes L: "hash_codec_ok L" and off: "\<not> oc_detect (cf_orphan cf)"
    and db: "get_network_settings cf = Inr ns" "ns_startup_load_from_database ns"
    and stored: "linked L base hs" "hs \<noteq> []" "sr_headers srows = Some (map (stored_header L) (enumerate h0 hs))"
      "h0 + length hs < 2 ^ 31"
    and start: "run_start L E F parse cfg logger pool conns ta_conns file srows db0 disk = Inr (app, cf, m, ips)"
    and run: "service_run L E F W connect cf ips (service_init app m w0) acts s"
  shows "bm (lg_sys (mg_logic (sc_manager s))) = bm (fold (bm_on_block L E F) (blocks_taken acts) (lg_sys (mg_logic m)))"
proof -
  note m = start_chain [OF L off db stored start]
  have "holds_blocks L E F (lg_sys (mg_logic m)) [] (mg_logic (sc_manager (service_init app m w0)))"
    using m(4) by (simp add: holds_blocks_def)
  from holding.service_run_follows [OF run this] show ?thesis by (simp add: holds_blocks_def)
qed

lemma start_channel:
  assumes "run_start L E F parse cfg logger pool conns ta_conns file srows db0 disk = Inr (app, cf, m, ips)"
    and "get_network_settings cf = Inr ns" and "ns_startup_load_from_database ns"
  shows "ch (lg_sys (mg_logic m)) = open_chan"
proof -
  obtain lg where lg: "lg_new L cf conns ta_conns file db0 disk = Inr lg" "mg_logic m = lg_setup L E F srows lg"
    by (rule run_start_logic [OF assms(1)])
  obtain save where "bm_new L cf disk = Inr (bm (lg_sys lg))" by (rule lg_new_sel [OF lg(1)])
  from bm_new_sel(4) [OF this assms(2)] have "startup_load_from_database (bm (lg_sys lg))" using assms(3) by simp
  moreover have "ch (lg_sys lg) = open_chan"
    using lg(1) by (auto simp: lg_new_def Let_def split: prod.splits sum.splits if_splits)
  ultimately show ?thesis by (simp add: lg(2) lg_setup_def bm_setup_def Let_def)
qed

end
