(* ===== verification/Header_Table.thy ===== *)
theory Header_Table
  imports Service_State
begin

text \<open>
  The table \<open>blocks\<close> behind the writer: what the statements mean on it, what the block manager
  has written, and so what a restart reads after any run.
\<close>

section \<open>The table\<close>

text \<open>
  Its rows in the order in which they were inserted, without the columns that loading ignores. The
  primary key is the hash, so a second row for a hash is refused.
\<close>

fun stmt_on_blocks :: "sql_stmt \<Rightarrow> db_header list \<Rightarrow> db_header list" where
  "stmt_on_blocks (InsertBlock height hash version prev_hash merkle_root time bits nonce position blocksize numtxs) t =
     t @ [\<lparr>dh_height = height, dh_hash = hash, dh_version = version, dh_prev_hash = prev_hash,
           dh_merkle_root = merkle_root, dh_timestamp = time, dh_bits = bits, dh_nonce = nonce\<rparr>]"
| "stmt_on_blocks (DeleteBlock hash) t = filter (\<lambda>r. dh_hash r \<noteq> hash) t"
| "stmt_on_blocks _ t = t"

fun key_free :: "sql_stmt \<Rightarrow> db_header list \<Rightarrow> bool" where
  "key_free (InsertBlock height hash version prev_hash merkle_root time bits nonce position blocksize numtxs) t =
     list_all (\<lambda>r. dh_hash r \<noteq> hash) t"
| "key_free _ t = True"

fun concerns_blocks :: "sql_stmt \<Rightarrow> bool" where
  "concerns_blocks (InsertBlock _ _ _ _ _ _ _ _ _ _ _) = True"
| "concerns_blocks (DeleteBlock _) = True"
| "concerns_blocks _ = False"

definition blocks_server_ok :: "'db db_env \<Rightarrow> ('db \<Rightarrow> db_header list) \<Rightarrow> bool" where
  "blocks_server_ok W tbl \<longleftrightarrow> table_server W tbl concerns_blocks key_free stmt_on_blocks"

text \<open>The query that loads them.\<close>

definition select_blocks :: "db_header list \<Rightarrow> db_header list" where
  "select_blocks t = sort_key dh_height t"

text \<open>The rows that a sequence of operations writes.\<close>

fun header_row :: "ext_lib \<Rightarrow> db_operation_type \<Rightarrow> db_header list" where
  "header_row L (BlockHeaderWrite h) =
     [\<lparr>dh_height = bw_height h, dh_hash = hash_encode L (bw_hash h), dh_version = bw_version h,
       dh_prev_hash = hash_encode L (bw_prev_hash h), dh_merkle_root = hash_encode L (bw_merkle_root h),
       dh_timestamp = bw_timestamp h, dh_bits = bw_bits h, dh_nonce = bw_nonce h\<rparr>]"
| "header_row L _ = []"

abbreviation header_rows :: "ext_lib \<Rightarrow> db_operation_type list \<Rightarrow> db_header list" where
  "header_rows L opers \<equiv> concat (map (header_row L) opers)"

fun deletes_header :: "db_operation_type \<Rightarrow> bool" where
  "deletes_header (BlockHeaderDelete _) = True"
| "deletes_header _ = False"

lemma retry_on_blocks:
  "blocks_server_ok E tbl \<Longrightarrow> key_free stmt (tbl db) \<Longrightarrow>
   tbl (snd (retry_stmt E stmt db)) = stmt_on_blocks stmt (tbl db)"
  unfolding blocks_server_ok_def by (erule table_server.retry_effect) simp

lemma exec_op_on_blocks:
  assumes E: "blocks_server_ok E tbl" and oper: "\<not> deletes_header oper"
    and key: "distinct (map dh_hash (tbl db @ header_row L oper))"
  shows "tbl (exec_op L E oper db) = tbl db @ header_row L oper"
proof -
  have "tbl (snd (retry_stmt E stmt db)) = tbl db" if "stmt_on_blocks stmt (tbl db) = tbl db" "key_free stmt (tbl db)" for stmt
    using retry_on_blocks [OF E that(2)] that(1) by simp
  moreover have "list_all (\<lambda>r. dh_hash r \<noteq> hash_encode L (bw_hash h)) (tbl db)" if "oper = BlockHeaderWrite h" for h
    using key that by (force simp: list_all_iff)
  ultimately show ?thesis
    using oper retry_on_blocks [OF E]
    by (cases oper)
      (simp_all add: exec_op_def perform_db_operation_def coalesce_defs utxo_batch_write_def utxo_batch_delete_def
        tx_batch_write_def mempool_batch_write_def mempool_batch_delete_def block_header_write_def
        tx_delete_at_height_def utxo_delete_at_height_def orphan_block_header_write_def)
qed

lemma exec_ops_on_blocks:
  assumes E: "blocks_server_ok E tbl"
  shows "\<not> list_ex deletes_header opers \<Longrightarrow> distinct (map dh_hash (tbl db @ header_rows L opers)) \<Longrightarrow>
    tbl (fold (exec_op L E) opers db) = tbl db @ header_rows L opers"
proof (induction opers arbitrary: db)
  case (Cons oper opers)
  have "tbl (exec_op L E oper db) = tbl db @ header_row L oper"
    using Cons.prems by (intro exec_op_on_blocks [OF E]) auto
  then show ?case using Cons.IH [of "exec_op L E oper db"] Cons.prems by simp
qed simp

text \<open>Merging keeps these rows, whatever it drops of the batches.\<close>

lemma header_rows_rows_of:
  "header_rows L (rows_of opers) = header_rows L opers"
  "list_ex deletes_header (rows_of opers) = list_ex deletes_header opers"
proof -
  have "header_rows L (op_rows oper) = header_row L oper \<and> list_ex deletes_header (op_rows oper) = deletes_header oper" for oper
    by (cases oper) (simp_all add: comp_def list_ex_iff)
  then show "header_rows L (rows_of opers) = header_rows L opers"
    "list_ex deletes_header (rows_of opers) = list_ex deletes_header opers"
    by (induction opers) simp_all
qed

lemma perform_on_blocks:
  assumes E: "blocks_server_ok E tbl" and q: "worker_dropped q = []" "\<not> list_ex deletes_header (arrivals q)"
    and key: "distinct (map dh_hash (tbl db @ header_rows L (arrivals q)))"
  shows "tbl (perform_db_operations L E q db) = tbl db @ header_rows L (arrivals q)"
proof -
  have "header_rows L (worker_trace q) = header_rows L (arrivals q)"
    "list_ex deletes_header (worker_trace q) = list_ex deletes_header (arrivals q)"
    using worker_keeps_order [OF q(1)] header_rows_rows_of by metis+
  with exec_ops_on_blocks [OF E, of "worker_trace q" db L] q(2) key show ?thesis by (simp add: perform_trace)
qed

section \<open>What the block manager has written\<close>

text \<open>
  \<open>B\<close> are the headers of the stored chain and of the blocks that come; among them no two have the
  same hash, and none has the hash that the chain starts from. Then no header is appended twice, and
  each that is appended has been written just before.
\<close>

definition chain_of :: "ext_lib \<Rightarrow> hash256 \<Rightarrow> nat \<Rightarrow> block_header set \<Rightarrow> 'd block_manager \<Rightarrow> bool" where
  "chain_of L base h0 B m \<longleftrightarrow> chain_part L base h0 m \<and> queue_ok m \<and> room m \<and> distinct (block_headers m) \<and>
     set (block_headers m) \<subseteq> B \<and>
     (\<forall>k e. hm_get (block_queue m) k = Some e \<longrightarrow> blk_header (bp_block e) \<in> B)"

definition collision_free :: "ext_lib \<Rightarrow> hash256 \<Rightarrow> block_header set \<Rightarrow> bool" where
  "collision_free L base B \<longleftrightarrow> inj_on (header_hash L) B \<and> base \<notin> header_hash L ` B"

text \<open>A header that builds on the tip is not in the chain.\<close>

lemma linked_prev_index:
  assumes "linked L base hs" and "i < length hs"
  shows "bh_prev_hash (hs ! i) = tip L base (take i hs)"
  using assms
proof (induction hs rule: rev_induct)
  case (snoc h hs)
  then show ?case by (cases "i = length hs") (auto simp: linked_snoc nth_append less_Suc_eq)
qed simp

lemma next_is_new:
  assumes free: "collision_free L base B" and hs: "linked L base hs" "distinct hs" "set hs \<subseteq> B"
    and h: "bh_prev_hash h = tip L base hs"
  shows "h \<notin> set hs"
proof
  assume "h \<in> set hs"
  then obtain i where i: "i < length hs" "h = hs ! i" by (auto simp: in_set_conv_nth)
  have eq: "tip L base (take i hs) = header_hash L (last hs)"
    using linked_prev_index [OF hs(1) i(1)] h i by (auto simp: tip_def)
  have last: "last hs \<in> B" using hs(3) i(1) by (metis last_in_set list.size(3) not_less_zero subsetD)
  show False
  proof (cases i)
    case 0
    then show False using eq last free by (simp add: tip_def collision_free_def)
  next
    case (Suc j)
    then have j: "hs ! j \<in> B" "take i hs \<noteq> []" "last (take i hs) = hs ! j"
      using i(1) hs(3) by (auto simp: take_Suc_conv_app_nth)
    then have "hs ! j = last hs" using eq free last by (auto simp: tip_def collision_free_def dest: inj_onD)
    then have "hs ! j = hs ! (length hs - 1)" using i(1) by (cases hs) (simp_all add: last_conv_nth)
    then show False using hs(2) i(1) Suc by (simp add: nth_eq_iff_index_eq)
  qed
qed

lemma index_of_chain:
  assumes "collision_free L base B" and "chain_of L base h0 B m" and "h \<in> B"
  shows "hm_contains (hash_to_index m) (header_hash L h) \<longleftrightarrow> h \<in> set (block_headers m)"
proof -
  have "header_hash L h \<in> header_hash L ` set (block_headers m) \<longleftrightarrow> h \<in> set (block_headers m)"
    using assms by (auto simp: chain_of_def collision_free_def inj_on_def)
  then show ?thesis
    using assms(2) heights_None [of L h0 "block_headers m" "header_hash L h"]
    by (auto simp: chain_of_def chain_part_def hm_contains_def)
qed

definition writes_chain :: "ext_lib \<Rightarrow> nat \<Rightarrow> block_header list \<Rightarrow> ('d, 'db) bm_sys \<Rightarrow> bool" where
  "writes_chain L h0 hs s \<longleftrightarrow> rx_alive (ch s) \<and> \<not> list_ex deletes_header (sent (ch s)) \<and>
     (\<exists>more_hs. block_headers (bm s) = hs @ more_hs \<and>
        header_rows L (sent (ch s)) = map (stored_header L) (enumerate (h0 + length hs) more_hs))"

lemma no_header_in_flush: "header_rows L (flush_ops s) = []" "\<not> list_ex deletes_header (flush_ops s)"
  by (simp_all add: flush_ops_def utxo_pending_def)

text \<open>One block appended and written, at a known position or after the write to the block file.\<close>

lemma append_written:
  fixes s :: "('d, 'db) bm_sys" and L E b m pos bsize ntxs
  assumes free: "collision_free L base B" and m: "same_chain (bm s) m" and b: "blk_header b \<in> B"
    and c: "chain_part L base h0 (bm s)" "distinct (block_headers (bm s))" "set (block_headers (bm s)) \<subseteq> B"
    and prev: "bh_prev_hash (blk_header b) = last_hash_processed (bm s)" and h31: "unat (bm_height (bm s)) < 2 ^ 31"
    and w: "writes_chain L h0 hs s"
  defines "s' \<equiv> bm_process_block L E b
    (s\<lparr>bm := m, ch := write_blockheader_to_database L (blk_header b) pos bsize ntxs m (ch s)\<rparr>)"
  shows "bm s' = append_header L (blk_header b) m" and "writes_chain L h0 hs s'" and "distinct (block_headers (bm s'))"
    and "set (block_headers (bm s')) \<subseteq> B"
proof -
  let ?h = "blk_header b" and ?hs = "block_headers (bm s)"
  note same = same_chain_sel [OF m]
  have new: "?h \<notin> set ?hs"
    using next_is_new [OF free, of ?hs ?h] c prev by (simp add: chain_part_def)
  then have "header_hash L ?h \<notin> header_hash L ` set ?hs"
    using free b c(3) by (auto simp: collision_free_def inj_on_def)
  then have fresh: "\<not> hm_contains (hash_to_index m) (header_hash L ?h)"
    using c(1) by (simp add: same chain_part_def hm_contains_def heights_None)
  show bm: "bm s' = append_header L ?h m"
    unfolding s'_def using prev h31 same by (subst bm_process_block_bm) simp_all
  show "distinct (block_headers (bm s'))" "set (block_headers (bm s')) \<subseteq> B"
    using new c(2,3) b by (simp_all add: bm same)
  have height: "bm_height m = of_nat (h0 + length ?hs)"
    using c(1) unfolding chain_part_def same by (metis unat_of_nat_word)
  have "unat (of_nat (h0 + length ?hs) :: u32) = h0 + length ?hs" using c(1) height same(4) by (simp add: chain_part_def)
  obtain ops where ops: "ch s' = chan_sends (BlockHeaderWrite \<lparr>bw_height = bm_height m, bw_hash = header_hash L ?h,
        bw_version = bh_version ?h, bw_prev_hash = bh_prev_hash ?h, bw_merkle_root = bh_merkle_root ?h,
        bw_timestamp = bh_timestamp ?h, bw_bits = bh_bits ?h, bw_nonce = bh_nonce ?h, bw_position = pos,
        bw_blocksize = bsize, bw_numtxs = ntxs\<rparr> # ops) (ch s)"
    and none: "header_rows L ops = []" "\<not> list_ex deletes_header ops"
    using fresh prev h31 no_header_in_flush
    by (force simp: s'_def bm_process_block_def Let_def same i32_of_u32_def ta_process_block_eq ta_flush_database_cache_eq
        write_blockheader_to_database_def)
  obtain more_hs where "block_headers (bm s) = hs @ more_hs" "rx_alive (ch s)" "\<not> list_ex deletes_header (sent (ch s))"
    "header_rows L (sent (ch s)) = map (stored_header L) (enumerate (h0 + length hs) more_hs)"
    using w by (auto simp: writes_chain_def)
  then show "writes_chain L h0 hs s'"
    using none height unfolding writes_chain_def
    by (intro conjI exI [of _ "more_hs @ [blk_header b]"])
      (simp_all add: ops bm same stored_header_def enumerate_append_eq add.assoc)
qed

lemma queued_written:
  fixes s :: "('d, 'db) bm_sys"
  assumes free: "collision_free L base B" and c: "chain_of L base h0 B (bm s)" and w: "writes_chain L h0 hs s"
    and e: "hm_get (block_queue (bm s)) (last_hash_processed (bm s)) = Some e"
  defines "m \<equiv> (bm s)\<lparr>block_queue := hm_remove (last_hash_processed (bm s)) (block_queue (bm s))\<rparr>"
  shows "chain_of L base h0 B (bm (process_queued L E F e (s\<lparr>bm := m\<rparr>)))"
    and "writes_chain L h0 hs (process_queued L E F e (s\<lparr>bm := m\<rparr>))"
proof -
  let ?s = "s\<lparr>bm := m\<rparr>"
  obtain pos m' where pm: "(case bp_position e of Some pos \<Rightarrow> (pos, m) | None \<Rightarrow> write_block_to_file F (bp_block e) m) = (pos, m')"
    by (cases "case bp_position e of Some pos \<Rightarrow> (pos, m) | None \<Rightarrow> write_block_to_file F (bp_block e) m")
  have same: "same_chain (bm ?s) m'"
    using pm same_chain_write [of m F "bp_block e"] by (auto split: option.splits)
  have b: "blk_header (bp_block e) \<in> B" "bh_prev_hash (blk_header (bp_block e)) = last_hash_processed (bm ?s)"
    "unat (bm_height (bm ?s)) < 2 ^ 31"
    using c e by (auto simp: chain_of_def queue_ok_def room_def m_def)
  have parts: "chain_part L base h0 (bm ?s)" "distinct (block_headers (bm ?s))" "set (block_headers (bm ?s)) \<subseteq> B"
    "writes_chain L h0 hs ?s"
    using c w by (simp_all add: chain_of_def chain_part_def writes_chain_def m_def)
  have eq: "process_queued L E F e ?s = bm_process_block L E (bp_block e) (?s\<lparr>bm := m', ch := write_blockheader_to_database L
      (blk_header (bp_block e)) pos (usize_as_u32 (block_size L (bp_block e))) (usize_as_u32 (length (blk_txns (bp_block e)))) m' (ch ?s)\<rparr>)"
    using pm by (simp add: process_queued_def Let_def split: option.splits)
  note written = append_written [OF free same b(1) parts(1-3) b(2,3) parts(4), folded eq]
  show "writes_chain L h0 hs (process_queued L E F e ?s)" using written(2) unfolding eq .
  have q: "queue_ok (bm s)" "room (bm s)" using c by (simp_all add: chain_of_def)
  have d: "dequeue L (bm s) (bm (process_queued L E F e ?s))"
    using process_queued_dequeue [OF q e, of L E F] by (simp add: m_def)
  have "\<forall>k x. hm_get (block_queue (bm (process_queued L E F e ?s))) k = Some x \<longrightarrow> blk_header (bp_block x) \<in> B"
    using c by (auto simp: m_def chain_of_def hm_get_remove split: if_splits)
  moreover have "chain_part L base h0 (bm (process_queued L E F e ?s))"
    using c by (intro chain_part_dequeue [OF q _ d]) (simp add: chain_of_def)
  ultimately show "chain_of L base h0 B (bm (process_queued L E F e ?s))"
    using dequeue_queue_ok [OF q(1) d] dequeue_room(1) [OF q(2) d] written(3,4) unfolding chain_of_def eq by blast
qed

lemma queue_written:
  fixes s :: "('d, 'db) bm_sys"
  assumes free: "collision_free L base B"
  shows "chain_of L base h0 B (bm s) \<Longrightarrow> writes_chain L h0 hs s \<Longrightarrow>
    chain_of L base h0 B (bm (process_block_queue L E F s)) \<and> writes_chain L h0 hs (process_block_queue L E F s)"
proof (induction "length (block_queue (bm s))" arbitrary: s rule: less_induct)
  case less
  show ?case
  proof (cases "hm_get (block_queue (bm s)) (last_hash_processed (bm s))")
    case None
    then show ?thesis using less.prems by (simp add: process_block_queue.simps [of L E F s])
  next
    case (Some e)
    let ?s = "process_queued L E F e (s\<lparr>bm := (bm s)\<lparr>block_queue :=
        hm_remove (last_hash_processed (bm s)) (block_queue (bm s))\<rparr>\<rparr>)"
    have "process_block_queue L E F s = process_block_queue L E F ?s"
      using Some by (simp add: process_block_queue.simps [of L E F s])
    moreover have "length (block_queue (bm ?s)) < length (block_queue (bm s))" using length_hm_remove [OF Some] by simp
    ultimately show ?thesis using less.hyps queued_written [OF free less.prems Some] by simp
  qed
qed

lemma on_block_written:
  fixes s :: "('d, 'db) bm_sys"
  assumes free: "collision_free L base B" and c: "chain_of L base h0 B (bm s)" and w: "writes_chain L h0 hs s"
    and b: "blk_header b \<in> B" and room: "has_room b s"
  shows "chain_of L base h0 B (bm (bm_on_block L E F b s))" and "writes_chain L h0 hs (bm_on_block L E F b s)"
proof -
  let ?known = "hm_contains (hash_to_index (bm s)) (header_hash L (blk_header b))"
  let ?r = "bm_on_block L E F b s"
  consider (old) ?known
    | (waits) "\<not> ?known" "bh_prev_hash (blk_header b) \<noteq> last_hash_processed (bm s)"
    | (fits) "\<not> ?known" "bh_prev_hash (blk_header b) = last_hash_processed (bm s)" by blast
  then have "chain_of L base h0 B (bm ?r) \<and> writes_chain L h0 hs ?r"
  proof cases
    case old
    then show ?thesis using c w by (simp add: on_block.known)
  next
    case waits
    let ?m = "enqueue_block None b (bm s)"
    have "length (block_queue ?m) \<le> length (block_queue (bm s)) + 1"
      using length_hm_insert [of "bh_prev_hash (blk_header b)"] by (auto simp: enqueue_block_def Let_def)
    then have "room ?m" using room by (simp add: has_room_def room_def)
    moreover have "\<forall>k e. hm_get (block_queue ?m) k = Some e \<longrightarrow> blk_header (bp_block e) \<in> B"
      using c b by (auto simp: chain_of_def enqueue_block_get split: if_splits)
    ultimately have "chain_of L base h0 B ?m"
      using c queue_ok_enqueue [of "bm s" None b] by (simp add: chain_of_def chain_part_def)
    then show ?thesis using waits w by (simp add: bm_on_block_def Let_def writes_chain_def)
  next
    case fits
    obtain pos m where m: "write_block_to_file F b (bm s) = (pos, m)" by (cases "write_block_to_file F b (bm s)")
    have same: "same_chain (bm s) m" using same_chain_write [of "bm s" F b] m by simp
    have h31: "unat (bm_height (bm s)) < 2 ^ 31" using room by (simp add: has_room_def)
    have parts: "chain_part L base h0 (bm s)" "distinct (block_headers (bm s))" "set (block_headers (bm s)) \<subseteq> B"
      using c by (simp_all add: chain_of_def)
    let ?s = "bm_process_block L E b (s\<lparr>bm := m, ch := write_blockheader_to_database L (blk_header b) pos
      (usize_as_u32 (block_size L b)) (usize_as_u32 (length (blk_txns b))) m (ch s)\<rparr>)"
    note written = append_written [OF free same b parts fits(2) h31 w]
    have after: "chain_of L base h0 B (bm ?s)"
      using c room written(1,3,4) chain_part_append [OF parts(1) same fits(2) h31] same_chain_sel [OF same] unat_Suc_i31 [OF h31]
      by (simp add: chain_of_def queue_ok_append queue_ok_same [OF same] room_def has_room_def)
    note queue_written [OF free after written(2)]
    moreover have "?r = process_block_queue L E F ?s" using fits m by (simp add: bm_on_block_def Let_def)
    ultimately show ?thesis by simp
  qed
  then show "chain_of L base h0 B (bm ?r)" "writes_chain L h0 hs ?r" by simp_all
qed

section \<open>In every run\<close>

text \<open>Of what the writer gets, only blocks concern this table.\<close>

definition header_view :: "ext_lib \<Rightarrow> db_chan \<Rightarrow> bool \<times> bool \<times> db_header list" where
  "header_view L c = (rx_alive c, list_ex deletes_header (sent c), header_rows L (sent c))"

lemma header_view_sends:
  "header_rows L opers = [] \<Longrightarrow> \<not> list_ex deletes_header opers \<Longrightarrow> header_view L (chan_sends opers c) = header_view L c"
  by (simp add: header_view_def sent_chan_sends)

lemma ta_step_header_view: "header_view L (snd (ta_step L E ev sc)) = header_view L (snd sc)"
  by (cases sc; cases ev)
    (simp_all add: standalone_fields utxo_update_db_eq utxo_pending_def ta_flush_database_cache_eq ta_process_block_eq
      ta_handle_orphan_block_eq header_view_sends no_header_in_flush Let_def)

lemma lg_step_header_view:
  assumes "\<And>snow b. ev \<noteq> On_Block snow b"
  shows "header_view L (ch (lg_sys (lg_step L E F rnd ev lg))) = header_view L (ch (lg_sys lg))"
proof -
  let ?sc = "(ta (lg_sys lg), ch (lg_sys lg))"
  have "header_view L (ch (lg_sys (lg_on_tx L E now t br lg))) = header_view L (ch (lg_sys lg))" for now t br
    using ta_step_header_view [of L E "Standalone now t br" ?sc] ta_step_header_view [of L E Update_Utxo]
    by (simp add: lg_on_tx_eq Let_def)
  moreover have "header_view L (ch (lg_sys (lg_flush_database_cache lg))) = header_view L (ch (lg_sys lg))"
    using ta_step_header_view [of L E Flush_Cache ?sc] by (simp add: lg_flush_eq)
  ultimately show ?thesis
    using assms by (cases ev; simp add: lg_on_inv_def push_message_def lg_on_addr_def message_to_send_def lg_monitor_def Let_def split_def)
qed

definition written_blocks ::
  "ext_lib \<Rightarrow> hash256 \<Rightarrow> nat \<Rightarrow> block_header set \<Rightarrow> block_header list \<Rightarrow> nat \<Rightarrow> block list \<Rightarrow> ('d, 'db) logic \<Rightarrow> bool" where
  "written_blocks L base h0 B hs k bs lg \<longleftrightarrow> \<not> detecting_orphans lg \<and>
     (k + length bs < 2 ^ 31 \<and> blk_header ` set bs \<subseteq> B \<longrightarrow>
        chain_of L base h0 B (bm (lg_sys lg)) \<and> writes_chain L h0 hs (lg_sys lg) \<and>
        unat (bm_height (bm (lg_sys lg))) + length (block_queue (bm (lg_sys lg))) \<le> k + length bs)"

lemma writes_chain_view:
  "bm s' = bm s \<Longrightarrow> header_view L (ch s') = header_view L (ch s) \<Longrightarrow> writes_chain L h0 hs s' = writes_chain L h0 hs s"
  by (simp add: writes_chain_def header_view_def)

lemma block_written:
  assumes free: "collision_free L base B" and w: "written_blocks L base h0 B hs k bs lg"
  shows "written_blocks L base h0 B hs k (bs @ [b]) (lg_on_block L E F rnd snow b lg)"
proof -
  have off: "\<not> detecting_orphans lg" using w by (simp add: written_blocks_def)
  have "chain_of L base h0 B (bm (bm_on_block L E F b (lg_sys lg))) \<and> writes_chain L h0 hs (bm_on_block L E F b (lg_sys lg)) \<and>
      unat (bm_height (bm (bm_on_block L E F b (lg_sys lg)))) + length (block_queue (bm (bm_on_block L E F b (lg_sys lg))))
        \<le> k + length (bs @ [b])"
    if "k + length (bs @ [b]) < 2 ^ 31" "blk_header ` set (bs @ [b]) \<subseteq> B"
  proof -
    have now: "chain_of L base h0 B (bm (lg_sys lg))" "writes_chain L h0 hs (lg_sys lg)"
      "unat (bm_height (bm (lg_sys lg))) + length (block_queue (bm (lg_sys lg))) \<le> k + length bs"
      using w that by (simp_all add: written_blocks_def)
    then have room: "has_room b (lg_sys lg)" using that(1) by (simp add: has_room_def)
    have "queue_ok (bm (lg_sys lg))" using now(1) by (simp add: chain_of_def)
    note sizes = on_block.recv_size [OF room this, of L E F]
    have b: "blk_header b \<in> B" using that(2) by simp
    show ?thesis
      by (intro conjI on_block_written [OF free now(1,2) b room]) (use sizes now(3) in simp)
  qed
  then show ?thesis using off by (simp add: written_blocks_def not_detecting_on_block)
qed

interpretation writing: block_follower L E F "\<lambda>bs lg. collision_free L base B \<longrightarrow> written_blocks L base h0 B hs k bs lg" for base h0 B hs k
proof unfold_locales
  fix bs ev rnd and lg :: "('b, 'a) logic"
  assume w: "collision_free L base B \<longrightarrow> written_blocks L base h0 B hs k bs lg" and ev: "\<And>snow b. ev \<noteq> On_Block snow b"
  have "writes_chain L h0 hs (lg_sys (lg_step L E F rnd ev lg)) = writes_chain L h0 hs (lg_sys lg)"
    by (rule writes_chain_view [OF lg_step_bm(1) [OF ev] lg_step_header_view [OF ev]])
  then show "collision_free L base B \<longrightarrow> written_blocks L base h0 B hs k bs (lg_step L E F rnd ev lg)"
    using w by (simp add: written_blocks_def lg_step_bm [OF ev])
next
  fix bs f and lg :: "('b, 'a) logic"
  assume "collision_free L base B \<longrightarrow> written_blocks L base h0 B hs k bs lg"
  then show "collision_free L base B \<longrightarrow> written_blocks L base h0 B hs k bs (lg_on_connection f lg)"
    by (simp add: written_blocks_def lg_on_connection_def Let_def writes_chain_def)
qed (simp add: block_written)

section \<open>A restart\<close>

lemma linked_distinct:
  assumes free: "collision_free L base B"
  shows "linked L base hs \<Longrightarrow> set hs \<subseteq> B \<Longrightarrow> distinct hs"
proof (induction hs rule: rev_induct)
  case (snoc h hs)
  then have "h \<notin> set hs" by (intro next_is_new [OF free]) (simp_all add: linked_snoc)
  then show ?case using snoc by (simp add: linked_snoc)
qed simp

lemma stored_hashes: "map dh_hash (map (stored_header L) (enumerate n hs)) = map (\<lambda>h. hash_encode L (header_hash L h)) hs"
  by (induction hs arbitrary: n) (simp_all add: stored_header_def)

lemma select_stored:
  assumes "n + length hs < 2 ^ 31"
  shows "select_blocks (map (stored_header L) (enumerate n hs)) = map (stored_header L) (enumerate n hs)"
proof -
  have "map dh_height (map (stored_header L) (enumerate n hs)) = map of_nat [n..<n + length hs]"
    by (induction hs arbitrary: n) (simp_all add: stored_header_def upt_conv_Cons del: upt_Suc)
  moreover have "unat (of_nat (n + i) :: u32) = n + i" if "i < length hs" for i
    using that assms by (intro unat_of_usize) simp
  then have "sorted (map of_nat [n..<n + length hs] :: u32 list)"
    by (auto simp: sorted_iff_nth_mono word_le_nat_alt simp del: of_nat_add)
  ultimately show ?thesis unfolding select_blocks_def by (intro sort_key_id_if_sorted) simp
qed

text \<open>What has been written when nothing waits: the rows of all headers in memory.\<close>

lemma table_of_run:
  assumes server: "blocks_server_ok W tbl" and table: "tbl w0 = map (stored_header L) (enumerate h0 hs)"
    and L: "hash_codec_ok L" and free: "collision_free L base B"
    and run: "service_run L E F W connect cf ips (service_init app m w0) acts s"
    and quiet: "sc_queue s = []" "sc_lost s = []"
    and mem: "chain_of L base h0 B (bm (lg_sys (mg_logic (sc_manager s))))" "writes_chain L h0 hs (lg_sys (mg_logic (sc_manager s)))"
  shows "tbl (sc_db s) = map (stored_header L) (enumerate h0 (block_headers (bm (lg_sys (mg_logic (sc_manager s))))))"
proof -
  let ?all = "block_headers (bm (lg_sys (mg_logic (sc_manager s))))"
  obtain more_hs where all: "?all = hs @ more_hs"
    and ops: "\<not> list_ex deletes_header (sc_ops s)" "header_rows L (sc_ops s) = map (stored_header L) (enumerate (h0 + length hs) more_hs)"
    using mem(2) by (auto simp: writes_chain_def sc_ops_def)
  obtain q where q: "arrivals q = take (sc_done s) (sc_ops s)" "worker_dropped q = []" "sc_db s = perform_db_operations L W q w0"
    using run_follows_schedule [OF run] quiet(2) by (auto simp: follows_schedule_def)
  then have arr: "arrivals q = sc_ops s" using quiet(1) by (simp add: sc_queue_def)
  have rows: "tbl w0 @ header_rows L (arrivals q) = map (stored_header L) (enumerate h0 ?all)"
    by (simp add: table arr ops all enumerate_append_eq)
  have "inj_on (header_hash L) (set ?all)"
    using free mem(1) by (auto simp: chain_of_def collision_free_def intro: inj_on_subset)
  then have "inj_on (\<lambda>h. hash_encode L (header_hash L h)) (set ?all)"
    by (simp add: inj_on_def hash_encode_inj [OF L])
  then have "distinct (map dh_hash (tbl w0 @ header_rows L (arrivals q)))"
    using mem(1) unfolding rows stored_hashes by (simp add: chain_of_def distinct_map)
  from perform_on_blocks [OF server q(2) _ this] ops(1) show ?thesis unfolding rows by (simp add: q(3) arr)
qed

section \<open>A concrete server\<close>

text \<open>A server that is the table itself, and refuses a second row for a hash.\<close>

definition blocks_env :: "db_header list db_env" where
  "blocks_env = \<lparr>server = (\<lambda>stmt t. if key_free stmt t then (Inr (), stmt_on_blocks stmt t) else (Inl (), t)),
     retry = (\<lambda>ds call db. attempts (length ds) call db), ms_delay = 300, retries = 3\<rparr>"

lemma stmt_on_blocks_other: "\<not> concerns_blocks stmt \<Longrightarrow> stmt_on_blocks stmt t = t" "\<not> concerns_blocks stmt \<Longrightarrow> key_free stmt t"
  by (cases stmt; simp)+

interpretation blocks_only: table_server blocks_env "\<lambda>t. t" concerns_blocks key_free stmt_on_blocks
  by unfold_locales
    (simp_all add: blocks_env_def retry_crate_ok_def stmt_on_blocks_other split: prod.split sum.split)

lemma blocks_env_ok [simp]: "blocks_server_ok blocks_env (\<lambda>t. t)"
  using blocks_only.table_server_axioms by (simp add: blocks_server_ok_def)

end
