(* ===== verification/Pool_Table.thy ===== *)
theory Pool_Table
  imports Service_State
begin

text \<open>
  The tables \<open>mempool\<close> and \<open>tx\<close> behind the writer, and the known transactions in memory. Both
  are written with \<open>INSERT\<close>, which refuses a row whose key is there and ends the batch with it.
\<close>

section \<open>The tables\<close>

record pool_tables =
  tb_mempool :: "string \<rightharpoonup> u32 \<times> i64 \<times> u64 \<times> string"
  tb_tx :: "string \<rightharpoonup> usize \<times> u32 \<times> u32 \<times> u64"

text \<open>
  A batch is executed row by row, up to the first row that is refused; the rows before it stay.
\<close>

fun insert_all :: "('k \<times> 'v) list \<Rightarrow> ('k \<rightharpoonup> 'v) \<Rightarrow> bool \<times> ('k \<rightharpoonup> 'v)" where
  "insert_all [] t = (True, t)"
| "insert_all ((k, v) # rows) t = (if t k = None then insert_all rows (t(k \<mapsto> v)) else (False, t))"

definition answer :: "bool \<Rightarrow> unit + unit" where
  "answer ok = (if ok then Inr () else Inl ())"

fun stmt_on_pool :: "sql_stmt \<Rightarrow> pool_tables \<Rightarrow> (unit + unit) \<times> pool_tables" where
  "stmt_on_pool (InsertMempool rows) t =
     (let (ok, m) = insert_all rows (tb_mempool t) in (answer ok, t\<lparr>tb_mempool := m\<rparr>))"
| "stmt_on_pool (DeleteMempool hashes) t = (Inr (), t\<lparr>tb_mempool := fold (\<lambda>k m. m(k := None)) hashes (tb_mempool t)\<rparr>)"
| "stmt_on_pool (InsertTx rows) t = (let (ok, m) = insert_all rows (tb_tx t) in (answer ok, t\<lparr>tb_tx := m\<rparr>))"
| "stmt_on_pool (DeleteTxAtHeight height) t =
     (Inr (), t\<lparr>tb_tx := (\<lambda>k. case tb_tx t k of Some row \<Rightarrow> if fst row = unat height then None else Some row | None \<Rightarrow> None)\<rparr>)"
| "stmt_on_pool _ t = (Inr (), t)"

definition pool_server_ok :: "'db db_env \<Rightarrow> ('db \<Rightarrow> pool_tables) \<Rightarrow> bool" where
  "pool_server_ok W tbl \<longleftrightarrow> retry_crate_ok W \<and>
     (\<forall>stmt db. apsnd tbl (server W stmt db) = stmt_on_pool stmt (tbl db))"

section \<open>Operations on the tables\<close>

text \<open>The statement of an operation, none for an empty batch and for what does not concern these tables.\<close>

fun pool_stmt :: "ext_lib \<Rightarrow> db_operation_type \<Rightarrow> sql_stmt option" where
  "pool_stmt L (MempoolBatchWrite rows) = (if rows = [] then None else
     Some (InsertMempool (map (\<lambda>e. (hash_encode L (me_hash e), me_locktime e, me_fee e, me_age e, me_tx e)) rows)))"
| "pool_stmt L (MempoolBatchDelete hashes) = (if hashes = [] then None else Some (DeleteMempool (map (hash_encode L) hashes)))"
| "pool_stmt L (TxBatchWrite rows) = (if rows = [] then None else
     Some (InsertTx (map (\<lambda>t. (hash_encode L (te_hash t), te_height t, te_blockindex t, te_size t, te_satoshis t)) rows)))"
| "pool_stmt L (TxDelete height) = Some (DeleteTxAtHeight height)"
| "pool_stmt L _ = None"

definition op_on_pool :: "ext_lib \<Rightarrow> db_operation_type \<Rightarrow> pool_tables \<Rightarrow> bool \<times> pool_tables" where
  "op_on_pool L oper t =
     (case pool_stmt L oper of Some stmt \<Rightarrow> apfst (\<lambda>r. r = Inr ()) (stmt_on_pool stmt t) | None \<Rightarrow> (True, t))"

fun pool_run :: "ext_lib \<Rightarrow> db_operation_type list \<Rightarrow> pool_tables \<Rightarrow> bool \<times> pool_tables" where
  "pool_run L [] t = (True, t)"
| "pool_run L (oper # opers) t =
     (let (ok, t') = op_on_pool L oper t in if ok then pool_run L opers t' else (False, t'))"

lemma pool_run_append:
  "pool_run L (xs @ ys) t =
     (if fst (pool_run L xs t) then pool_run L ys (snd (pool_run L xs t)) else pool_run L xs t)"
  by (induction xs arbitrary: t) (simp_all add: split_def Let_def)

lemma answer_simps [simp]: "answer ok = Inr () \<longleftrightarrow> ok" "answer True = Inr ()"
  by (simp_all add: answer_def)

text \<open>A batch is as good as its rows one by one.\<close>

lemma pool_run_rows: "pool_run L (op_rows oper) t = op_on_pool L oper t"
proof -
  have mempool: "pool_run L (map (\<lambda>x. MempoolBatchWrite [x]) xs) t = op_on_pool L (MempoolBatchWrite xs) t" for xs
    by (induction xs arbitrary: t) (auto simp: op_on_pool_def split_def Let_def)
  have tx: "pool_run L (map (\<lambda>x. TxBatchWrite [x]) xs) t = op_on_pool L (TxBatchWrite xs) t" for xs
    by (induction xs arbitrary: t) (auto simp: op_on_pool_def split_def Let_def)
  have delete: "pool_run L (map (\<lambda>x. MempoolBatchDelete [x]) xs) t = op_on_pool L (MempoolBatchDelete xs) t" for xs
    by (induction xs arbitrary: t) (auto simp: op_on_pool_def split_def Let_def)
  have others: "pool_run L (map (\<lambda>x. UtxoBatchWrite [x]) xs) t = (True, t)"
    "pool_run L (map (\<lambda>x. UtxoBatchDelete [x]) ys) t = (True, t)" for xs ys
    by (induction xs; simp add: op_on_pool_def) (induction ys; simp add: op_on_pool_def)
  show ?thesis
    by (cases oper) (simp_all add: mempool tx delete others, simp_all add: op_on_pool_def)
qed

lemma pool_run_rows_of: "pool_run L (rows_of opers) t = pool_run L opers t"
  by (induction opers arbitrary: t) (simp_all add: pool_run_append pool_run_rows split_def Let_def prod_eq_iff)

section \<open>The writer\<close>

text \<open>Trying a refused batch again changes nothing: the first row is there, or was there before.\<close>

lemma insert_all_keeps: "t k \<noteq> None \<Longrightarrow> snd (insert_all rows t) k = t k"
  by (induction rows t rule: insert_all.induct) (auto split: if_splits)

lemma insert_all_again: "insert_all rows t = (False, t') \<Longrightarrow> insert_all rows t' = (False, t')"
proof (induction rows t rule: insert_all.induct)
  case (2 k v rows t)
  then show ?case
    using insert_all_keeps [of "t(k \<mapsto> v)" k rows] by (auto split: if_splits)
qed simp

lemma stmt_on_pool_again: "stmt_on_pool stmt t = (Inl e, t') \<Longrightarrow> stmt_on_pool stmt t' = (Inl e, t')"
  by (cases stmt) (auto simp: answer_def split: if_splits prod.splits dest: insert_all_again)

lemma server_on_pool: "pool_server_ok W tbl \<Longrightarrow> server W stmt db = (r, db') \<Longrightarrow> stmt_on_pool stmt (tbl db) = (r, tbl db')"
  unfolding pool_server_ok_def by (metis apsnd_conv)

lemma attempts_on_pool:
  assumes W: "pool_server_ok W tbl"
  shows "tbl (snd (attempts n (server W stmt) db)) = snd (stmt_on_pool stmt (tbl db))"
proof (induction n arbitrary: db)
  case 0
  obtain r db' where s: "server W stmt db = (r, db')" by (cases "server W stmt db")
  show ?case using server_on_pool [OF W s] by (simp add: s)
next
  case (Suc n)
  obtain r db' where s: "server W stmt db = (r, db')" by (cases "server W stmt db")
  note now = server_on_pool [OF W s]
  show ?case
  proof (cases r)
    case (Inl e)
    then show ?thesis using Suc.IH [of db'] stmt_on_pool_again [of stmt "tbl db" e "tbl db'"] now by (simp add: s)
  next
    case (Inr u)
    then show ?thesis using now by (simp add: s)
  qed
qed

lemma exec_op_on_pool:
  assumes W: "pool_server_ok W tbl"
  shows "tbl (exec_op L W oper db) = snd (op_on_pool L oper (tbl db))"
proof -
  have "tbl (snd (retry_stmt W stmt db)) = snd (stmt_on_pool stmt (tbl db))" for stmt
    using W attempts_on_pool [OF W] by (simp add: retry_stmt_attempts pool_server_ok_def)
  then show ?thesis
    by (cases oper)
      (simp_all add: op_on_pool_def exec_op_def perform_db_operation_def coalesce_defs utxo_batch_write_def
        utxo_batch_delete_def tx_batch_write_def mempool_batch_write_def mempool_batch_delete_def block_header_write_def
        block_header_delete_def tx_delete_at_height_def utxo_delete_at_height_def orphan_block_header_write_def)
qed

lemma writer_on_pool:
  assumes "pool_server_ok W tbl"
  shows "tbl (perform_db_operations L W q db) = fold (\<lambda>oper t. snd (op_on_pool L oper t)) (worker_trace q) (tbl db)"
proof -
  have "tbl (fold (exec_op L W) opers db) = fold (\<lambda>oper t. snd (op_on_pool L oper t)) opers (tbl db)" for opers
    by (induction opers arbitrary: db) (simp_all add: exec_op_on_pool [OF assms])
  then show ?thesis by (simp add: perform_trace)
qed

text \<open>Where no row is refused as the operations were sent, merging refuses none either.\<close>

lemma perform_on_pool:
  assumes W: "pool_server_ok W tbl" and q: "worker_dropped q = []" and ok: "fst (pool_run L (arrivals q) (tbl db))"
  shows "tbl (perform_db_operations L W q db) = snd (pool_run L (arrivals q) (tbl db))"
proof -
  have "fst (pool_run L opers t) \<Longrightarrow> fold (\<lambda>oper t. snd (op_on_pool L oper t)) opers t = snd (pool_run L opers t)" for opers t
    by (induction opers arbitrary: t) (auto simp: split_def Let_def split: if_splits)
  moreover have "pool_run L (worker_trace q) (tbl db) = pool_run L (arrivals q) (tbl db)"
    using worker_keeps_order [OF q] pool_run_rows_of by metis
  ultimately show ?thesis using ok by (simp add: writer_on_pool [OF W])
qed

section \<open>The transactions in memory\<close>

text \<open>
  The contract: the tables hold, under the text of its hash, every transaction that the memory knows, with
  its height where it is in a block. A transaction whose outputs do not add up to a
  \<open>u64\<close> is known in memory but not written; a block without such, and with fewer than \<open>2 ^ 32\<close>
  transactions, is regular.
\<close>

definition regular_block :: "block \<Rightarrow> bool" where
  "regular_block b \<longleftrightarrow> length (blk_txns b) < 2 ^ 32 \<and>
     list_all (\<lambda>t. u64_of_i64 (sum_i64 (map out_satoshis (tx_outputs t))) \<noteq> None) (blk_txns b)"

definition writes_txs :: "ext_lib \<Rightarrow> bool" where
  "writes_txs L \<longleftrightarrow> hash_codec_ok L \<and> (\<forall>t. tx_write L t \<noteq> None)"

definition pool_image :: "ext_lib \<Rightarrow> pool_tables \<Rightarrow> tx_db \<Rightarrow> bool" where
  "pool_image L t d \<longleftrightarrow>
     dom (tb_mempool t) \<subseteq> range (hash_encode L) \<and>
     (\<forall>h. tb_mempool t (hash_encode L h) = None \<longleftrightarrow> \<not> hm_contains (mempool d) h) \<and>
     (save_txs d \<longrightarrow> dom (tb_tx t) \<subseteq> range (hash_encode L) \<and>
        (\<forall>h. map_option fst (tb_tx t (hash_encode L h)) = map_option unat (hm_get (txs d) h)))"

definition pool_synced :: "ext_lib \<Rightarrow> pool_tables \<Rightarrow> 'db tx_analyser \<times> db_chan \<Rightarrow> bool" where
  "pool_synced L t0 sc \<longleftrightarrow> (let (a, c) = sc; d = ta_txdb a; r = pool_run L (sent c) t0 in
     rx_alive c \<and> wf_txdb d \<and> ta_save_txs a = save_txs d \<and> mempool_entries d = [] \<and> hashes_to_delete d = [] \<and>
     (save_txs d \<longrightarrow> tx_entries d = []) \<and> (fst r \<longrightarrow> pool_image L (snd r) d))"

text \<open>What waits in memory between the steps of a flush.\<close>

definition pool_waiting :: "tx_db \<Rightarrow> db_operation_type list" where
  "pool_waiting d = MempoolBatchDelete (hashes_to_delete d) # (if save_txs d then [TxBatchWrite (tx_entries d)] else [])"

definition pool_due :: "ext_lib \<Rightarrow> pool_tables \<Rightarrow> 'db tx_analyser \<Rightarrow> db_chan \<Rightarrow> bool" where
  "pool_due L t0 a c \<longleftrightarrow> (let d = ta_txdb a; r = pool_run L (sent c @ pool_waiting d) t0 in
     rx_alive c \<and> wf_txdb d \<and> ta_save_txs a = save_txs d \<and> mempool_entries d = [] \<and> (fst r \<longrightarrow> pool_image L (snd r) d))"

lemma op_on_pool_simps [simp]:
  "op_on_pool L (UtxoBatchWrite us) t = (True, t)" "op_on_pool L (UtxoBatchDelete ps) t = (True, t)"
  "op_on_pool L (UtxoDelete h) t = (True, t)"
  "op_on_pool L (MempoolBatchDelete hs) t = (True, t\<lparr>tb_mempool := fold (\<lambda>k m. m(k := None)) (map (hash_encode L) hs) (tb_mempool t)\<rparr>)"
  "op_on_pool L (TxDelete h) t = (True, t\<lparr>tb_tx := (\<lambda>k. case tb_tx t k of
     Some row \<Rightarrow> if fst row = unat h then None else Some row | None \<Rightarrow> None)\<rparr>)"
  "op_on_pool L (TxBatchWrite rows) t = (let (ok, m) = insert_all (map (\<lambda>t. (hash_encode L (te_hash t), te_height t,
     te_blockindex t, te_size t, te_satoshis t)) rows) (tb_tx t) in (ok, t\<lparr>tb_tx := m\<rparr>))"
  "op_on_pool L (MempoolBatchWrite [e]) t = (tb_mempool t (hash_encode L (me_hash e)) = None,
     if tb_mempool t (hash_encode L (me_hash e)) = None
     then t\<lparr>tb_mempool := (tb_mempool t)(hash_encode L (me_hash e) \<mapsto> (me_locktime e, me_fee e, me_age e, me_tx e))\<rparr> else t)"
  by (simp_all add: op_on_pool_def split_def Let_def)

lemma header_op_on_pool [simp]: "header_op oper \<Longrightarrow> op_on_pool L oper t = (True, t)"
  by (cases oper) (simp_all add: op_on_pool_def)

lemma pool_run_flush:
  "mempool_entries (ta_txdb a) = [] \<Longrightarrow> ta_save_txs a = save_txs (ta_txdb a) \<Longrightarrow>
   pool_run L (flush_ops a) t = pool_run L (pool_waiting (ta_txdb a)) t"
  by (simp add: flush_ops_def utxo_pending_def pool_waiting_def)

lemma pool_image_cong:
  "txs d = txs d' \<Longrightarrow> mempool d = mempool d' \<Longrightarrow> save_txs d = save_txs d' \<Longrightarrow> pool_image L t d = pool_image L t d'"
  by (simp add: pool_image_def)

lemma pool_due_flush:
  assumes "pool_due L t0 a c"
  shows "pool_synced L t0 (ta_flush_database_cache a c)"
proof -
  have run: "pool_run L (sent c @ flush_ops a) t0 = pool_run L (sent c @ pool_waiting (ta_txdb a)) t0"
    using assms pool_run_flush [of a L] by (simp add: pool_due_def Let_def pool_run_append)
  show ?thesis
    using assms run
    by (auto simp: pool_due_def pool_synced_def ta_flush_database_cache_eq Let_def wf_txdb_def elim: pool_image_cong [THEN iffD1, rotated 3])
qed

lemma pool_synced_due: "pool_synced L t0 (a, c) \<Longrightarrow> pool_due L t0 a c"
  by (simp add: pool_due_def pool_synced_def Let_def pool_run_append pool_waiting_def)

section \<open>Blocks\<close>

lemma insert_all_fresh: "insert_all rows t = (True, t') \<Longrightarrow> t k \<noteq> None \<Longrightarrow> k \<notin> fst ` set rows"
  by (induction rows t rule: insert_all.induct) (auto split: if_splits)

lemma insert_all_ok: "insert_all rows t = (True, t') \<Longrightarrow> t' = t ++ map_of rows"
proof (induction rows t rule: insert_all.induct)
  case (2 k v rows t)
  then have ok: "t k = None" "insert_all rows (t(k \<mapsto> v)) = (True, t')" by (simp_all split: if_splits)
  then have "map_of rows k = None" using insert_all_fresh [OF ok(2), of k] by (simp add: map_of_eq_None_iff)
  moreover have "t' = t(k \<mapsto> v) ++ map_of rows" using 2(1) [OF ok] by (simp only:)
  ultimately show ?case by (auto simp: map_add_def fun_eq_iff split: option.split)
qed simp

text \<open>The rows for the transactions of a regular block.\<close>

lemma block_entries:
  assumes "save_txs d" and "list_all (\<lambda>(i, t). i < 2 ^ 32 \<and> u64_of_i64 (sum_i64 (map out_satoshis (tx_outputs t))) \<noteq> None) its"
  shows "\<exists>es. tx_entries (fold (txdb_process_tx L hs hu) its d) = tx_entries d @ es \<and>
     te_hash ` set es = tx_hash L ` snd ` set its \<and> list_all (\<lambda>e. te_height e = hs) es"
  using assms
proof (induction its arbitrary: d)
  case (Cons it its)
  obtain i t where it: "it = (i, t)" by (cases it)
  have "\<exists>e. tx_entries (txdb_process_tx L hs hu it d) = tx_entries d @ [e] \<and> te_hash e = tx_hash L t \<and> te_height e = hs"
    using Cons.prems by (auto simp: it txdb_process_tx_def Let_def u32_of_usize_def save_tx_def)
  then obtain e where e: "tx_entries (txdb_process_tx L hs hu it d) = tx_entries d @ [e]" "te_hash e = tx_hash L t" "te_height e = hs"
    by blast
  obtain es where "tx_entries (fold (txdb_process_tx L hs hu) its (txdb_process_tx L hs hu it d)) =
      tx_entries (txdb_process_tx L hs hu it d) @ es"
    "te_hash ` set es = tx_hash L ` snd ` set its" "list_all (\<lambda>e. te_height e = hs) es"
    using Cons.IH [of "txdb_process_tx L hs hu it d"] Cons.prems by auto
  then show ?case using e by (intro exI [of _ "e # es"]) (simp add: it)
qed simp

lemma rows_of_entries:
  assumes "hash_codec_ok L" and "list_all (\<lambda>e. te_height e = hs) es"
  shows "map_option fst (map_of (map (\<lambda>e. (hash_encode L (te_hash e), te_height e, te_blockindex e, te_size e, te_satoshis e)) es)
     (hash_encode L h)) = (if h \<in> te_hash ` set es then Some hs else None)"
  using assms(2) by (induction es) (auto simp: hash_encode_inj [OF assms(1)])

lemma fold_delete_keys: "fold (\<lambda>k m. m(k := None)) ks t k = (if k \<in> set ks then None else t k)"
  by (induction ks arbitrary: t) auto

lemma process_txs_frame:
  "save_txs (fold (txdb_process_tx L hs hu) its d) = save_txs d"
  "mempool_entries (fold (txdb_process_tx L hs hu) its d) = mempool_entries d"
  by (induction its arbitrary: d) simp_all

lemma block_image:
  assumes L: "hash_codec_ok L" and b: "regular_block b" and h: "0 \<le> sint height"
    and d: "pool_image L t d" "hashes_to_delete d = []" "save_txs d \<Longrightarrow> tx_entries d = []"
    and run: "pool_run L (pool_waiting (txdb_process_block L b height d)) t = (True, t')"
  shows "pool_image L t' (txdb_process_block L b height d)"
proof -
  let ?its = "enumerate 0 (blk_txns b)" and ?hashes = "tx_hash L ` set (blk_txns b)"
  let ?d = "txdb_process_block L b height d"
  have eq: "?d = fold (txdb_process_tx L (unat height) height) ?its d"
    using h by (simp add: txdb_process_block_def usize_of_i32_def u32_of_i32_def)
  have snds: "snd ` set ?its = set (blk_txns b)" by (metis map_snd_enumerate set_map)
  have its: "list_all (\<lambda>(i, t). i < 2 ^ 32 \<and> u64_of_i64 (sum_i64 (map out_satoshis (tx_outputs t))) \<noteq> None) ?its"
    using b by (force simp: regular_block_def list_all_iff in_set_enumerate_eq)
  have idx: "list_all (\<lambda>(i, t). i < 2 ^ 32) ?its" using its by (auto simp: list_all_iff)
  have pool: "hm_contains (mempool ?d) k \<longleftrightarrow> k \<notin> ?hashes \<and> hm_contains (mempool d) k"
    "set (hashes_to_delete ?d) = {k \<in> ?hashes. hm_contains (mempool d) k}" "save_txs ?d = save_txs d" for k
    using d(2) by (simp_all add: eq hm_contains_def txdb_process_mempool txdb_process_deletes process_txs_frame snds)
  have mempool: "tb_mempool t' = fold (\<lambda>k m. m(k := None)) (map (hash_encode L) (hashes_to_delete ?d)) (tb_mempool t)"
    using run by (auto simp: pool_waiting_def Let_def split: if_splits prod.splits)
  have "tb_mempool t' (hash_encode L k) = None \<longleftrightarrow> \<not> hm_contains (mempool ?d) k" for k
    using d(1) pool by (auto simp: mempool fold_delete_keys pool_image_def hash_encode_inj [OF L])
  moreover have "dom (tb_mempool t') \<subseteq> range (hash_encode L)"
    using d(1) by (auto simp: mempool fold_delete_keys pool_image_def split: if_splits)
  moreover have "dom (tb_tx t') \<subseteq> range (hash_encode L) \<and>
      (\<forall>k. map_option fst (tb_tx t' (hash_encode L k)) = map_option unat (hm_get (txs ?d) k))" if save: "save_txs d"
  proof -
    obtain es where es: "tx_entries ?d = es" "te_hash ` set es = ?hashes" "list_all (\<lambda>e. te_height e = unat height) es"
      using block_entries [OF save its, of L "unat height" height] d(3) [OF save] unfolding eq [symmetric] snds by auto
    let ?rows = "map (\<lambda>e. (hash_encode L (te_hash e), te_height e, te_blockindex e, te_size e, te_satoshis e)) es"
    have "insert_all ?rows (tb_tx t) = (True, tb_tx t')"
      using run save by (auto simp: pool_waiting_def pool(3) es(1) Let_def split: prod.splits if_splits)
    from insert_all_ok [OF this] have tx: "tb_tx t' = tb_tx t ++ map_of ?rows" .
    have "map_option fst (tb_tx t' (hash_encode L k)) = map_option unat (hm_get (txs ?d) k)" for k
      using rows_of_entries [OF L es(3), of k] d(1) save txdb_process_txs [OF save idx, of L "unat height" height k]
      by (auto simp: tx map_add_def es(2) eq snds pool_image_def split: option.splits if_splits)
    moreover have "dom (tb_tx t') \<subseteq> range (hash_encode L)"
      using d(1) save by (auto simp: tx pool_image_def dest!: map_of_SomeD)
    ultimately show ?thesis by blast
  qed
  ultimately show ?thesis by (simp add: pool_image_def pool(3))
qed

lemma block_due:
  assumes L: "hash_codec_ok L" and b: "regular_block b" and s: "pool_synced L t0 (a, c)"
  shows "pool_due L t0 (a\<lparr>ta_txdb := txdb_process_block L b height (ta_txdb a)\<rparr>) c"
proof (cases "0 \<le> sint height")
  case False
  then show ?thesis
    using pool_synced_due [OF s] by (simp add: txdb_process_block_def usize_of_i32_def pool_due_def)
next
  case True
  let ?d = "txdb_process_block L b height (ta_txdb a)"
  have "save_txs ?d = save_txs (ta_txdb a)" "mempool_entries ?d = mempool_entries (ta_txdb a)"
    using True by (simp_all add: txdb_process_block_def usize_of_i32_def u32_of_i32_def process_txs_frame)
  then show ?thesis
    using s block_image [OF L b True, of "snd (pool_run L (sent c) t0)" "ta_txdb a"]
    by (auto simp: pool_synced_def pool_due_def Let_def pool_run_append wf_txdb_process_block prod_eq_iff split: if_splits)
qed

section \<open>Every event keeps the contract\<close>

lemma standalone_sends:
  assumes "writes_txs L" and "mempool_entries (ta_txdb a) = []"
  obtains e where "me_hash e = tx_hash L t"
    and "ta_txdb (fst (process_standalone_tx L E now t br a c)) =
      (ta_txdb a)\<lparr>mempool := hm_insert (tx_hash L t) (tx_hash L t) (mempool (ta_txdb a))\<rparr>"
    and "snd (process_standalone_tx L E now t br a c) = chan_sends [MempoolBatchWrite [e]] c"
    and "ta_save_txs (fst (process_standalone_tx L E now t br a c)) = ta_save_txs a"
proof -
  obtain bytes where "tx_write L t = Some bytes" using assms(1) by (auto simp: writes_txs_def)
  then show thesis
    using assms(2) by (intro that [of "\<lparr>me_hash = tx_hash L t, me_locktime = tx_lock_time t, me_fee = calc_fee t a,
        me_age = case now of None \<Rightarrow> 0 | Some secs \<Rightarrow> secs, me_tx = hexslice_fmt bytes\<rparr>"])
      (simp_all add: standalone_fields add_to_mempool_def Let_def)
qed

lemma standalone_pool:
  assumes L: "writes_txs L" and s: "pool_synced L t0 (a, c)"
  shows "pool_synced L t0 (process_standalone_tx L E now t br a c)"
proof -
  let ?d = "ta_txdb a" and ?r = "process_standalone_tx L E now t br a c"
  have codec: "hash_codec_ok L" using L by (simp add: writes_txs_def)
  have d: "mempool_entries ?d = []" and c: "rx_alive c" using s by (simp_all add: pool_synced_def Let_def)
  obtain e where e: "me_hash e = tx_hash L t"
    "ta_txdb (fst ?r) = ?d\<lparr>mempool := hm_insert (tx_hash L t) (tx_hash L t) (mempool ?d)\<rparr>"
    "snd ?r = chan_sends [MempoolBatchWrite [e]] c" "ta_save_txs (fst ?r) = ta_save_txs a"
    using standalone_sends [OF L d, of t E now br c] by metis
  have wf: "wf_txdb (?d\<lparr>mempool := hm_insert (tx_hash L t) (tx_hash L t) (mempool ?d)\<rparr>)"
    using s by (simp add: pool_synced_def Let_def wf_txdb_def list_all_hm_insert)
  have "pool_image L (T\<lparr>tb_mempool := (tb_mempool T)(hash_encode L (tx_hash L t) \<mapsto> row)\<rparr>)
      (?d\<lparr>mempool := hm_insert (tx_hash L t) (tx_hash L t) (mempool ?d)\<rparr>)" if "pool_image L T ?d" for T row
    using that by (auto simp: pool_image_def hm_contains_def hm_get_insert hash_encode_inj [OF codec])
  then show ?thesis
    using s c e wf by (auto simp: pool_synced_def Let_def split_def pool_run_append)
qed

lemma orphan_pool:
  assumes "pool_synced L t0 (a, c)"
  shows "pool_synced L t0 (ta_handle_orphan_block h a c)"
proof -
  let ?d = "ta_txdb a" and ?d' = "fst (txdb_handle_orphan_block h (ta_txdb a) c)"
  have wf: "wf_txdb ?d'" "wf_txdb ?d" using assms wf_txdb_flush(4) by (auto simp: pool_synced_def Let_def)
  have frame: "mempool ?d' = mempool ?d" "save_txs ?d' = save_txs ?d" "mempool_entries ?d' = mempool_entries ?d"
    "hashes_to_delete ?d' = hashes_to_delete ?d" "tx_entries ?d' = tx_entries ?d"
    by (simp_all add: txdb_handle_orphan_block_def)
  have get: "hm_get (txs ?d') k = (case hm_get (txs ?d) k of Some v \<Rightarrow> if v = h then None else Some v | None \<Rightarrow> None)" for k
    using txdb_pruned [OF wf(2), of h c k] unfolding int_unat_eq_iff .
  have "pool_image L (T\<lparr>tb_tx := (\<lambda>k. case tb_tx T k of Some row \<Rightarrow> if fst row = unat h then None else Some row | None \<Rightarrow> None)\<rparr>) ?d'"
    if T: "pool_image L T ?d" for T
  proof -
    have "map_option fst (case tb_tx T (hash_encode L k) of Some row \<Rightarrow> if fst row = unat h then None else Some row | None \<Rightarrow> None) =
        map_option unat (hm_get (txs ?d') k)" if save: "save_txs ?d" for k
    proof -
      have "map_option fst (tb_tx T (hash_encode L k)) = map_option unat (hm_get (txs ?d) k)"
        using T save by (simp add: pool_image_def)
      then show ?thesis by (cases "hm_get (txs ?d) k") (auto simp: get word_unat_eq_iff split: option.splits)
    qed
    moreover have "dom (\<lambda>k. case tb_tx T k of Some row \<Rightarrow> if fst row = unat h then None else Some row | None \<Rightarrow> None) \<subseteq> dom (tb_tx T)"
      by (auto split: option.splits)
    ultimately show ?thesis using T by (simp add: pool_image_def frame subset_trans)
  qed
  then show ?thesis
    using assms wf(1)
    by (auto simp: pool_synced_def Let_def ta_handle_orphan_block_eq pool_run_append frame)
qed

interpretation pooled: guarded_channel L E regular_block "\<lambda>sc. writes_txs L \<longrightarrow> pool_synced L t0 sc" for t0
proof unfold_locales
  fix sc :: "'a tx_analyser \<times> db_chan" and ev
  assume s: "writes_txs L \<longrightarrow> pool_synced L t0 sc" and good: "\<And>b h. ev = Block_In b h \<Longrightarrow> regular_block b"
  obtain a c where sc: "sc = (a, c)" by (cases sc)
  show "writes_txs L \<longrightarrow> pool_synced L t0 (ta_step L E ev sc)"
  proof
    assume L: "writes_txs L"
    then have codec: "hash_codec_ok L" and now: "pool_synced L t0 (a, c)" using s sc by (simp_all add: writes_txs_def)
    show "pool_synced L t0 (ta_step L E ev sc)"
    proof (cases ev)
      case (Standalone now t br)
      then show ?thesis using standalone_pool [OF L now] by (simp add: sc)
    next
      case Update_Utxo
      then show ?thesis
        using now by (simp add: sc utxo_update_db_eq pool_synced_def Let_def pool_run_append utxo_pending_def)
    next
      case Flush_Cache
      then show ?thesis using pool_due_flush [OF pool_synced_due [OF now]] by (simp add: sc)
    next
      case (Block_In b h)
      then show ?thesis
        using pool_due_flush [OF block_due [OF codec good now]] by (simp add: sc ta_process_block_eq)
    next
      case (Orphan_Height h)
      then show ?thesis using orphan_pool [OF now] by (simp add: sc)
    next
      case (Add_Monitor w m)
      then show ?thesis using now by (simp add: sc pool_synced_def add_monitor_def Let_def split: sum.split prod.split)
    next
      case (Delete_Monitor w n)
      then show ?thesis using now by (simp add: sc pool_synced_def delete_monitor_def Let_def split: prod.split option.split)
    qed
  qed
qed (auto simp: pool_synced_def Let_def pool_run_append sent_chan_sends)

end
