(* ===== verification/Service_Guarantees.thy ===== *)
theory Service_Guarantees
  imports Service_System
begin

text \<open>
  The properties of the running service as a whole, over every interleaving of its threads: the
  table of unspent outputs and the memory, the origin and the order of what is broadcast, the
  schedule of the writer, progress, and the end.
\<close>

section \<open>A concrete run\<close>

text \<open>The database holds one header, so the block that the peer sends again is known and the tip reached.\<close>

definition sample_rows :: setup_rows where
  "sample_rows = \<lparr>sr_addresses = None, sr_mempool = Some [], sr_txs = Some [], sr_utxo = Some [], sr_collections = (\<lambda>_. None),
     sr_headers = Some [\<lparr>dh_height = 1, dh_hash = sample_encode 5, dh_version = 1, dh_prev_hash = sample_encode 1,
       dh_merkle_root = sample_encode 0, dh_timestamp = 100, dh_bits = 0, dh_nonce = 5\<rparr>],
     sr_opened = None, sr_blocks = []\<rparr>"

definition sample_run :: "string + app_state \<times> config \<times> (unit, sql_stmt list, nat) manager \<times> string list" where
  "sample_run = run_start sample_lib log_env sample_file Some (Inr sample_config) (Inr ()) (Inr ())
     (True, True, True, True) (True, True, True, True) None sample_rows [] ()"

text \<open>
  A client has a transaction broadcast, a peer connects and is sent it, the writer performs the
  one operation that waits, and the peer sends a transaction of its own.
\<close>

definition sample_request_tx :: tx where
  "sample_request_tx = \<lparr>tx_version = 1, tx_inputs = [], tx_outputs = [], tx_lock_time = 5\<rparr>"

abbreviation sample_event :: "handler_event \<Rightarrow> act" where
  "sample_event \<equiv> Peer_Event (\<lambda>_. ''0'') (\<lambda>_. ''[]'')"

abbreviation sample_connected_round :: round where
  "sample_connected_round \<equiv> sample_round (Some (EvConnected ''peer=ip'')) (Some (TxForBroadcast sample_request_tx))"

abbreviation sample_tx_round :: round where
  "sample_tx_round \<equiv> sample_round (Some (EvTx sample_tx)) None"

definition sample_first_acts :: "act list" where
  "sample_first_acts = [Broadcast ''0105'' sample_request, Start_Thread 0, sample_event (Connected_Event 0 0 ''ip'' None),
     Round sample_connected_round]"

definition sample_acts :: "act list" where
  "sample_acts = sample_first_acts @ [Write 0, sample_event (Message_Event 0 0 ''ip'' (PmTx sample_tx)), Round sample_tx_round]"

lemma sample_run_started:
  obtains app m where "sample_run = Inr (app, sample_config, m, [''ip''])"
    and "app = \<lparr>msg_from_rest_api = open_chan, as_api_key = None, as_rate_limiter = rl_new 0,
      as_max_broadcast_tx_bytes = default_max_broadcast_tx_bytes\<rparr>"
    and "mg_tracker m = tt_new" and "lg_state (mg_logic m) = Starting" and "ch (lg_sys (mg_logic m)) = open_chan"
    and "ta_txdb (ta (lg_sys (mg_logic m))) = txdb_new True" and "ta_utxo (ta (lg_sys (mg_logic m))) = utxo_new"
    and "ta_collection (ta (lg_sys (mg_logic m))) = [create_broadcast_collection]"
    and "send_message_queue (mg_logic m) = []" and "block_inventory (mg_logic m) = []" and "mg_to_peers m = []"
proof -
  have "\<exists>app m. sample_run = Inr (app, sample_config, m, [''ip'']) \<and>
      app = \<lparr>msg_from_rest_api = open_chan, as_api_key = None, as_rate_limiter = rl_new 0,
        as_max_broadcast_tx_bytes = default_max_broadcast_tx_bytes\<rparr> \<and>
      mg_tracker m = tt_new \<and> lg_state (mg_logic m) = Starting \<and> ch (lg_sys (mg_logic m)) = open_chan \<and>
      ta_txdb (ta (lg_sys (mg_logic m))) = txdb_new True \<and> ta_utxo (ta (lg_sys (mg_logic m))) = utxo_new \<and>
      ta_collection (ta (lg_sys (mg_logic m))) = [create_broadcast_collection] \<and>
      send_message_queue (mg_logic m) = [] \<and> block_inventory (mg_logic m) = [] \<and> mg_to_peers m = []"
    by (simp add: sample_run_def run_start_def sample_config_def sample_settings_def validate_startup_def
        get_network_settings_def get_network_def get_ips_def lg_new_def pool_conn_def ta_new_def bm_new_def
        sample_decode_encode Let_def lg_setup_def bm_setup_def sample_rows_def load_blockheaders_from_database_def
        load_blockheader_def bm_decode_stored_hash_def default_web_interface_config_def read_tables_def load_utxo_def
        load_tx_def load_mempool_def load_txs_def dyn_new_def read_dynamic_config_def create_broadcast_collection_def)
  then show thesis using that by blast
qed

text \<open>With other rows in the database it starts as well.\<close>

lemma sample_starts:
  obtains app and m :: "(unit, sql_stmt list, nat) manager" where
    "run_start sample_lib log_env sample_file Some (Inr sample_config) (Inr ()) (Inr ()) (True, True, True, True)
       (True, True, True, True) None rows [] () = Inr (app, sample_config, m, [''ip''])"
  by (simp add: run_start_def sample_config_def sample_settings_def validate_startup_def
      get_network_settings_def get_network_def get_ips_def lg_new_def pool_conn_def ta_new_def bm_new_def
      sample_decode_encode Let_def default_web_interface_config_def dyn_new_def read_dynamic_config_def)

lemma sample_request_decodes:
  "decode_hexstr ''0105'' = Ret (Inr [1, 5])" "tx_read sample_lib [1, 5] = Some sample_request_tx"
  by code_simp (simp add: sample_lib_def sample_request_tx_def)

abbreviation sample_step_on ::
  "'w db_env \<Rightarrow> (unit, sql_stmt list, nat, 'w) service \<Rightarrow> act \<Rightarrow> (unit, sql_stmt list, nat, 'w) service \<Rightarrow> bool" where
  "sample_step_on W \<equiv> service_step sample_lib log_env sample_file W (\<lambda>_ _ _ _. 7) sample_config [''ip'']"

abbreviation sample_runs_on ::
  "'w db_env \<Rightarrow> (unit, sql_stmt list, nat, 'w) service \<Rightarrow> act list \<Rightarrow> (unit, sql_stmt list, nat, 'w) service \<Rightarrow> bool" where
  "sample_runs_on W \<equiv> service_run sample_lib log_env sample_file W (\<lambda>_ _ _ _. 7) sample_config [''ip'']"

abbreviation sample_step ::
  "(unit, sql_stmt list, nat, utxo_table) service \<Rightarrow> act \<Rightarrow> (unit, sql_stmt list, nat, utxo_table) service \<Rightarrow> bool" where
  "sample_step \<equiv> sample_step_on table_env"

abbreviation sample_runs ::
  "(unit, sql_stmt list, nat, utxo_table) service \<Rightarrow> act list \<Rightarrow> (unit, sql_stmt list, nat, utxo_table) service \<Rightarrow> bool" where
  "sample_runs \<equiv> sample_runs_on table_env"

text \<open>The start of the thread, and the events of its peer.\<close>

lemma sample_thread:
  fixes s :: "(unit, sql_stmt list, nat, 'w) service"
  assumes "sc_life s = Serving" and "sc_phase s = Between" and "sc_turn s = 0" and "mg_tracker (sc_manager s) = tt_new"
  shows "sample_step_on W s (Start_Thread 0)
    (s\<lparr>sc_manager := (sc_manager s)\<lparr>mg_tracker := tt_add ''ip'' \<lparr>pt_thread = Some False, pt_peer = Some 7,
         pt_status = Started, pt_running = True, pt_started_at = 0\<rparr> tt_new\<rparr>,
       sc_handlers := (sc_handlers s)(''ip'' \<mapsto> eh_new 0), sc_phase := Looping False\<rparr>)"
  using service_step.On_Start_Thread [of s "[''ip'']" "sc_manager s" "''ip''" sample_lib log_env sample_file
      W "\<lambda>_ _ _ _. 7 :: nat" sample_config 0] assms
  by (simp add: create_thread_def peer_connection_new_def sample_config_def get_network_settings_def
      get_network_def sample_settings_def new_handler_def)

lemma sample_heard:
  fixes s :: "(unit, sql_stmt list, nat, 'w) service"
  assumes "sc_life s = Serving" and "sc_handlers s ''ip'' \<noteq> None" and "rx_alive (sc_events s)"
    and "ev = Connected_Event 0 0 ''ip'' None \<and> event = EvConnected ''peer=ip'' \<or>
      ev = Message_Event 0 0 ''ip'' (PmTx t) \<and> event = EvTx t \<or>
      ev = Message_Event 0 0 ''ip'' (PmBlock b) \<and> event = EvBlock b"
  obtains hs reps where "sample_step_on W s (sample_event ev) (s\<lparr>sc_handlers := hs, sc_replies := reps,
      sc_events := chan_sends [\<lparr>pe_time = 0, pe_peer = ''ip'', pe_event = event\<rparr>] (sc_events s)\<rparr>)"
    and "hs ''ip'' \<noteq> None"
proof -
  obtain h where h: "sc_handlers s ''ip'' = Some h" using assms(2) by blast
  let ?r = "handler_step (\<lambda>_. ''0'') (\<lambda>_. ''[]'') ev \<lparr>eh = h, eh_tx = sc_events s, to_peer = []\<rparr>"
  have ip: "event_ip ev = ''ip''" using assms(4) by auto
  have "eh_tx ?r = chan_sends [\<lparr>pe_time = 0, pe_peer = ''ip'', pe_event = event\<rparr>] (sc_events s)"
    using assms(4) by (auto simp: handler_defs)
  moreover have "sample_step_on W s (sample_event ev) (s\<lparr>sc_handlers := (sc_handlers s)(''ip'' \<mapsto> eh ?r),
      sc_replies := sc_replies s @ map (Pair ''ip'') (to_peer ?r), sc_events := eh_tx ?r\<rparr>)"
    using service_step.On_Peer_Event [of s ev h "\<lambda>_. ''0''" "\<lambda>_. ''[]''" ?r] assms(1) h by (simp add: ip)
  ultimately show thesis
    using that [where hs = "(sc_handlers s)(''ip'' \<mapsto> eh ?r)" and reps = "sc_replies s @ map (Pair ''ip'') (to_peer ?r)"]
    by simp
qed

text \<open>The request, the start of the thread, and the connection of its peer.\<close>

lemma sample_started:
  fixes app :: app_state and m :: "(unit, sql_stmt list, nat) manager" and W :: "'w db_env"
  assumes app: "app = \<lparr>msg_from_rest_api = open_chan, as_api_key = None, as_rate_limiter = rl_new 0,
      as_max_broadcast_tx_bytes = default_max_broadcast_tx_bytes\<rparr>" and m: "mg_tracker m = tt_new"
  obtains s where
    "sample_runs_on W (service_init app m w0)
       [Broadcast ''0105'' sample_request, Start_Thread 0, sample_event (Connected_Event 0 0 ''ip'' None)] s"
    and "sc_manager s = m\<lparr>mg_tracker := tt_add ''ip'' \<lparr>pt_thread = Some False, pt_peer = Some 7, pt_status = Started,
       pt_running = True, pt_started_at = 0\<rparr> tt_new\<rparr>"
    and "sc_phase s = Looping False" and "rest_msgs (sc_app s) = [TxForBroadcast sample_request_tx]"
    and "sc_taken s = 0" and "sc_done s = 0" and "sc_lost s = []" and "sc_heard s = 0" and "sc_life s = Serving"
    and "\<not> sc_signalled s" and "sc_events s = \<lparr>rx_alive = True, sent = [\<lparr>pe_time = 0, pe_peer = ''ip'', pe_event = EvConnected ''peer=ip''\<rparr>]\<rparr>"
    and "sc_handlers s ''ip'' \<noteq> None"
proof -
  let ?s0 = "service_init app m w0 :: (unit, sql_stmt list, nat, 'w) service"
  let ?r = "broadcast_tx sample_lib ''0105'' sample_request app"
  let ?s1 = "?s0\<lparr>sc_app := snd ?r\<rparr>"
  have msgs: "rest_msgs (snd ?r) = [TxForBroadcast sample_request_tx]"
    by (simp add: app broadcast_tx_def rate_limit_def allow_def rl_new_def authorize_def tx_hex_exceeds_limit_def
        default_max_broadcast_tx_bytes_def rest_send_def chan_send_def rest_msgs_def Let_def sample_request_decodes)
  have s1: "sample_step_on W ?s0 (Broadcast ''0105'' sample_request) ?s1"
    using service_step.On_Broadcast [of ?s0 sample_lib "''0105''" sample_request "fst ?r" "snd ?r"] by simp
  let ?s2 = "?s1\<lparr>sc_manager := m\<lparr>mg_tracker := tt_add ''ip'' \<lparr>pt_thread = Some False, pt_peer = Some 7,
         pt_status = Started, pt_running = True, pt_started_at = 0\<rparr> tt_new\<rparr>,
       sc_handlers := (sc_handlers ?s1)(''ip'' \<mapsto> eh_new 0), sc_phase := Looping False\<rparr>"
  have s2: "sample_step_on W ?s1 (Start_Thread 0) ?s2" using sample_thread [of ?s1] m by simp
  obtain hs reps where s3: "sample_step_on W ?s2 (sample_event (Connected_Event 0 0 ''ip'' None))
      (?s2\<lparr>sc_handlers := hs, sc_replies := reps,
        sc_events := chan_sends [\<lparr>pe_time = 0, pe_peer = ''ip'', pe_event = EvConnected ''peer=ip''\<rparr>] (sc_events ?s2)\<rparr>)"
    and hs: "hs ''ip'' \<noteq> None"
    by (rule sample_heard [of ?s2 "Connected_Event 0 0 ''ip'' None" "EvConnected ''peer=ip''"]) simp_all
  let ?s3 = "?s2\<lparr>sc_handlers := hs, sc_replies := reps,
        sc_events := chan_sends [\<lparr>pe_time = 0, pe_peer = ''ip'', pe_event = EvConnected ''peer=ip''\<rparr>] (sc_events ?s2)\<rparr>"
  have "sample_runs_on W ?s0 ((([] @ [Broadcast ''0105'' sample_request]) @ [Start_Thread 0]) @
      [sample_event (Connected_Event 0 0 ''ip'' None)]) ?s3"
    by (rule service_run.Step [OF service_run.Step [OF service_run.Step [OF service_run.Nothing s1] s2] s3])
  then show thesis using msgs hs by (intro that [of ?s3]) (simp_all add: chan_sends_def)
qed

text \<open>The round in which the peer connects and is sent the transaction.\<close>

lemma sample_connected:
  fixes m :: "(unit, sql_stmt list, nat) manager"
  assumes m: "mg_tracker m = tt_add ''ip'' \<lparr>pt_thread = Some False, pt_peer = Some 7, pt_status = Started,
       pt_running = True, pt_started_at = 0\<rparr> tt_new"
    "ch (lg_sys (mg_logic m)) = open_chan" "ta_txdb (ta (lg_sys (mg_logic m))) = txdb_new True"
    "ta_collection (ta (lg_sys (mg_logic m))) = [create_broadcast_collection]" "ta_utxo (ta (lg_sys (mg_logic m))) = utxo_new"
  obtains m' where "peer_part sample_lib log_env sample_file sample_connected_round m = (True, m')"
    and "(7, MsgTx sample_request_tx) \<in> set (mg_to_peers (rest_part sample_lib log_env sample_connected_round m'))"
    and "\<exists>e. sent (ch (lg_sys (mg_logic (rest_part sample_lib log_env sample_connected_round m')))) = [MempoolBatchWrite [e]]"
    and "send_message_queue (mg_logic (rest_part sample_lib log_env sample_connected_round m')) = []"
    and "ta_utxo (ta (lg_sys (mg_logic (rest_part sample_lib log_env sample_connected_round m')))) = utxo_new"
    and "ta_txdb (ta (lg_sys (mg_logic (rest_part sample_lib log_env sample_connected_round m')))) = (txdb_new True)\<lparr>mempool := [(5, 5)]\<rparr>"
proof -
  let ?r = "peer_part sample_lib log_env sample_file sample_connected_round m"
  let ?m = "rest_part sample_lib log_env sample_connected_round (snd ?r)"
  have connected: "fst ?r" "get_connected_peer (mg_tracker (snd ?r)) = Some 7"
    by (simp_all add: m(1) peer_part_def sample_round_def peer_half_sel process_event_inner_def Let_def tt_add_def tt_new_def
        tt_set_status_def hm_get_def hm_modify_def get_connected_peer_def hm_values_def)
  have logic: "ch (lg_sys (mg_logic (snd ?r))) = open_chan" "ta_txdb (ta (lg_sys (mg_logic (snd ?r)))) = txdb_new True"
    "lg_state (mg_logic (snd ?r)) = Logic.Connected"
    "ta_collection (ta (lg_sys (mg_logic (snd ?r)))) = [create_broadcast_collection]"
    "ta_utxo (ta (lg_sys (mg_logic (snd ?r)))) = utxo_new"
    by (simp_all add: peer_part_def sample_round_def peer_half_sel process_event_inner_def Let_def m
        message_to_send_def lg_on_connection_def)
  have known: "\<not> lg_tx_exists (mg_logic (snd ?r)) (tx_hash sample_lib sample_request_tx)"
    by (simp add: lg_tx_exists_def ta_tx_exists_def logic txdb_tx_exists_def txdb_new_def hm_contains_def hm_get_def
        create_broadcast_collection_def have_tx_def)
  with known have "(7, MsgTx sample_request_tx) \<in> set (mg_to_peers ?m)" "\<exists>e. sent (ch (lg_sys (mg_logic ?m))) = [MempoolBatchWrite [e]]"
    using connected logic
    by (simp_all add: rest_part_def rest_half_def broadcast_half_def Let_def sample_round_def lg_flush_database_cache_def
        lg_on_tx_eq is_ready_def standalone_fields add_to_mempool_def txdb_new_def)
  moreover have "send_message_queue (mg_logic ?m) = []"
    using connected logic
    by (simp add: rest_part_def rest_half_def broadcast_half_def Let_def sample_round_def lg_flush_database_cache_def
        lg_on_tx_eq is_ready_def peer_part_def peer_half_sel message_to_send_def)
  moreover have "ta_utxo (ta (lg_sys (mg_logic ?m))) = utxo_new" "ta_txdb (ta (lg_sys (mg_logic ?m))) = (txdb_new True)\<lparr>mempool := [(5, 5)]\<rparr>"
    using connected logic known
    by (simp_all add: rest_part_def rest_half_def broadcast_half_def Let_def sample_round_def lg_flush_database_cache_def
        lg_on_tx_eq is_ready_def standalone_fields add_to_mempool_def txdb_new_def process_tx_outputs_def
        sample_request_tx_def)
  ultimately show thesis using connected(1) by (intro that [of "snd ?r"]) (simp_all add: prod_eq_iff)
qed

text \<open>Where nothing has arrived behind an operation, the writer performs it as it is.\<close>

lemma write_alone:
  assumes "sc_life s \<noteq> Exited" and "sc_queue s = oper # rest"
  shows "service_step L E F W connect cf ips s (Write 0)
    (s\<lparr>sc_done := Suc (sc_done s), sc_db := exec_op L W oper (sc_db s)\<rparr>)"
proof -
  have "perform_db_operation L W oper [] (sc_db s) = ([], exec_op L W oper (sc_db s))" "merge_drop oper [] = []"
    by (cases oper; simp add: perform_db_operation_def exec_op_def coalesce_defs)+
  moreover have "s\<lparr>sc_done := n, sc_lost := sc_lost s, sc_db := db\<rparr> = s\<lparr>sc_done := n, sc_db := db\<rparr>" for n db by simp
  ultimately show ?thesis
    using service_step.On_Write [OF assms refl, of L W 0 "[]" "exec_op L W oper (sc_db s)" E F connect cf ips] by simp
qed

text \<open>The first part of the run: the transaction was sent, and its row waits on the channel.\<close>

lemma sample_first:
  fixes W :: "'w db_env" and w0 :: 'w
  obtains app m s where "sample_run = Inr (app, sample_config, m, [''ip''])"
    and "sample_runs_on W (service_init app m w0) sample_first_acts s" and "sc_phase s = Looping False"
    and "(7, MsgTx sample_request_tx) \<in> set (mg_to_peers (sc_manager s))" and "length (sc_queue s) = 1"
    and "\<exists>e. sc_ops s = [MempoolBatchWrite [e]]" and "ta_utxo (ta (lg_sys (mg_logic (sc_manager s)))) = utxo_new"
    and "ta_txdb (ta (lg_sys (mg_logic (sc_manager s)))) = (txdb_new True)\<lparr>mempool := [(5, 5)]\<rparr>"
    and "sc_life s = Serving" and "\<not> sc_signalled s" and "next_rest s = None"
    and "sc_heard s = length (sent (sc_events s))" and "rx_alive (sc_events s)"
    and "sc_lost s = []" and "sc_done s = 0" and "sc_handlers s ''ip'' \<noteq> None"
    and "send_message_queue (mg_logic (sc_manager s)) = []"
proof -
  obtain app m where run: "sample_run = Inr (app, sample_config, m, [''ip''])"
    and app: "app = \<lparr>msg_from_rest_api = open_chan, as_api_key = None, as_rate_limiter = rl_new 0,
      as_max_broadcast_tx_bytes = default_max_broadcast_tx_bytes\<rparr>"
    and m: "mg_tracker m = tt_new" "ch (lg_sys (mg_logic m)) = open_chan"
    "ta_txdb (ta (lg_sys (mg_logic m))) = txdb_new True"
    "ta_collection (ta (lg_sys (mg_logic m))) = [create_broadcast_collection]"
    "ta_utxo (ta (lg_sys (mg_logic m))) = utxo_new"
    by (rule sample_run_started)
  obtain s2 where s2: "sample_runs_on W (service_init app m w0)
       [Broadcast ''0105'' sample_request, Start_Thread 0, sample_event (Connected_Event 0 0 ''ip'' None)] s2"
    "sc_manager s2 = m\<lparr>mg_tracker := tt_add ''ip'' \<lparr>pt_thread = Some False, pt_peer = Some 7, pt_status = Started,
       pt_running = True, pt_started_at = 0\<rparr> tt_new\<rparr>"
    "sc_phase s2 = Looping False" "rest_msgs (sc_app s2) = [TxForBroadcast sample_request_tx]"
    "sc_taken s2 = 0" "sc_done s2 = 0" "sc_lost s2 = []" "sc_heard s2 = 0" "sc_life s2 = Serving" "\<not> sc_signalled s2"
    "sc_events s2 = \<lparr>rx_alive = True, sent = [\<lparr>pe_time = 0, pe_peer = ''ip'', pe_event = EvConnected ''peer=ip''\<rparr>]\<rparr>"
    "sc_handlers s2 ''ip'' \<noteq> None"
    using sample_started [OF app m(1)] .
  obtain m' where r: "peer_part sample_lib log_env sample_file sample_connected_round (sc_manager s2) = (True, m')"
    "(7, MsgTx sample_request_tx) \<in> set (mg_to_peers (rest_part sample_lib log_env sample_connected_round m'))"
    "\<exists>e. sent (ch (lg_sys (mg_logic (rest_part sample_lib log_env sample_connected_round m')))) = [MempoolBatchWrite [e]]"
    "send_message_queue (mg_logic (rest_part sample_lib log_env sample_connected_round m')) = []"
    "ta_utxo (ta (lg_sys (mg_logic (rest_part sample_lib log_env sample_connected_round m')))) = utxo_new"
    "ta_txdb (ta (lg_sys (mg_logic (rest_part sample_lib log_env sample_connected_round m')))) = (txdb_new True)\<lparr>mempool := [(5, 5)]\<rparr>"
    by (rule sample_connected [of "sc_manager s2"]) (simp_all add: s2(2) m)
  let ?m = "rest_part sample_lib log_env sample_connected_round m'"
  let ?s3 = "after_round True False ?m s2"
  have found: "next_rest s2 = Some (TxForBroadcast sample_request_tx)"
    "next_event s2 = Some \<lparr>pe_time = 0, pe_peer = ''ip'', pe_event = EvConnected ''peer=ip''\<rparr>"
    using s2 by (simp_all add: next_rest_def next_event_def next_msg_def)
  then have s3: "sample_step_on W s2 (Round sample_connected_round) ?s3" and taken: "sc_taken ?s3 = 1" "sc_heard ?s3 = 1"
    using service_step.On_Round [OF _ s2(3) _ _ r(1)] s2(5,8,9) by (simp_all add: sample_round_def stop_after_def)
  have same: "sc_events ?s3 = sc_events s2" "sc_handlers ?s3 = sc_handlers s2" "sc_app ?s3 = sc_app s2" "sc_phase ?s3 = Looping False"
    by (simp_all add: after_round_def Let_def)
  have "length (sc_queue ?s3) = 1"
    using r(3) s2 by (auto simp: sc_queue_def sc_ops_def after_round_def Let_def)
  then show thesis
    using run service_run.Step [OF s2(1) s3] same(4) r(2-6) s2 same taken
    by (intro that [of app m ?s3]) (simp_all add: sample_first_acts_def sc_queue_def sc_ops_def next_rest_def next_msg_def)
qed

lemma sample_service:
  obtains app m s where "sample_run = Inr (app, sample_config, m, [''ip''])"
    and "sample_runs (service_init app m (table_of [])) sample_acts s"
    and "sc_lost s = []" and "sc_done s = 1" and "(7, MsgTx sample_request_tx) \<in> set (mg_to_peers (sc_manager s))"
proof -
  obtain app m s3 where run: "sample_run = Inr (app, sample_config, m, [''ip''])"
    and s3: "sample_runs (service_init app m (table_of [])) sample_first_acts s3" "sc_phase s3 = Looping False"
      "(7, MsgTx sample_request_tx) \<in> set (mg_to_peers (sc_manager s3))" "length (sc_queue s3) = 1" "sc_life s3 = Serving"
      "\<not> sc_signalled s3" "next_rest s3 = None" "sc_heard s3 = length (sent (sc_events s3))" "rx_alive (sc_events s3)"
      "sc_lost s3 = []" "sc_done s3 = 0" "sc_handlers s3 ''ip'' \<noteq> None"
      "send_message_queue (mg_logic (sc_manager s3)) = []"
    by (rule sample_first)
  obtain oper where "sc_queue s3 = [oper]" using s3(4) by (auto simp: length_Suc_conv)
  then obtain db where s4: "sample_step s3 (Write 0) (s3\<lparr>sc_done := 1, sc_db := db\<rparr>)"
    using write_alone [of s3 oper "[]"] s3(5,11) by fastforce
  let ?s4 = "s3\<lparr>sc_done := 1, sc_db := db\<rparr>"
  obtain hs reps where s5: "sample_step ?s4 (sample_event (Message_Event 0 0 ''ip'' (PmTx sample_tx)))
      (?s4\<lparr>sc_handlers := hs, sc_replies := reps,
        sc_events := chan_sends [\<lparr>pe_time = 0, pe_peer = ''ip'', pe_event = EvTx sample_tx\<rparr>] (sc_events ?s4)\<rparr>)"
    by (rule sample_heard [of ?s4 "Message_Event 0 0 ''ip'' (PmTx sample_tx)" "EvTx sample_tx" sample_tx]) (simp_all add: s3)
  let ?s5 = "?s4\<lparr>sc_handlers := hs, sc_replies := reps,
        sc_events := chan_sends [\<lparr>pe_time = 0, pe_peer = ''ip'', pe_event = EvTx sample_tx\<rparr>] (sc_events ?s4)\<rparr>"
  let ?r = "peer_part sample_lib log_env sample_file sample_tx_round (sc_manager s3)"
  let ?s6 = "after_round True False (rest_part sample_lib log_env sample_tx_round (snd ?r)) ?s5"
  have "next_rest ?s5 = None" using s3(7) by (simp add: next_rest_def)
  moreover have "next_event ?s5 = Some \<lparr>pe_time = 0, pe_peer = ''ip'', pe_event = EvTx sample_tx\<rparr>"
    using s3(8,9) by (simp add: next_event_def next_msg_def chan_sends_def)
  moreover have "fst ?r" by (simp add: peer_part_def sample_round_def peer_half_sel process_event_inner_def Let_def)
  ultimately have s6: "sample_step ?s5 (Round sample_tx_round) ?s6"
    using service_step.On_Round [of ?s5 False sample_tx_round sample_lib log_env sample_file True "snd ?r"] s3(2,5)
    by (simp add: sample_round_def stop_after_def prod_eq_iff)
  note runs = service_run.Step [OF service_run.Step [OF service_run.Step [OF s3(1) s4] s5] s6]
  have "mg_to_peers (rest_part sample_lib log_env sample_tx_round (snd ?r)) = mg_to_peers (sc_manager s3)"
    using s3(13) by (simp add: rest_part_def peer_part_def sample_round_def peer_half_def process_event_inner_def
        Let_def message_to_send_def lg_on_tx_eq)
  then show thesis using run runs s3(3,10) by (intro that [of app m ?s6]) (simp_all add: sample_acts_def)
qed

text \<open>Another run, in which a peer sends the block that comes after the stored header.\<close>

definition sample_block_acts :: "act list" where
  "sample_block_acts = [Start_Thread 0, sample_event (Message_Event 0 0 ''ip'' (PmBlock (sample_block 5 6))),
     Round (sample_round (Some (EvBlock (sample_block 5 6))) None)]"

lemma sample_block_run:
  fixes W :: "'w db_env" and w0 :: 'w
  obtains app m s where "sample_run = Inr (app, sample_config, m, [''ip''])"
    and "sample_runs_on W (service_init app m w0) sample_block_acts s" and "sc_lost s = []" and "sc_life s = Serving"
proof -
  obtain app m where run: "sample_run = Inr (app, sample_config, m, [''ip''])"
    and app: "app = \<lparr>msg_from_rest_api = open_chan, as_api_key = None, as_rate_limiter = rl_new 0,
      as_max_broadcast_tx_bytes = default_max_broadcast_tx_bytes\<rparr>"
    and m: "mg_tracker m = tt_new" by (rule sample_run_started)
  let ?i = "service_init app m w0"
  let ?e = "Message_Event 0 0 ''ip'' (PmBlock (sample_block 5 6))"
  let ?msg = "\<lparr>pe_time = 0, pe_peer = ''ip'', pe_event = EvBlock (sample_block 5 6)\<rparr>"
  let ?rd = "sample_round (Some (EvBlock (sample_block 5 6))) None"
  obtain s1 where s1: "sample_step_on W ?i (Start_Thread 0) s1" "sc_phase s1 = Looping False" "sc_life s1 = Serving"
    "sc_events s1 = open_chan" "sc_heard s1 = 0" "sc_app s1 = app" "sc_taken s1 = 0" "sc_handlers s1 ''ip'' \<noteq> None"
    "sc_lost s1 = []"
    using sample_thread [of ?i W] m by auto
  obtain hs reps where s2: "sample_step_on W s1 (sample_event ?e)
      (s1\<lparr>sc_handlers := hs, sc_replies := reps, sc_events := chan_sends [?msg] (sc_events s1)\<rparr>)"
    by (rule sample_heard [of s1 ?e "EvBlock (sample_block 5 6)" undefined "sample_block 5 6"]) (simp_all add: s1)
  let ?s2 = "s1\<lparr>sc_handlers := hs, sc_replies := reps, sc_events := chan_sends [?msg] (sc_events s1)\<rparr>"
  obtain keep m' where r: "peer_part sample_lib log_env sample_file ?rd (sc_manager ?s2) = (keep, m')"
    by (cases "peer_part sample_lib log_env sample_file ?rd (sc_manager ?s2)") simp
  let ?s = "after_round keep False (rest_part sample_lib log_env ?rd m') ?s2"
  have "next_rest ?s2 = None" "next_event ?s2 = Some ?msg"
    by (simp_all add: next_event_def next_rest_def next_msg_def rest_msgs_def chan_sends_def s1 app)
  then have s: "sample_step_on W ?s2 (Round ?rd) ?s"
    using service_step.On_Round [OF _ _ _ _ r, of False W "\<lambda>_ _ _ _. 7" sample_config "[''ip'']"] s1(2,3)
    by (simp add: sample_round_def stop_after_def)
  from service_run.Step [OF service_run.Step [OF service_run.Step [OF service_run.Nothing s1(1)] s2] s]
  have runs: "sample_runs_on W ?i sample_block_acts ?s" by (simp add: sample_block_acts_def)
  have "sc_lost ?s = []" "sc_life ?s = Serving" using s1(3,9) by (simp_all add: after_round_def close_rest_def Let_def)
  with run runs show thesis by (rule that)
qed

text \<open>From any state on, the writer can do everything that waits, with nothing arriving meanwhile.\<close>

lemma writer_catches_up:
  fixes s :: "('d, 'db, 'p, 'w) service"
  assumes "sc_life s \<noteq> Exited"
  obtains n s' where "service_run L E F W connect cf ips s (replicate n (Write 0)) s'" and "sc_queue s' = []"
    and "sc_lost s' = sc_lost s" and "sc_manager s' = sc_manager s"
  using assms
proof (induction "sc_queue s" arbitrary: s thesis)
  case Nil
  show ?case using Nil.prems(1) [of 0 s] Nil.hyps [symmetric] by (simp add: service_run.Nothing)
next
  case (Cons oper rest)
  let ?s1 = "s\<lparr>sc_done := Suc (sc_done s), sc_db := exec_op L W oper (sc_db s)\<rparr>"
  have step: "service_step L E F W connect cf ips s (Write 0) ?s1"
    by (rule write_alone [OF Cons.prems(2) Cons.hyps(2) [symmetric]])
  have "rest = sc_queue ?s1"
    using arg_cong [OF Cons.hyps(2), of tl] by (simp add: sc_queue_def sc_ops_def drop_Suc tl_drop)
  moreover have "sc_life ?s1 \<noteq> Exited" using Cons.prems(2) by simp
  ultimately obtain n s' where "service_run L E F W connect cf ips ?s1 (replicate n (Write 0)) s'" "sc_queue s' = []"
    "sc_lost s' = sc_lost s" "sc_manager s' = sc_manager s"
    using Cons.hyps(1) [of ?s1 thesis for thesis] by auto
  with service_run_trans [OF service_run.Step [OF service_run.Nothing step]] show ?case
    using Cons.prems(1) [of "Suc n" s'] by simp
qed

section \<open>Properties\<close>

lemma run_outputs_lag:
  assumes L: "hash_codec_ok L" and server: "utxo_server_ok W tbl"
    and rows: "rows_ok L rows" "sr_utxo srows = Some rows" "tbl db0 = table_of rows"
    and start: "run_start L E F parse cfg logger pool conns ta_conns file srows db disk = Inr (app, cf, m, ips)"
    and run: "service_run L E F W connect cf ips (service_init app m db0) acts s"
    and kept: "sc_lost s = []"
  shows "utxo_table_run L (sc_queue s @ utxo_pending (ta_utxo (ta (lg_sys (mg_logic (sc_manager s)))))) (tbl (sc_db s)) =
      utxo_image L (utxo (ta_utxo (ta (lg_sys (mg_logic (sc_manager s))))))"
    and "hm_wf (utxo (ta_utxo (ta (lg_sys (mg_logic (sc_manager s))))))"
    and "utxo_deletes (ta_utxo (ta (lg_sys (mg_logic (sc_manager s))))) = []"
proof -
  obtain lg0 where "lg_new L cf conns ta_conns file db disk = Inr lg0" "mg_logic m = lg_setup L E F srows lg0"
    using start by (auto simp: run_start_def Let_def split: sum.splits)
  then have "lg_inv L (tbl db0) (mg_logic m)" using lg_setup_inv [OF L rows(1,2)] rows(3) by simp
  then have inv: "lg_inv L (tbl db0) (mg_logic (sc_manager s))"
    using in_step.following.service_run_follows [OF run] L by simp
  obtain q where q: "arrivals q = take (sc_done s) (sc_ops s)" "worker_dropped q = []"
    "sc_db s = perform_db_operations L W q db0"
    using run_follows_schedule [OF run] kept by (auto simp: follows_schedule_def)
  have "tbl (sc_db s) = utxo_table_run L (take (sc_done s) (sc_ops s)) (tbl db0)"
    using worker_keeps_order [OF q(2)] q(1,3) perform_on_utxo [OF server] utxo_table_run_rows_of by metis
  then have "utxo_table_run L (sc_queue s) (tbl (sc_db s)) = utxo_table_run L (sc_ops s) (tbl db0)"
    using utxo_table_run_simps(3) [of L "take (sc_done s) (sc_ops s)" "sc_queue s"] by (simp add: sc_queue_def)
  then show "utxo_table_run L (sc_queue s @ utxo_pending (ta_utxo (ta (lg_sys (mg_logic (sc_manager s)))))) (tbl (sc_db s)) =
      utxo_image L (utxo (ta_utxo (ta (lg_sys (mg_logic (sc_manager s))))))"
    "hm_wf (utxo (ta_utxo (ta (lg_sys (mg_logic (sc_manager s))))))"
    "utxo_deletes (ta_utxo (ta (lg_sys (mg_logic (sc_manager s))))) = []"
    using inv by (simp_all add: lg_inv_def sys_synced_def ta_synced_def utxo_ok_def utxo_synced_def sc_ops_def wf_utxo_def)
qed

text \<open>
  C1: At every moment of every run of the service, whatever requests, peers and the schedule of
  its threads: if merging has lost nothing so far, the table of unspent outputs, after the
  operations still on the channel and the rows still waiting in memory, is the image of the
  outputs in memory. The table lags behind by what waits, and by nothing else.
\<close>

theorem table_lags_by_what_waits:
  assumes L: "hash_codec_ok L" and server: "utxo_server_ok W tbl"
    and rows: "rows_ok L rows" "sr_utxo srows = Some rows" "tbl db0 = table_of rows"
    and start: "run_start L E F parse cfg logger pool conns ta_conns file srows db disk = Inr (app, cf, m, ips)"
    and run: "service_run L E F W connect cf ips (service_init app m db0) acts s"
    and kept: "sc_lost s = []"
  shows "let u = ta_utxo (ta (lg_sys (mg_logic (sc_manager s)))) in
    utxo_table_run L (sc_queue s @ utxo_pending u) (tbl (sc_db s)) = utxo_image L (utxo u)"
  using run_outputs_lag(1) [OF L server rows start run kept] by (simp add: Let_def)

theorem table_lags_by_what_waits_witness:
  "\<exists>s :: (unit, sql_stmt list, nat, utxo_table) service. sc_done s = 1 \<and> (let u = ta_utxo (ta (lg_sys (mg_logic (sc_manager s)))) in
     utxo_table_run sample_lib (sc_queue s @ utxo_pending u) (sc_db s) = utxo_image sample_lib (utxo u)) \<and>
     (7, MsgTx sample_request_tx) \<in> set (mg_to_peers (sc_manager s))"
proof -
  obtain app m s where run: "sample_run = Inr (app, sample_config, m, [''ip''])"
    "sample_runs (service_init app m (table_of [])) sample_acts s"
    "sc_lost s = []" "sc_done s = 1" "(7, MsgTx sample_request_tx) \<in> set (mg_to_peers (sc_manager s))"
    by (rule sample_service)
  from table_lags_by_what_waits [OF sample_codec_ok table_env_ok(2) _ _ _ run(1) [unfolded sample_run_def] run(2,3),
      where rows = "[]"] run(4,5)
  show ?thesis by (intro exI [of _ s]) (simp add: rows_ok_def sample_rows_def)
qed

text \<open>
  C6: Nothing is broadcast that no client asked for: every transaction handed to a peer was accepted
  earlier in the run from a request that passed the rate limiter and the API key, with a
  text within the limit that decodes to it, and the client was answered with its hash. Each
  accepted one reaches a peer at most once, and in the order in which they were accepted.
\<close>

theorem broadcast_only_on_request:
  assumes start: "run_start L E F parse cfg logger pool conns ta_conns file srows db disk = Inr (app, cf, m, ips)"
    and run: "service_run L E F W connect cf ips (service_init app m db0) acts s"
  shows "(\<forall>p t. (p, MsgTx t) \<in> set (mg_to_peers (sc_manager s)) \<longrightarrow>
      (\<exists>earlier hexstr req later s1. acts = earlier @ Broadcast hexstr req # later \<and>
         service_run L E F W connect cf ips (service_init app m db0) earlier s1 \<and> accepts L hexstr req (sc_app s1) t)) \<and>
    subseq (broadcast_txs (sc_manager s)) (requested_txs (take (sc_taken s) (rest_msgs (sc_app s))))"
proof (intro conjI allI impI)
  show order: "subseq (broadcast_txs (sc_manager s)) (requested_txs (take (sc_taken s) (rest_msgs (sc_app s))))"
    using run_broadcasts [OF start run] by (simp add: broadcasts_ok_def)
  fix p t
  assume peer: "(p, MsgTx t) \<in> set (mg_to_peers (sc_manager s))"
  then have "subseq [t] (broadcast_txs (sc_manager s))"
    using in_broadcast_txs [of t "sc_manager s"] by (auto simp: subseq_singleton_left)
  then have "subseq [t] (requested_txs (take (sc_taken s) (rest_msgs (sc_app s))))"
    using order subseq_order.order_trans by blast
  then have "TxForBroadcast t \<in> set (rest_msgs (sc_app s))"
    by (auto simp: subseq_singleton_left in_requested_txs dest: in_set_takeD)
  then show "\<exists>earlier hexstr req later s1. acts = earlier @ Broadcast hexstr req # later \<and>
      service_run L E F W connect cf ips (service_init app m db0) earlier s1 \<and> accepts L hexstr req (sc_app s1) t"
    using run_accepted [OF run] run_start_fresh(4) [OF start] by simp
qed

theorem broadcast_only_on_request_witness:
  "\<exists>earlier hexstr req later app. sample_acts = earlier @ Broadcast hexstr req # later \<and>
     accepts sample_lib hexstr req app sample_request_tx"
proof -
  obtain app m s where run: "sample_run = Inr (app, sample_config, m, [''ip''])"
    "sample_runs (service_init app m (table_of [])) sample_acts s"
    "(7, MsgTx sample_request_tx) \<in> set (mg_to_peers (sc_manager s))"
    by (rule sample_service)
  from broadcast_only_on_request [OF run(1) [unfolded sample_run_def] run(2)] run(3) show ?thesis by blast
qed



text \<open>
  C10: The service stops when it is told to, and only then. Where the manager has ended, the signal to
  shut down has been given; and once it has been given, the manager has ended after as many more
  rounds as there are events that it has not heard.
\<close>

theorem stops_when_told:
  assumes run: "service_run L E F W connect cf ips (service_init app m db) acts s"
  shows "(sc_phase s = Ended \<longrightarrow> (\<exists>time. Signal time \<in> set acts)) \<and>
    (\<forall>later s'. sc_signalled s \<and> service_run L E F W connect cf ips s later s' \<and>
       length (sent (sc_events s)) \<le> sc_heard s + rounds_in later \<longrightarrow> sc_phase s' = Ended)"
proof (intro conjI allI impI)
  have ok: "stops_ok s" and told: "sc_signalled s \<longrightarrow> (\<exists>time. Signal time \<in> set acts)" using run_stops [OF run] by auto
  show "\<exists>time. Signal time \<in> set acts" if "sc_phase s = Ended"
    using ok told that by (auto simp: stops_ok_def stop_at_def dest: in_set_takeD)
  fix later s'
  assume l: "sc_signalled s \<and> service_run L E F W connect cf ips s later s' \<and>
    length (sent (sc_events s)) \<le> sc_heard s + rounds_in later"
  then have later: "service_run L E F W connect cf ips s later s'" by simp
  have ok': "stops_ok s'" using run_stops [OF service_run_trans [OF run later]] by simp
  have "length (sent (sc_events s)) \<le> sc_heard s'"
    using run_takes(2) [OF later] run_counters(2) [OF run] l by simp
  moreover have "prefix (sent (sc_events s)) (sent (sc_events s'))" using service_run_events [OF later] .
  ultimately have "prefix (sent (sc_events s)) (take (sc_heard s') (sent (sc_events s')))"
    by (auto simp: prefix_def)
  moreover have "stop_at (sent (sc_events s))" using ok l by (simp add: stops_ok_def)
  ultimately have "stop_at (take (sc_heard s') (sent (sc_events s')))" by (auto simp: prefix_def)
  then show "sc_phase s' = Ended" using ok' by (simp add: stops_ok_def)
qed

text \<open>The signal comes while a thread runs, and the next round ends the manager.\<close>

theorem stops_when_told_witness:
  "\<exists>(s :: (unit, sql_stmt list, nat, utxo_table) service) s'. sc_phase s = Looping False \<and>
     sample_runs s [Round ((sample_round (Some EvStop) None)\<lparr>rd_peer := Some (stop_message 0)\<rparr>)] s' \<and> sc_phase s' = Ended"
proof -
  let ?m = "sample_manager\<lparr>mg_tracker := tt_new\<rparr>"
  let ?init = "service_init sample_app ?m (table_of []) :: (unit, sql_stmt list, nat, utxo_table) service"
  let ?rd = "(sample_round (Some EvStop) None)\<lparr>rd_peer := Some (stop_message 0)\<rparr>"
  obtain s1 where s1: "sample_step ?init (Start_Thread 0) s1"
    "sc_phase s1 = Looping False" "sc_life s1 = Serving" "\<not> sc_signalled s1" "sc_events s1 = open_chan" "sc_heard s1 = 0"
    "sc_app s1 = sample_app" "sc_taken s1 = 0"
    using sample_thread [of ?init table_env] by auto
  let ?s = "s1\<lparr>sc_events := snd (chan_send (stop_message 0) (sc_events s1)), sc_signalled := True\<rparr>"
  have s: "sample_step s1 (Signal 0) ?s" using s1 by (intro service_step.On_Signal) simp_all
  have sent: "sent (sc_events ?s) = [stop_message 0]" by (simp add: s1(5) chan_send_def)
  obtain s' where s': "sample_step ?s (Round ?rd) s'"
    using round_possible [of ?s False ?rd sample_lib log_env sample_file table_env "\<lambda>_ _ _ _. 7" sample_config "[''ip'']"]
      s1 sent
    by (auto simp: next_event_def next_rest_def next_msg_def rest_msgs_def sample_app_def sample_round_def)
  have run: "sample_runs ?init (([] @ [Start_Thread 0]) @ [Signal 0]) ?s"
    by (rule service_run.Step [OF service_run.Step [OF service_run.Nothing s1(1)] s])
  have later: "sample_runs ?s ([] @ [Round ?rd]) s'" by (rule service_run.Step [OF service_run.Nothing s'])
  have "sc_phase s' = Ended"
    using conjunct2 [OF stops_when_told [OF run], rule_format, of "[] @ [Round ?rd]" s'] later sent
    by (simp add: rounds_in_def)
  then show ?thesis using later s1(2)
    by (intro exI [of _ ?s] exI [of _ s']) simp
qed

text \<open>The round that takes a stop, where no request waits: the manager ends, and nothing is sent.\<close>

lemma stop_round:
  assumes step: "service_step L E F W connect cf ips s (Round rd) s1"
    and stop: "rd_peer rd = Some received" "pe_event received = EvStop" "next_rest s = None"
  shows "sc_phase s1 = Ended" and "\<not> rx_alive (msg_from_rest_api (sc_app s1))"
    and "lg_sys (mg_logic (sc_manager s1)) = lg_sys (mg_logic (sc_manager s))"
    and "rest_msgs (sc_app s1) = rest_msgs (sc_app s)" and "sc_taken s1 = sc_taken s"
    and "sc_done s1 = sc_done s" and "sc_life s1 = sc_life s"
    and "send_message_queue (mg_logic (sc_manager s)) = [] \<Longrightarrow> mg_to_peers (sc_manager s1) = mg_to_peers (sc_manager s)"
proof -
  obtain keep m flag where r: "peer_part L E F rd (sc_manager s) = (keep, m)" "rd_rest rd = None"
    "s1 = after_round keep (stop_after rd flag) (rest_part L E rd m) s"
    using step stop(3) by (auto elim: service_stepE)
  have "\<not> keep" using peer_part_stop [OF stop(1,2), of L E F "sc_manager s"] r(1) by simp
  moreover have "lg_sys (mg_logic m) = lg_sys (mg_logic (sc_manager s))"
    using arg_cong [OF r(1), of "\<lambda>x. lg_sys (mg_logic (snd x))"] stop(1,2)
    by (simp add: peer_part_def peer_half_sel process_event_inner_def Let_def message_to_send_def)
  moreover have "send_message_queue (mg_logic (sc_manager s)) = [] \<Longrightarrow> mg_to_peers m = mg_to_peers (sc_manager s)"
    using arg_cong [OF r(1), of "\<lambda>x. mg_to_peers (snd x)"] stop(1,2)
    by (simp add: peer_part_def peer_half_def process_event_inner_def Let_def message_to_send_def)
  ultimately show "sc_phase s1 = Ended" "\<not> rx_alive (msg_from_rest_api (sc_app s1))"
    "lg_sys (mg_logic (sc_manager s1)) = lg_sys (mg_logic (sc_manager s))" "rest_msgs (sc_app s1) = rest_msgs (sc_app s)"
    "sc_taken s1 = sc_taken s" "sc_done s1 = sc_done s" "sc_life s1 = sc_life s"
    "send_message_queue (mg_logic (sc_manager s)) = [] \<Longrightarrow> mg_to_peers (sc_manager s1) = mg_to_peers (sc_manager s)"
    using stop by (simp_all add: r(2,3) rest_part_def) (simp_all add: after_round_def stop_after_def close_rest_def Let_def)
qed






end
