(* ===== verification/Table_Guarantees.thy ===== *)
theory Table_Guarantees
  imports Header_Table Pool_Table Service_Guarantees
begin

text \<open>
  The tables of the database and the state in memory, in every run of the service: how far the tables are
  behind, what a restart reads from them, and what a repeated transaction does to them.
\<close>

section \<open>The start\<close>

text \<open>The rows that the loading queries find in the tables, whose heights are 32-bit columns.\<close>

definition pool_rows_ok :: "ext_lib \<Rightarrow> pool_tables \<Rightarrow> setup_rows \<Rightarrow> bool" where
  "pool_rows_ok L t srows \<longleftrightarrow>
     dom (tb_mempool t) \<subseteq> range (hash_encode L) \<and> dom (tb_tx t) \<subseteq> range (hash_encode L) \<and>
     (\<forall>row \<in> ran (tb_tx t). fst row < 2 ^ 32) \<and>
     (\<exists>ms rs. sr_mempool srows = Some ms \<and> set ms = dom (tb_mempool t) \<and>
        sr_txs srows = Some rs \<and> distinct (map fst rs) \<and> map_of rs = (\<lambda>k. map_option (\<lambda>row. of_nat (fst row)) (tb_tx t k)))"

lemma load_mempool_contains:
  assumes "hash_codec_ok L" and "set ms \<subseteq> range (hash_encode L)"
  shows "hm_contains (mempool (fold (load_mempool_entry L) ms d)) h \<longleftrightarrow>
     hm_contains (mempool d) h \<or> hash_encode L h \<in> set ms"
  using assms(2)
proof (induction ms arbitrary: d)
  case (Cons k ms)
  then obtain h' where "k = hash_encode L h'" by auto
  then show ?case
    using Cons assms(1)
    by (auto simp: load_mempool_entry_def txdb_decode_stored_hash_def hash_codec_ok_def hm_contains_def hm_get_insert
        hash_encode_inj [OF assms(1)])
qed simp

lemma load_tx_get:
  assumes "hash_codec_ok L" and "fst ` set rs \<subseteq> range (hash_encode L)" and "distinct (map fst rs)"
  shows "hm_get (txs (fold (load_tx_entry L) rs d)) h =
     (case map_of rs (hash_encode L h) of Some v \<Rightarrow> Some v | None \<Rightarrow> hm_get (txs d) h)"
  using assms(2,3)
proof (induction rs arbitrary: d)
  case (Cons r rs)
  then obtain h' where h': "fst r = hash_encode L h'" by auto
  have "map_of rs (fst r) = None" using Cons.prems by (simp add: map_of_eq_None_iff)
  then show ?case
    using Cons assms(1) h'
    by (auto simp: load_tx_entry_def txdb_decode_stored_hash_def hash_codec_ok_def hm_get_insert
        hash_encode_inj [OF assms(1)] split: option.split)
qed simp

lemma load_frame:
  "txs (load_mempool L ms d) = txs d" "save_txs (load_mempool L ms d) = save_txs d" "save_txs (load_tx L rs d) = save_txs d"
  "mempool (load_tx L rs d) = mempool d"
  "mempool_entries (load_mempool L ms d) = mempool_entries d" "hashes_to_delete (load_mempool L ms d) = hashes_to_delete d"
  "tx_entries (load_mempool L ms d) = tx_entries d" "mempool_entries (load_tx L rs d) = mempool_entries d"
  "hashes_to_delete (load_tx L rs d) = hashes_to_delete d" "tx_entries (load_tx L rs d) = tx_entries d"
proof -
  have "txs (fold (load_mempool_entry L) xs d) = txs d \<and> save_txs (fold (load_mempool_entry L) xs d) = save_txs d \<and>
      mempool_entries (fold (load_mempool_entry L) xs d) = mempool_entries d \<and>
      hashes_to_delete (fold (load_mempool_entry L) xs d) = hashes_to_delete d \<and>
      tx_entries (fold (load_mempool_entry L) xs d) = tx_entries d" for xs
    by (induction xs arbitrary: d) (simp_all add: load_mempool_entry_def split: option.split)
  moreover have "mempool (fold (load_tx_entry L) xs d) = mempool d \<and> save_txs (fold (load_tx_entry L) xs d) = save_txs d \<and>
      mempool_entries (fold (load_tx_entry L) xs d) = mempool_entries d \<and>
      hashes_to_delete (fold (load_tx_entry L) xs d) = hashes_to_delete d \<and>
      tx_entries (fold (load_tx_entry L) xs d) = tx_entries d" for xs
    by (induction xs arbitrary: d) (simp_all add: load_tx_entry_def split: option.split)
  ultimately show "txs (load_mempool L ms d) = txs d" "save_txs (load_mempool L ms d) = save_txs d" "save_txs (load_tx L rs d) = save_txs d"
    "mempool (load_tx L rs d) = mempool d"
    "mempool_entries (load_mempool L ms d) = mempool_entries d" "hashes_to_delete (load_mempool L ms d) = hashes_to_delete d"
    "tx_entries (load_mempool L ms d) = tx_entries d" "mempool_entries (load_tx L rs d) = mempool_entries d"
    "hashes_to_delete (load_tx L rs d) = hashes_to_delete d" "tx_entries (load_tx L rs d) = tx_entries d"
    by (simp_all add: load_mempool_def load_tx_def split: option.split)
qed

text \<open>What is read is what the tables hold.\<close>

lemma read_pool:
  assumes L: "hash_codec_ok L" and rows: "pool_rows_ok L t srows"
    and new: "ta_txdb a = txdb_new save" "ta_save_txs a = save"
  shows "pool_synced L t (read_tables L (sr_mempool srows) (sr_txs srows) us cs a, open_chan)"
    (is "pool_synced L t (?a, _)")
proof -
  obtain ms rs where r: "sr_mempool srows = Some ms" "set ms = dom (tb_mempool t)" "sr_txs srows = Some rs"
    "distinct (map fst rs)" "map_of rs = (\<lambda>k. map_option (\<lambda>row. of_nat (fst row)) (tb_tx t k))"
    and heights: "\<forall>row \<in> ran (tb_tx t). fst row < 2 ^ 32"
    and doms: "dom (tb_mempool t) \<subseteq> range (hash_encode L)" "dom (tb_tx t) \<subseteq> range (hash_encode L)"
    using rows by (auto simp: pool_rows_ok_def)
  have "fst ` set rs = dom (tb_tx t)"
    unfolding dom_map_of_conv_image_fst [symmetric] r(5) by (auto simp: dom_def)
  then have keys: "fst ` set rs \<subseteq> range (hash_encode L)" using doms(2) by simp
  let ?d = "load_mempool L (Some ms) (txdb_new save)"
  have d: "ta_txdb ?a = (if save then load_tx L (Some rs) ?d else ?d)" "ta_save_txs ?a = save"
    by (simp_all add: read_tables_def Let_def new r(1,3))
  have wf: "wf_txdb (ta_txdb ?a)" by (simp add: d wf_txdb_load_tx wf_txdb_load_mempool)
  have frame: "save_txs (ta_txdb ?a) = save" "mempool_entries (ta_txdb ?a) = []" "hashes_to_delete (ta_txdb ?a) = []"
    "tx_entries (ta_txdb ?a) = []"
    by (simp_all add: d load_frame txdb_new_def)
  have "tb_mempool t (hash_encode L h) = None \<longleftrightarrow> \<not> hm_contains (mempool (ta_txdb ?a)) h" for h
    using load_mempool_contains [OF L, of ms "txdb_new save" h] r(2) doms(1)
    by (auto simp: d(1) load_frame load_mempool_def txdb_new_def hm_contains_def)
  moreover have "map_option fst (tb_tx t (hash_encode L h)) = map_option unat (hm_get (txs (ta_txdb ?a)) h)" if save for h
  proof -
    have "hm_get (txs (ta_txdb ?a)) h = map_option (\<lambda>row. of_nat (fst row)) (tb_tx t (hash_encode L h))"
      using load_tx_get [OF L keys r(4), of ?d h] that
      by (simp add: d(1) load_tx_def r(5) load_frame txdb_new_def split: option.split)
    moreover have "unat (of_nat (fst row) :: u32) = fst row" if "tb_tx t (hash_encode L h) = Some row" for row
      using heights ranI [of "tb_tx t" "hash_encode L h" row] that by (intro unat_of_usize) simp
    ultimately show ?thesis by (cases "tb_tx t (hash_encode L h)") auto
  qed
  ultimately have "pool_image L t (ta_txdb ?a)"
    using doms by (auto simp: pool_image_def frame)
  then show ?thesis by (simp add: pool_synced_def frame wf d(2))
qed

lemma run_pool:
  assumes L: "writes_txs L" and rows: "pool_rows_ok L t0 srows" and files: "list_all (\<lambda>(b, _). regular_block b) (sr_blocks srows)"
    and start: "run_start L E F parse cfg logger pool conns ta_conns file srows db disk = Inr (app, cf, m, ips)"
    and run: "service_run L E F W connect cf ips (service_init app m w0) acts s"
    and blocks: "list_all regular_block (blocks_taken acts)"
  shows "pool_synced L t0 (ta (lg_sys (mg_logic (sc_manager s))), ch (lg_sys (mg_logic (sc_manager s))))"
proof -
  have codec: "hash_codec_ok L" using L by (simp add: writes_txs_def)
  obtain lg where lg: "lg_new L cf conns ta_conns file db disk = Inr lg" "mg_logic m = lg_setup L E F srows lg"
    by (rule run_start_logic [OF start])
  obtain save where new: "ta_txdb (ta (lg_sys lg)) = txdb_new save" "ta_save_txs (ta (lg_sys lg)) = save"
    "ch (lg_sys lg) = open_chan" "block_queue (bm (lg_sys lg)) = []"
    using lg(1) by (auto simp: lg_new_def ta_new_def bm_new_def Let_def split: prod.splits sum.splits option.splits if_splits)
  let ?s = "(lg_sys lg)\<lparr>ta := read_tables L (sr_mempool srows) (sr_txs srows) (sr_utxo srows) (sr_collections srows) (ta (lg_sys lg))\<rparr>"
  have "pooled.guarded_sys L t0 ?s"
    using read_pool [OF codec rows new(1,2)] new(3,4) by (simp add: pooled.guarded_sys_def)
  then have "pooled.guarded_sys L t0 (lg_sys (mg_logic m))"
    using pooled.bm_setup_kept [OF _ files] by (simp add: lg(2) lg_setup_def Let_def)
  then have "list_all regular_block ([] @ blocks_taken acts) \<longrightarrow> pooled.guarded_sys L t0 (lg_sys (mg_logic (sc_manager s)))"
    by (intro pooled.guarding.service_run_follows [OF run]) simp
  then show ?thesis using blocks L unfolding pooled.guarded_sys_def by simp
qed

lemma pool_run_split:
  "fst (pool_run L (xs @ ys) t) \<Longrightarrow> fst (pool_run L xs t) \<and> pool_run L (xs @ ys) t = pool_run L ys (snd (pool_run L xs t))"
  by (simp add: pool_run_append split: if_splits)

lemma run_pool_image:
  assumes L: "writes_txs L" and server: "pool_server_ok W tbl"
    and rows: "pool_rows_ok L (tbl w0) srows" and files: "list_all (\<lambda>(b, _). regular_block b) (sr_blocks srows)"
    and start: "run_start L E F parse cfg logger pool conns ta_conns file srows db disk = Inr (app, cf, m, ips)"
    and run: "service_run L E F W connect cf ips (service_init app m w0) acts s"
    and blocks: "list_all regular_block (blocks_taken acts)"
    and kept: "sc_lost s = []" and accepted: "fst (pool_run L (sc_ops s) (tbl w0))"
  shows "fst (pool_run L (sc_queue s) (tbl (sc_db s)))"
    and "pool_image L (snd (pool_run L (sc_queue s) (tbl (sc_db s)))) (ta_txdb (ta (lg_sys (mg_logic (sc_manager s)))))"
proof -
  obtain q where q: "arrivals q = take (sc_done s) (sc_ops s)" "worker_dropped q = []"
    "sc_db s = perform_db_operations L W q w0"
    using run_follows_schedule [OF run] kept by (auto simp: follows_schedule_def)
  have "sc_ops s = arrivals q @ sc_queue s" by (simp add: q(1) sc_queue_def)
  then have first: "fst (pool_run L (arrivals q) (tbl w0))"
    and all: "pool_run L (sc_ops s) (tbl w0) = pool_run L (sc_queue s) (snd (pool_run L (arrivals q) (tbl w0)))"
    using pool_run_split accepted by metis+
  have "pool_run L (sc_queue s) (tbl (sc_db s)) = pool_run L (sc_ops s) (tbl w0)"
    unfolding all q(3) perform_on_pool [OF server q(2) first] by (rule refl)
  then show "fst (pool_run L (sc_queue s) (tbl (sc_db s)))"
    "pool_image L (snd (pool_run L (sc_queue s) (tbl (sc_db s)))) (ta_txdb (ta (lg_sys (mg_logic (sc_manager s)))))"
    using accepted run_pool [OF L rows files start run blocks] by (simp_all add: pool_synced_def Let_def sc_ops_def)
qed

section \<open>A run with a block\<close>

lemma sample_stored:
  "\<not> oc_detect (cf_orphan sample_config)" "get_network_settings sample_config = Inr sample_settings"
  "ns_startup_load_from_database sample_settings"
  "linked sample_lib 1 [sample_header 1 100 5]" "[sample_header 1 100 5] \<noteq> []"
  "sr_headers sample_rows = Some (map (stored_header sample_lib) (enumerate 1 [sample_header 1 100 5]))"
  by (simp_all add: sample_config_def get_network_settings_def sample_settings_def sample_rows_def stored_header_def
      sample_header_def sample_lib_def)

lemma sample_new_block:
  "blocks_taken sample_block_acts = [sample_block 5 6]"
  "new_chain sample_lib (tip sample_lib 1 [sample_header 1 100 5]) [sample_block 5 6]"
  "header_hash sample_lib ` set (map blk_header [sample_block 5 6]) \<inter> header_hash sample_lib ` set [sample_header 1 100 5] = {}"
  by (simp add: blocks_taken_def sample_block_acts_def round_blocks_def event_blocks_def sample_round_def)
    (simp_all add: new_chain_def tip_def sample_block_def sample_header_def sample_lib_def)

lemma sample_block_chain:
  assumes run: "sample_run = Inr (app, sample_config, m, [''ip''])"
    and runs: "sample_runs_on W (service_init app m w0) sample_block_acts s"
  shows "block_headers (bm (lg_sys (mg_logic (sc_manager s)))) = [sample_header 1 100 5, sample_header 5 1000 6]"
proof -
  have room: "1 + length [sample_header 1 100 5] < 2 ^ 31" by simp
  note start = start_chain [OF sample_codec_ok sample_stored room run [unfolded sample_run_def]]
  have room': "1 + length [sample_header 1 100 5] + length [sample_block 5 6] < 2 ^ 31" by simp
  show ?thesis
    using new_blocks_appended(1) [OF start(1-3) sample_new_block(2) refl sample_new_block(3) room']
    unfolding run_chain [OF sample_codec_ok sample_stored room run [unfolded sample_run_def] runs] sample_new_block(1)
    by (simp add: sample_block_def)
qed

section \<open>A server with these tables\<close>

definition tables_env :: "(utxo_table \<times> pool_tables) db_env" where
  "tables_env = \<lparr>server = (\<lambda>stmt (u, p). let (r, p') = stmt_on_pool stmt p in (r, (stmt_on_utxo stmt u, p'))),
     retry = (\<lambda>ds call db. attempts (length ds) call db), ms_delay = 300, retries = 3\<rparr>"

definition no_rows :: "utxo_table \<times> pool_tables" where
  "no_rows = (table_of [], \<lparr>tb_mempool = Map.empty, tb_tx = Map.empty\<rparr>)"

lemma utxo_stmt_not_pool: "concerns_utxo stmt \<Longrightarrow> stmt_on_pool stmt p = (Inr (), p)"
  by (cases stmt) simp_all

interpretation outputs_too: table_server tables_env fst concerns_utxo "\<lambda>_ _. True" stmt_on_utxo
  by unfold_locales
    (auto simp: tables_env_def retry_crate_ok_def utxo_stmt_not_pool stmt_on_utxo_other split_def Let_def split: prod.split sum.split)

lemma tables_env_ok: "utxo_server_ok tables_env fst" "pool_server_ok tables_env snd"
  using outputs_too.table_server_axioms outputs_too.retry_crate
  by (simp_all add: utxo_server_ok_def pool_server_ok_def, simp add: tables_env_def split_def Let_def apsnd_def map_prod_def)

lemma sample_writes_txs: "writes_txs sample_lib"
  by (simp add: writes_txs_def sample_codec_ok)

text \<open>The run in which a client's transaction is sent, on this server.\<close>

lemma sample_pool_run:
  obtains app m s where "sample_run = Inr (app, sample_config, m, [''ip''])"
    and "sample_runs_on tables_env (service_init app m no_rows) sample_first_acts s" and "sc_lost s = []"
    and "sc_life s = Serving" and "length (sc_queue s) = 1" and "fst (pool_run sample_lib (sc_ops s) (snd no_rows))"
    and "ta_utxo (ta (lg_sys (mg_logic (sc_manager s)))) = utxo_new"
    and "ta_txdb (ta (lg_sys (mg_logic (sc_manager s)))) = (txdb_new True)\<lparr>mempool := [(5, 5)]\<rparr>"
proof -
  obtain app m s where s: "sample_run = Inr (app, sample_config, m, [''ip''])"
    "sample_runs_on tables_env (service_init app m no_rows) sample_first_acts s" "sc_lost s = []"
    "sc_life s = Serving" "length (sc_queue s) = 1" "\<exists>e. sc_ops s = [MempoolBatchWrite [e]]"
    "ta_utxo (ta (lg_sys (mg_logic (sc_manager s)))) = utxo_new"
    "ta_txdb (ta (lg_sys (mg_logic (sc_manager s)))) = (txdb_new True)\<lparr>mempool := [(5, 5)]\<rparr>"
    by (rule sample_first)
  moreover have "fst (pool_run sample_lib (sc_ops s) (snd no_rows))"
    using s(6) by (auto simp: no_rows_def)
  ultimately show thesis by (intro that) 
qed

lemma sample_rows_start:
  "rows_ok sample_lib []" "sr_utxo sample_rows = Some []" "fst no_rows = table_of []" "pool_rows_ok sample_lib (snd no_rows) sample_rows"
  "list_all (\<lambda>(b, _). regular_block b) (sr_blocks sample_rows)"
  by (simp_all add: rows_ok_def sample_rows_def no_rows_def pool_rows_ok_def)

lemma sample_no_blocks: "blocks_taken sample_first_acts = []" "blocks_taken (replicate n (Write 0)) = []"
  by (simp_all add: blocks_taken_def sample_first_acts_def round_blocks_def event_blocks_def sample_round_def)

section \<open>The tables of transactions\<close>

text \<open>
  C5: The tables of known transactions follow the memory in every run. If merging has lost nothing and
  no row is refused, then the tables \<open>mempool\<close> and \<open>tx\<close>, after the operations still on the channel, hold
  exactly the transactions that the memory knows, those of blocks with their height. (A row is
  refused where its key is there, which is when a transaction comes a second time.)
\<close>

theorem pool_tables_lag_by_channel:
  assumes L: "writes_txs L" and server: "pool_server_ok W tbl"
    and rows: "pool_rows_ok L (tbl w0) srows" and files: "list_all (\<lambda>(b, _). regular_block b) (sr_blocks srows)"
    and start: "run_start L E F parse cfg logger pool conns ta_conns file srows db disk = Inr (app, cf, m, ips)"
    and run: "service_run L E F W connect cf ips (service_init app m w0) acts s"
    and blocks: "list_all regular_block (blocks_taken acts)"
    and kept: "sc_lost s = []" and accepted: "fst (pool_run L (sc_ops s) (tbl w0))"
  shows "let (ok, t) = pool_run L (sc_queue s) (tbl (sc_db s)); d = ta_txdb (ta (lg_sys (mg_logic (sc_manager s)))) in
     ok \<and> (\<forall>h. tb_mempool t (hash_encode L h) = None \<longleftrightarrow> \<not> hm_contains (mempool d) h) \<and>
     (save_txs d \<longrightarrow> (\<forall>h. map_option fst (tb_tx t (hash_encode L h)) = map_option unat (hm_get (txs d) h)))"
  using run_pool_image [OF L server rows files start run blocks kept accepted]
  unfolding pool_image_def Let_def split_def by blast

text \<open>The row of the transaction that was broadcast is on the channel, and is written next.\<close>

theorem pool_tables_lag_by_channel_witness:
  "\<exists>s :: (unit, sql_stmt list, nat, utxo_table \<times> pool_tables) service. length (sc_queue s) = 1 \<and>
     tb_mempool (snd (pool_run sample_lib (sc_queue s) (snd (sc_db s)))) (sample_encode 5) \<noteq> None"
proof -
  obtain app m s where run: "sample_run = Inr (app, sample_config, m, [''ip''])"
    "sample_runs_on tables_env (service_init app m no_rows) sample_first_acts s" "sc_lost s = []"
    "length (sc_queue s) = 1" "fst (pool_run sample_lib (sc_ops s) (snd no_rows))"
    "ta_txdb (ta (lg_sys (mg_logic (sc_manager s)))) = (txdb_new True)\<lparr>mempool := [(5, 5)]\<rparr>"
    by (rule sample_pool_run)
  have "list_all regular_block (blocks_taken sample_first_acts)" by (simp add: sample_no_blocks)
  from pool_tables_lag_by_channel [OF sample_writes_txs tables_env_ok(2) sample_rows_start(4,5) run(1) [unfolded sample_run_def]
      run(2) this run(3,5)]
  have "tb_mempool (snd (pool_run sample_lib (sc_queue s) (snd (sc_db s)))) (hash_encode sample_lib 5) = None \<longleftrightarrow>
      \<not> hm_contains (mempool ((txdb_new True)\<lparr>mempool := [(5, 5)]\<rparr>)) 5"
    unfolding run(6) Let_def split_def by blast
  then show ?thesis
    using run(4) by (intro exI [of _ s] conjI) (simp_all add: hm_contains_def hm_get_def sample_lib_def)
qed

section \<open>A restart\<close>



text \<open>Whether transactions are saved is a setting, and stays.\<close>

interpretation saving: channel_kept L E "\<lambda>sc. save_txs (ta_txdb (fst sc)) = save" for save
proof unfold_locales
  fix sc :: "'a tx_analyser \<times> db_chan" and ev
  have "save_txs (txdb_process_block L b h d) = save_txs d" for b h d
    by (simp add: txdb_process_block_def process_txs_frame split: option.split)
  moreover have "save_txs (add_to_mempool L now t fee d) = save_txs d" for now t fee d
    by (simp add: add_to_mempool_def Let_def split: option.split)
  ultimately show "save_txs (ta_txdb (fst (ta_step L E ev sc))) = save" if "save_txs (ta_txdb (fst sc)) = save"
    using that by (cases sc; cases ev)
      (simp_all add: standalone_fields utxo_update_db_eq ta_flush_database_cache_eq ta_process_block_eq
        ta_handle_orphan_block_eq txdb_handle_orphan_block_def)
qed simp_all

text \<open>The analyser that a start from the database hands on.\<close>

lemma start_analyser:
  assumes start: "run_start L E F parse cfg logger pool conns ta_conns file srows db disk = Inr (app, cf, m, ips)"
    and db: "get_network_settings cf = Inr ns" "ns_startup_load_from_database ns"
  obtains a where "ta (lg_sys (mg_logic m)) =
      read_tables L (sr_mempool srows) (sr_txs srows) (sr_utxo srows) (sr_collections srows) a"
    and "ta_utxo a = utxo_new" and "ta_txdb a = txdb_new (ns_save_txs ns)" and "ta_save_txs a = ns_save_txs ns"
proof -
  obtain lg where lg: "lg_new L cf conns ta_conns file db disk = Inr lg" "mg_logic m = lg_setup L E F srows lg"
    by (rule run_start_logic [OF start])
  obtain save where "bm_new L cf disk = Inr (bm (lg_sys lg))" by (rule lg_new_sel [OF lg(1)])
  from bm_new_sel(4) [OF this db(1)] have "startup_load_from_database (bm (lg_sys lg))" using db(2) by simp
  then have "ta (lg_sys (mg_logic m)) = read_tables L (sr_mempool srows) (sr_txs srows) (sr_utxo srows) (sr_collections srows)
      (ta (lg_sys lg))" by (simp add: lg(2) lg_setup_def bm_setup_def Let_def)
  moreover have "ta_utxo (ta (lg_sys lg)) = utxo_new" "ta_txdb (ta (lg_sys lg)) = txdb_new (ns_save_txs ns)"
    "ta_save_txs (ta (lg_sys lg)) = ns_save_txs ns"
    using lg(1) db(1) by (auto simp: lg_new_def ta_new_def Let_def split: prod.splits sum.splits if_splits)
  ultimately show thesis by (rule that)
qed

lemma run_saving:
  assumes start: "run_start L E F parse cfg logger pool conns ta_conns file srows db disk = Inr (app, cf, m, ips)"
    and db: "get_network_settings cf = Inr ns" "ns_startup_load_from_database ns"
    and run: "service_run L E F W connect cf ips (service_init app m w0) acts s"
  shows "save_txs (ta_txdb (ta (lg_sys (mg_logic (sc_manager s))))) = ns_save_txs ns"
proof -
  obtain a where "ta (lg_sys (mg_logic m)) =
      read_tables L (sr_mempool srows) (sr_txs srows) (sr_utxo srows) (sr_collections srows) a"
    "ta_txdb a = txdb_new (ns_save_txs ns)" by (rule start_analyser [OF start db])
  then have "save_txs (ta_txdb (ta (lg_sys (mg_logic m)))) = ns_save_txs ns"
    by (simp add: read_tables_def Let_def load_frame txdb_new_def)
  then show ?thesis
    using saving.in_logic.following.service_run_follows [OF run, of "ns_save_txs ns"] by (simp add: saving.sys_kept_def)
qed

lemma row_of_inj: "map_option (row_of L p) x = map_option (row_of L p) y \<longleftrightarrow> x = y"
  by (cases x; cases y) (auto simp: row_of_def intro: utxo_entry.equality)

lemma pool_image_same:
  assumes L: "hash_codec_ok L" and "pool_image L t d" and "pool_image L t d'" and "save_txs d = save_txs d'"
  shows "hm_contains (mempool d) h = hm_contains (mempool d') h" and "save_txs d \<Longrightarrow> hm_get (txs d) h = hm_get (txs d') h"
proof -
  show "hm_contains (mempool d) h = hm_contains (mempool d') h" using assms by (auto simp: pool_image_def)
  assume "save_txs d"
  then have "map_option unat (hm_get (txs d) h) = map_option unat (hm_get (txs d') h)"
    using assms unfolding pool_image_def by metis
  then show "hm_get (txs d) h = hm_get (txs d') h"
    by (cases "hm_get (txs d) h"; cases "hm_get (txs d') h") (auto simp: word_unat_eq_iff)
qed

lemma sample_tables:
  assumes "pool_image sample_lib t ((txdb_new True)\<lparr>mempool := [(5, 5)]\<rparr>)"
  shows "dom (tb_mempool t) = {sample_encode 5}" and "tb_tx t = Map.empty"
proof -
  have doms: "dom (tb_mempool t) \<subseteq> range (hash_encode sample_lib)" "dom (tb_tx t) \<subseteq> range (hash_encode sample_lib)"
    and pool: "tb_mempool t (hash_encode sample_lib h) = None \<longleftrightarrow> h \<noteq> 5"
    and tx: "map_option fst (tb_tx t (hash_encode sample_lib h)) = None" for h
    using assms by (auto simp: pool_image_def txdb_new_def hm_contains_def hm_get_def split: if_splits)
  have enc: "hash_encode sample_lib = sample_encode" by (simp add: sample_lib_def)
  have "k \<in> dom (tb_mempool t) \<longleftrightarrow> k = sample_encode 5" for k
  proof (cases "k \<in> range (hash_encode sample_lib)")
    case True
    then obtain h where "k = hash_encode sample_lib h" by blast
    then show ?thesis using pool [of h] hash_encode_inj [OF sample_codec_ok, of h 5] by (simp only: domIff enc) blast
  next
    case False
    then show ?thesis using doms(1) unfolding enc by blast
  qed
  then show "dom (tb_mempool t) = {sample_encode 5}" by blast
  show "tb_tx t = Map.empty"
  proof
    fix k
    show "tb_tx t k = None"
    proof (cases "k \<in> range (hash_encode sample_lib)")
      case True
      then show ?thesis using tx by (auto simp del: not_None_eq)
    next
      case False
      then show ?thesis using doms(2) by blast
    qed
  qed
qed

text \<open>
  C4: A restart keeps the outputs and the transactions. When the writer has caught up with a run,
  having lost nothing and with no row refused, and no output waits in memory, then a service that
  starts with the rows of the tables has the same unspent outputs, the same mempool and
  the same transactions at the same heights as the one that wrote them.
\<close>

theorem restart_restores_outputs_and_txs:
  assumes L: "writes_txs L" and db: "get_network_settings cf = Inr ns" "ns_startup_load_from_database ns"
    and server: "utxo_server_ok W outputs" "pool_server_ok W pool_of"
    and tables: "rows_ok L rows" "sr_utxo srows = Some rows" "outputs w0 = table_of rows" "pool_rows_ok L (pool_of w0) srows"
    and start: "run_start L E F parse cfg logger pool conns ta_conns file srows db0 disk = Inr (app, cf, m, ips)"
    and run: "service_run L E F W connect cf ips (service_init app m w0) acts s"
    and blocks: "list_all (\<lambda>(b, _). regular_block b) (sr_blocks srows)" "list_all regular_block (blocks_taken acts)"
    and quiet: "sc_queue s = []" "sc_lost s = []" "utxo_entries (ta_utxo (ta (lg_sys (mg_logic (sc_manager s))))) = []"
    and accepted: "fst (pool_run L (sc_ops s) (pool_of w0))"
    and tables': "rows_ok L rows'" "sr_utxo srows' = Some rows'" "outputs (sc_db s) = table_of rows'"
      "pool_rows_ok L (pool_of (sc_db s)) srows'"
    and again: "run_start L E' F' parse cfg' logger pool conns ta_conns file' srows' db' disk' = Inr (app', cf, m', ips')"
  shows "let before = ta (lg_sys (mg_logic (sc_manager s))); after = ta (lg_sys (mg_logic m')) in
     (\<forall>p. hm_get (utxo (ta_utxo after)) p = hm_get (utxo (ta_utxo before)) p) \<and>
     (\<forall>h. hm_contains (mempool (ta_txdb after)) h = hm_contains (mempool (ta_txdb before)) h) \<and>
     (ns_save_txs ns \<longrightarrow> (\<forall>h. hm_get (txs (ta_txdb after)) h = hm_get (txs (ta_txdb before)) h))"
proof -
  let ?before = "ta (lg_sys (mg_logic (sc_manager s)))" and ?after = "ta (lg_sys (mg_logic m'))"
  have codec: "hash_codec_ok L" using L by (simp add: writes_txs_def)
  obtain a where a: "?after = read_tables L (sr_mempool srows') (sr_txs srows') (sr_utxo srows') (sr_collections srows') a"
    "ta_utxo a = utxo_new" "ta_txdb a = txdb_new (ns_save_txs ns)" "ta_save_txs a = ns_save_txs ns"
    by (rule start_analyser [OF again db])
  note out = run_outputs_lag [OF codec server(1) tables(1,2,3) start run quiet(2)]
  have "utxo_table_run L (utxo_pending (ta_utxo ?before)) t = t" for t
    using quiet(3) out(3) by (simp add: utxo_pending_def hm_values_def)
  then have before: "table_of rows' = utxo_image L (utxo (ta_utxo ?before))"
    using out(1) quiet(1) tables'(3) by simp
  have "ta_utxo ?after = load_utxo L (Some rows') utxo_new" by (simp add: a read_tables_def Let_def tables'(2))
  then have "map_option (row_of L p) (hm_get (utxo (ta_utxo ?after)) p) = map_option (row_of L p) (hm_get (utxo (ta_utxo ?before)) p)"
    for p using load_utxo_get [OF codec tables'(1), of p] utxo_image_lookup [OF codec out(2), of p]
    by (simp add: load_utxo_def before)
  then have outputs: "hm_get (utxo (ta_utxo ?after)) p = hm_get (utxo (ta_utxo ?before)) p" for p
    by (simp only: row_of_inj)
  have image: "pool_image L (pool_of (sc_db s)) (ta_txdb ?after)" "pool_image L (pool_of (sc_db s)) (ta_txdb ?before)"
    using run_pool_image(2) [OF L server(2) tables(4) blocks(1) start run blocks(2) quiet(2) accepted] quiet(1)
      read_pool [OF codec tables'(4) a(3,4)] by (simp_all add: a(1) pool_synced_def Let_def)
  have save: "save_txs (ta_txdb ?after) = ns_save_txs ns" "save_txs (ta_txdb ?before) = ns_save_txs ns"
    by (simp add: a read_tables_def Let_def load_frame txdb_new_def) (rule run_saving [OF start db run])
  note same = pool_image_same [OF codec image trans [OF save(1) save(2) [symmetric]], unfolded save(1)]
  show ?thesis unfolding Let_def using outputs same by blast
qed

text \<open>After the restart the service knows the transaction that was broadcast before.\<close>

theorem restart_restores_outputs_and_txs_witness:
  "\<exists>app' m'. run_start sample_lib log_env sample_file Some (Inr sample_config) (Inr ()) (Inr ()) (True, True, True, True)
       (True, True, True, True) None (sample_rows\<lparr>sr_mempool := Some [sample_encode 5]\<rparr>) [] () =
       (Inr (app', sample_config, m', [''ip'']) :: string + app_state \<times> config \<times> (unit, sql_stmt list, nat) manager \<times> string list) \<and>
     hm_contains (mempool (ta_txdb (ta (lg_sys (mg_logic m'))))) 5"
proof -
  obtain app m s0 where run: "sample_run = Inr (app, sample_config, m, [''ip''])"
    and s0: "sample_runs_on tables_env (service_init app m no_rows) sample_first_acts s0" "sc_lost s0 = []" "sc_life s0 = Serving"
      "fst (pool_run sample_lib (sc_ops s0) (snd no_rows))" "ta_utxo (ta (lg_sys (mg_logic (sc_manager s0)))) = utxo_new"
      "ta_txdb (ta (lg_sys (mg_logic (sc_manager s0)))) = (txdb_new True)\<lparr>mempool := [(5, 5)]\<rparr>"
    by (rule sample_pool_run)
  obtain n s where late: "sample_runs_on tables_env s0 (replicate n (Write 0)) s" "sc_queue s = []" "sc_lost s = sc_lost s0"
    "sc_manager s = sc_manager s0" by (rule writer_catches_up [of s0]) (simp_all add: s0)
  have runs: "sample_runs_on tables_env (service_init app m no_rows) (sample_first_acts @ replicate n (Write 0)) s"
    by (rule service_run_trans [OF s0(1) late(1)])
  have lost: "sc_lost s = []" using late(3) s0(2) by simp
  have accepted: "fst (pool_run sample_lib (sc_ops s) (snd no_rows))" using s0(4) late(4) by (simp add: sc_ops_def)
  have regular: "list_all regular_block (blocks_taken (sample_first_acts @ replicate n (Write 0)))" by (simp add: sample_no_blocks)
  note start = run [unfolded sample_run_def]
  have "pool_image sample_lib (snd (sc_db s)) ((txdb_new True)\<lparr>mempool := [(5, 5)]\<rparr>)"
    using run_pool_image(2) [OF sample_writes_txs tables_env_ok(2) sample_rows_start(4,5) start runs regular lost accepted]
      late(2,4) s0(6) by simp
  then have pool: "dom (tb_mempool (snd (sc_db s))) = {sample_encode 5}" "tb_tx (snd (sc_db s)) = Map.empty"
    by (rule sample_tables)+
  have outputs: "fst (sc_db s) = table_of []"
    using run_outputs_lag(1) [OF sample_codec_ok tables_env_ok(1) sample_rows_start(1-3) start runs lost] late(2,4) s0(5)
    by (simp add: utxo_new_def utxo_pending_def utxo_image_def table_of_def hm_values_def)
  let ?rows = "sample_rows\<lparr>sr_mempool := Some [sample_encode 5]\<rparr>"
  have rows: "rows_ok sample_lib []" "sr_utxo ?rows = Some []" "pool_rows_ok sample_lib (snd (sc_db s)) ?rows"
    using pool by (auto simp: rows_ok_def sample_rows_def pool_rows_ok_def sample_lib_def)
  obtain app' and m' :: "(unit, sql_stmt list, nat) manager" where again:
    "run_start sample_lib log_env sample_file Some (Inr sample_config) (Inr ()) (Inr ()) (True, True, True, True)
       (True, True, True, True) None ?rows [] () = Inr (app', sample_config, m', [''ip''])"
    by (rule sample_starts)
  have none: "utxo_entries (ta_utxo (ta (lg_sys (mg_logic (sc_manager s))))) = []" using late(4) s0(5) by (simp add: utxo_new_def)
  from restart_restores_outputs_and_txs [OF sample_writes_txs sample_stored(2,3) tables_env_ok sample_rows_start(1-4) start runs
      sample_rows_start(5) regular late(2) lost none accepted rows(1,2) outputs rows(3) again]
  have "hm_contains (mempool (ta_txdb (ta (lg_sys (mg_logic m'))))) 5 =
      hm_contains (mempool (ta_txdb (ta (lg_sys (mg_logic (sc_manager s)))))) 5" by (simp add: Let_def)
  then have "hm_contains (mempool (ta_txdb (ta (lg_sys (mg_logic m'))))) 5"
    using late(4) s0(6) by (simp add: hm_contains_def hm_get_def)
  then show ?thesis using again by blast
qed

section \<open>A transaction that comes twice\<close>

text \<open>
  C34: A transaction that comes twice costs others their rows. The second row for it is refused, since
  its key is there; where the writer has merged the batches, the row of the next transaction, behind
  the refused one, is not written either, whatever the number of retries. So the next
  transaction is known in memory and missing in the table, though no operation was dropped; had
  the writer found the batches one by one, it would be there.
\<close>

theorem repeated_tx_loses_next:
  assumes L: "writes_txs L" and server: "pool_server_ok W tbl" and c: "rx_alive c" "sent c = []"
    and idle: "mempool_entries (ta_txdb a) = []"
    and new: "tb_mempool (tbl db) (hash_encode L (tx_hash L t)) = None" "tb_mempool (tbl db) (hash_encode L (tx_hash L t')) = None"
    and other: "tx_hash L t \<noteq> tx_hash L t'"
  shows "let (a1, c1) = process_standalone_tx L E now t br a c;
       (a2, c2) = process_standalone_tx L E later t br' a1 c1;
       (a3, c3) = process_standalone_tx L E last_time t' br'' a2 c2;
       merged = tbl (perform_db_operations L W (map Some (sent c3)) db);
       single = tbl (perform_db_operations L W (spaced (sent c3)) db) in
     ta_tx_exists a3 (tx_hash L t') \<and> worker_dropped (map Some (sent c3)) = [] \<and>
     tb_mempool merged (hash_encode L (tx_hash L t')) = None \<and>
     tb_mempool single (hash_encode L (tx_hash L t')) \<noteq> None"
proof -
  define r1 where "r1 = process_standalone_tx L E now t br a c"
  define r2 where "r2 = process_standalone_tx L E later t br' (fst r1) (snd r1)"
  define r3 where "r3 = process_standalone_tx L E last_time t' br'' (fst r2) (snd r2)"
  have codec: "hash_codec_ok L" using L by (simp add: writes_txs_def)
  obtain e1 where e1: "me_hash e1 = tx_hash L t" "mempool_entries (ta_txdb (fst r1)) = []" "snd r1 = chan_sends [MempoolBatchWrite [e1]] c"
    by (rule standalone_sends [OF L idle, of t E now br c, folded r1_def]) (simp add: idle)
  obtain e2 where e2: "me_hash e2 = tx_hash L t" "mempool_entries (ta_txdb (fst r2)) = []"
    "snd r2 = chan_sends [MempoolBatchWrite [e2]] (snd r1)"
    by (rule standalone_sends [OF L e1(2), of t E later br' "snd r1", folded r2_def]) (simp add: e1(2))
  obtain e3 where e3: "me_hash e3 = tx_hash L t'" "hm_contains (mempool (ta_txdb (fst r3))) (tx_hash L t')"
    "snd r3 = chan_sends [MempoolBatchWrite [e3]] (snd r2)"
    by (rule standalone_sends [OF L e2(2), of t' E last_time br'' "snd r2", folded r3_def]) (simp add: hm_contains_def hm_get_insert)
  let ?ops = "[MempoolBatchWrite [e1], MempoolBatchWrite [e2], MempoolBatchWrite [e3]]"
  have sent: "sent (snd r3) = ?ops" using c by (simp add: e1(3) e2(3) e3(3))
  have trace: "worker_trace (map Some ?ops) = [MempoolBatchWrite [e1, e2, e3]]" "worker_dropped (map Some ?ops) = []"
    by (simp_all add: coalesce_defs)
  have "worker_trace (spaced ?ops) = ?ops" using worker_trace_spaced [of ?ops "[]"] by simp
  then have "tb_mempool (tbl (perform_db_operations L W (spaced ?ops) db)) (hash_encode L (tx_hash L t')) \<noteq> None"
    using new other by (simp add: writer_on_pool [OF server] e1(1) e2(1) e3(1) hash_encode_inj [OF codec])
  moreover have "tb_mempool (tbl (perform_db_operations L W (map Some ?ops) db)) (hash_encode L (tx_hash L t')) = None"
    unfolding writer_on_pool [OF server] trace
    using new other by (simp add: op_on_pool_def e1(1) e2(1) e3(1) hash_encode_inj [OF codec] Let_def split_def)
  ultimately show ?thesis
    using trace(2) e3(2)
    by (simp add: Let_def split_def r1_def [symmetric] r2_def [symmetric] r3_def [symmetric] sent ta_tx_exists_def txdb_tx_exists_def)
qed

text \<open>The transactions have the hashes 5 and 6, and both tables are empty.\<close>

theorem repeated_tx_loses_next_witness:
  "\<exists>ops. worker_dropped (map Some ops) = [] \<and>
     tb_mempool (snd (perform_db_operations sample_lib tables_env (map Some ops) no_rows)) (sample_encode 6) = None \<and>
     tb_mempool (snd (perform_db_operations sample_lib tables_env (spaced ops) no_rows)) (sample_encode 6) \<noteq> None"
proof -
  let ?t = sample_request_tx and ?t' = "sample_request_tx\<lparr>tx_lock_time := 6\<rparr>"
  have idle: "rx_alive (open_chan :: db_chan)" "sent (open_chan :: db_chan) = []" "mempool_entries (ta_txdb sample_ta) = []"
    by (simp_all add: sample_ta_def txdb_new_def)
  have none: "tb_mempool (snd no_rows) k = None" for k by (simp add: no_rows_def)
  have hashes: "hash_encode sample_lib (tx_hash sample_lib ?t') = sample_encode 6" "tx_hash sample_lib ?t \<noteq> tx_hash sample_lib ?t'"
    by (simp_all add: sample_lib_def sample_request_tx_def)
  from repeated_tx_loses_next [OF sample_writes_txs tables_env_ok(2) idle none none hashes(2), where E = log_env and now = None
      and br = False and later = None and br' = False and last_time = None and br'' = False]
  show ?thesis unfolding Let_def split_def hashes(1) by blast
qed

end
