(* ===== verification/Tx_Guarantees.thy ===== *)
theory Tx_Guarantees
  imports Tx_Sync
begin

text \<open>
  The properties of the transaction analyser: what a block and a single transaction change,
  fees, which collection takes a transaction, and the monitors.
\<close>

section \<open>Blocks\<close>

text \<open>
  C14: Processing a block changes neither the outputs in memory nor any collection, whatever
  its transactions are: the two loops over them are lazy and dropped. It updates the store of
  transactions and flushes what waits.
\<close>

theorem process_block_skips_transactions:
  "let (s', c') = ta_process_block L E b height s c in
     utxo (ta_utxo s') = utxo (ta_utxo s) \<and> ta_collection s' = ta_collection s \<and> ta_db s' = ta_db s \<and>
     txs (ta_txdb s') = txs (txdb_process_block L b height (ta_txdb s)) \<and>
     c' = chan_sends (flush_ops (s\<lparr>ta_txdb := txdb_process_block L b height (ta_txdb s)\<rparr>)) c"
  by (simp add: ta_process_block_eq ta_flush_database_cache_eq)

text \<open>
  What a block does to the store of transactions, at a height that is not negative: each
  of its transactions leaves the mempool, those that were in it wait to be deleted from the
  table, and when transactions are saved each is known at the height of the block.
\<close>

lemma process_block_updates_txdb:
  assumes h: "0 \<le> sint height" and small: "length (blk_txns b) \<le> 2 ^ 32" and save: "save_txs d"
  shows "let d' = txdb_process_block L b height d; hashes = tx_hash L ` set (blk_txns b) in
     (\<forall>k. hm_get (mempool d') k = (if k \<in> hashes then None else hm_get (mempool d) k)) \<and>
     (\<forall>k. hm_get (txs d') k = (if k \<in> hashes then Some height else hm_get (txs d) k)) \<and>
     set (hashes_to_delete d') = set (hashes_to_delete d) \<union> {k \<in> hashes. hm_contains (mempool d) k}"
proof -
  have its: "snd ` set (enumerate 0 (blk_txns b)) = set (blk_txns b)"
    by (metis map_snd_enumerate set_map)
  have idx: "list_all (\<lambda>(i, t). i < 2 ^ 32) (enumerate 0 (blk_txns b))"
    using small by (force simp: list_all_iff in_set_enumerate_eq)
  show ?thesis
    using h txdb_process_txs [OF save idx, of L "unat height" height]
    by (simp add: Let_def txdb_process_block_def usize_of_i32_def u32_of_i32_def txdb_process_mempool
        txdb_process_deletes its)
qed

section \<open>Single transactions\<close>

text \<open>
  C24: A single transaction adds exactly its outputs that can be spent, at the height that
  stands for no block, under its hash and their index; every other outpoint is as before,
  those it spends among them.
\<close>

theorem standalone_tx_outputs:
  "let s' = fst (process_standalone_tx L E now t br s c) in
     hm_get (utxo (ta_utxo s')) p =
       (case tx_output_at L t p of
          Some vout \<Rightarrow> Some \<lparr>u_satoshis = out_satoshis vout, u_height = NOT_IN_BLOCK,
            u_pubkeyhash = script_to_pubkeyhash L (lock_script vout)\<rparr>
        | None \<Rightarrow> hm_get (utxo (ta_utxo s)) p)"
  by (simp add: standalone_fields process_tx_outputs_get output_entry_def split: option.split)

text \<open>
  Where the transaction can be serialised, it is in the mempool afterwards and exactly one
  mempool row for it is sent, after those that waited.
\<close>

lemma standalone_tx_mempool:
  assumes "tx_write L t = Some bytes" and "rx_alive c"
  shows "let (s', c') = process_standalone_tx L E now t br s c in
     ta_tx_exists s' (tx_hash L t) \<and> mempool_entries (ta_txdb s') = [] \<and>
     (\<exists>row. sent c' = sent c @ [MempoolBatchWrite (mempool_entries (ta_txdb s) @ [row])] \<and>
        me_hash row = tx_hash L t \<and> me_fee row = calc_fee t s \<and> decode_hexstr (me_tx row) = Ret (Inr bytes))"
proof -
  let ?r = "process_standalone_tx L E now t br s c"
  have "ta_tx_exists (fst ?r) (tx_hash L t)" "mempool_entries (ta_txdb (fst ?r)) = []"
    using assms by (simp_all add: ta_tx_exists_def txdb_tx_exists_def standalone_fields add_to_mempool_def Let_def)
  moreover have "decode_hexstr (hexslice_fmt bytes) = Ret (Inr bytes)"
    by (simp add: decode_hexstr_def decode_pairs_hexslice)
  ultimately show ?thesis
    using assms by (auto simp: split_def standalone_fields add_to_mempool_def Let_def)
qed

section \<open>Fees\<close>

lemma sum_inputs_all:
  assumes "list_all2 (\<lambda>vin e. hm_get (utxo u) (prev_output vin) = Some e) vins es"
  shows "sum_inputs u vins a = Some (a + of_int (sum_list (map (\<lambda>e. sint (u_satoshis e)) es)))"
  using assms
proof (induction vins es arbitrary: a rule: list_all2_induct)
  case Nil
  then show ?case by simp
next
  case (Cons vin vins e es)
  then show ?case by (simp add: get_satoshis_def algebra_simps)
qed

lemma sum_inputs_missing:
  "(\<exists>vin \<in> set vins. hm_get (utxo u) (prev_output vin) = None) \<Longrightarrow> sum_inputs u vins a = None"
  by (induction vins arbitrary: a) (auto simp: get_satoshis_def split: option.split)

lemma calc_fee_paid:
  assumes ins: "list_all2 (\<lambda>vin e. hm_get (utxo (ta_utxo s)) (prev_output vin) = Some e) (tx_inputs t) es"
    and paid: "paid = sum_list (map (\<lambda>e. sint (u_satoshis e)) es)"
    and outs: "outs = sum_list (map (\<lambda>v. sint (out_satoshis v)) (tx_outputs t))"
    and range: "- (2 ^ 63) \<le> paid - outs" "paid - outs < 2 ^ 63"
  shows "sint (calc_fee t s) = max 0 (paid - outs)"
proof -
  have "sum_i64 (map out_satoshis (tx_outputs t)) = of_int outs"
    by (simp add: sum_i64_def foldl_word_sum outs comp_def)
  then have "calc_fee t s = max_i64 0 (of_int (paid - outs))"
    using sum_inputs_all [OF ins, of 0] by (simp add: calc_fee_def Let_def paid)
  then show ?thesis using sint_of_int_small [OF range] by (simp add: max_i64_sint)
qed

text \<open>
  C25: A fee is never negative; it is 0 where an input is not among the outputs in memory; and where
  every input is and the difference fits 64 bits, it is what the inputs hold less what the
  outputs pay, and 0 if that is negative, even where a sum on the way wraps around.
\<close>

theorem calc_fee_exact:
  "0 \<le> sint (calc_fee t s) \<and>
   ((\<exists>vin \<in> set (tx_inputs t). hm_get (utxo (ta_utxo s)) (prev_output vin) = None) \<longrightarrow> calc_fee t s = 0) \<and>
   (\<forall>es. list_all2 (\<lambda>vin e. hm_get (utxo (ta_utxo s)) (prev_output vin) = Some e) (tx_inputs t) es \<longrightarrow>
      (let difference = sum_list (map (\<lambda>e. sint (u_satoshis e)) es) - sum_list (map (\<lambda>v. sint (out_satoshis v)) (tx_outputs t))
       in - (2 ^ 63) \<le> difference \<and> difference < 2 ^ 63 \<longrightarrow> sint (calc_fee t s) = max 0 difference))"
proof (intro conjI allI impI)
  show "0 \<le> sint (calc_fee t s)" by (simp add: calc_fee_def Let_def max_i64_sint split: option.split)
  show "calc_fee t s = 0" if "\<exists>vin \<in> set (tx_inputs t). hm_get (utxo (ta_utxo s)) (prev_output vin) = None"
    using sum_inputs_missing [OF that, of 0] by (simp add: calc_fee_def)
qed (simp add: Let_def calc_fee_paid)

definition sample_ta_funded :: "sql_stmt list tx_analyser" where
  "sample_ta_funded = sample_ta\<lparr>ta_utxo := utxo_add sample_lib 7 0 100 3 ''unknown'' utxo_new\<rparr>"

theorem calc_fee_exact_witness: "sint (calc_fee sample_tx sample_ta_funded) = 60"
proof -
  have "list_all2 (\<lambda>vin e. hm_get (utxo (ta_utxo sample_ta_funded)) (prev_output vin) = Some e) (tx_inputs sample_tx)
      [\<lparr>u_satoshis = 100, u_height = 3, u_pubkeyhash = ''unknown''\<rparr>]"
    by (simp add: sample_ta_funded_def sample_tx_def utxo_add_def u32_of_usize_def utxo_new_def hm_get_def Let_def)
  moreover note calc_fee_exact [of sample_tx sample_ta_funded]
  ultimately have "let difference = sum_list (map (\<lambda>e. sint (u_satoshis e)) [\<lparr>u_satoshis = 100, u_height = 3, u_pubkeyhash = ''unknown''\<rparr>]) -
      sum_list (map (\<lambda>v. sint (out_satoshis v)) (tx_outputs sample_tx))
    in - (2 ^ 63) \<le> difference \<and> difference < 2 ^ 63 \<longrightarrow> sint (calc_fee sample_tx sample_ta_funded) = max 0 difference"
    by blast
  then show ?thesis by (simp add: sample_tx_def)
qed

section \<open>Scripts\<close>

text \<open>
  The hash of a public key is read out of a pay-to-public-key-hash script, of exactly that
  form and no other: with the hexadecimal text of the 20 bytes for such a script, and with
  \<open>unknown\<close> for any other.
\<close>

lemma script_to_pubkeyhash_p2pkh:
  assumes hex: "hex_crate_ok L"
  shows "(\<forall>h. length h = 20 \<longrightarrow>
       script_to_pubkeyhash L ([0x76, 0xa9, 0x14] @ h @ [0x88, 0xac]) = hexslice_fmt h) \<and>
     (script_to_pubkeyhash L script \<noteq> ''unknown'' \<longrightarrow>
       (\<exists>h. length h = 20 \<and> script = [0x76, 0xa9, 0x14] @ h @ [0x88, 0xac]))"
proof -
  have ends: "hexslice_fmt [0x76, 0xa9, 0x14] = ''76a914''" "hexslice_fmt [0x88, 0xac] = ''88ac''"
    by (simp_all add: fmt_02x_def hex_digit_def)
  have parts: "str_slice (hexslice_fmt s) 0 6 = ''76a914'' \<longleftrightarrow> take 3 s = [0x76, 0xa9, 0x14]"
    "drop 46 (hexslice_fmt s) = ''88ac'' \<longleftrightarrow> drop 23 s = [0x88, 0xac]"
    "str_slice (hexslice_fmt s) 6 46 = hexslice_fmt (take 20 (drop 3 s))" for s
    unfolding ends [symmetric] str_slice_def
    using hexslice_fmt_take [of 3 s] hexslice_fmt_drop [of 23 s] hexslice_fmt_drop [of 3 s]
      hexslice_fmt_take [of 20 "drop 3 s"]
    by (simp_all add: hexslice_fmt_inj del: hexslice_fmt.simps)
  have def_eq: "script_to_pubkeyhash L s =
      (if length s = 25 \<and> take 3 s = [0x76, 0xa9, 0x14] \<and> drop 23 s = [0x88, 0xac]
       then hexslice_fmt (take 20 (drop 3 s)) else ''unknown'')" for s
    using hex by (simp add: script_to_pubkeyhash_def hex_crate_ok_def Let_def parts)
  have "script = take 3 script @ take 20 (drop 3 script) @ drop 23 script"
    using append_take_drop_id [of 3 script] append_take_drop_id [of 20 "drop 3 script"] by simp
  then show ?thesis by (auto simp: def_eq intro!: exI [of _ "take 20 (drop 3 script)"])
qed

end
