(* ===== verification/Schema.thy ===== *)
theory Schema
  imports Prelude
begin

text \<open>
  The tables of the database: the \<open>create_table\<close> methods of the components, called by their
  \<open>setup\<close>, and the migration in \<open>rust/src/uaas/schema.rs\<close>. A statement that defines data is a
  value of \<open>ddl\<close>, one constructor for each form the code uses; the server is a record of
  the four calls, each of which may fail, over a state of type \<open>'db\<close>. A query for a count
  returns an error (\<open>None\<close>), no row, or the count.
\<close>

section \<open>Statements and the server\<close>

datatype ddl =
    CreateTable string "(string \<times> string) list" "string list"
  | CreateIndex bool string string "string list"
  | DropIndexIfExists string string
  | AddPrimaryKey string "string list"
  | DeleteLaterMempoolRows
  | DisableSafeUpdates

record 'db ddl_env =
  list_tables :: "'db \<Rightarrow> string list option"
  count_tables :: "string \<Rightarrow> 'db \<Rightarrow> int option option"
  count_mempool_pk :: "'db \<Rightarrow> int option option"
  exec_ddl :: "ddl \<Rightarrow> 'db \<Rightarrow> (unit + unit) \<times> 'db"

text \<open>\<open>if let Err(err) = conn.query_drop(..)\<close> with a log entry only, and \<open>.ok().flatten().unwrap_or(0) > 0\<close>.\<close>

definition run_ddl :: "'db ddl_env \<Rightarrow> ddl \<Rightarrow> 'db \<Rightarrow> 'db" where
  "run_ddl D stmt db = snd (exec_ddl D stmt db)"

definition positive_count :: "int option option \<Rightarrow> bool" where
  "positive_count x = (case x of Some (Some n) \<Rightarrow> n > 0 | _ \<Rightarrow> False)"

definition has_table :: "string \<Rightarrow> string list \<Rightarrow> bool" where
  "has_table name tables = list_ex (\<lambda>x. x = name) tables"

section \<open>Creating the tables\<close>

text \<open>The columns, each with its type.\<close>

definition utxo_columns :: "(string \<times> string) list" where
  "utxo_columns =
     [(''hash'', ''varchar(64) not null''), (''pos'', ''int unsigned not null''),
      (''satoshis'', ''bigint unsigned not null''), (''height'', ''int not null''),
      (''pubkeyhash'', ''varchar(64)'')]"

definition tx_columns :: "(string \<times> string) list" where
  "tx_columns =
     [(''hash'', ''varchar(64) not null''), (''height'', ''int unsigned not null''),
      (''blockindex'', ''int unsigned not null''), (''txsize'', ''int unsigned not null''),
      (''satoshis'', ''bigint unsigned not null'')]"

definition mempool_columns :: "(string \<times> string) list" where
  "mempool_columns =
     [(''hash'', ''varchar(64) not null''), (''locktime'', ''int unsigned not null''),
      (''fee'', ''bigint unsigned not null''), (''time'', ''int unsigned not null''),
      (''tx'', ''longtext not null'')]"

definition collection_columns :: "(string \<times> string) list" where
  "collection_columns =
     [(''hash'', ''varchar(64)''), (''name'', ''varchar(64)''), (''tx'', ''longtext'')]"

definition orphans_columns :: "(string \<times> string) list" where
  "orphans_columns =
     [(''height'', ''int unsigned not null''), (''hash'', ''varchar(64) not null''),
      (''version'', ''int unsigned not null''), (''prev_hash'', ''varchar(64) not null''),
      (''merkle_root'', ''varchar(64) not null''), (''timestamp'', ''int unsigned not null''),
      (''bits'', ''int unsigned not null''), (''nonce'', ''int unsigned not null''),
      (''created_at'', ''TIMESTAMP NOT NULL DEFAULT CURRENT_TIMESTAMP'')]"

definition blocks_columns :: "(string \<times> string) list" where
  "blocks_columns =
     [(''height'', ''int unsigned not null''), (''hash'', ''varchar(64) not null''),
      (''version'', ''int unsigned not null''), (''prev_hash'', ''varchar(64) not null''),
      (''merkle_root'', ''varchar(64) not null''), (''timestamp'', ''int unsigned not null''),
      (''bits'', ''int unsigned not null''), (''nonce'', ''int unsigned not null''),
      (''offset'', ''bigint unsigned not null''), (''blocksize'', ''int unsigned not null''),
      (''numtxs'', ''int unsigned not null'')]"

text \<open>A statement with an early return where it fails.\<close>

definition ddl_then :: "'db ddl_env \<Rightarrow> ddl \<Rightarrow> ('db \<Rightarrow> 'db) \<Rightarrow> 'db \<Rightarrow> 'db" where
  "ddl_then D stmt f db = (case exec_ddl D stmt db of (Inl _, db) \<Rightarrow> db | (Inr _, db) \<Rightarrow> f db)"

definition utxo_create_table :: "'db ddl_env \<Rightarrow> 'db \<Rightarrow> 'db" where
  "utxo_create_table D db =
     ddl_then D (CreateTable ''utxo'' utxo_columns [''hash'', ''pos''])
       (\<lambda>db. let db = run_ddl D (CreateIndex True ''speed_key'' ''utxo'' [''pubkeyhash'']) db
          in run_ddl D (CreateIndex True ''idx_utxo_height'' ''utxo'' [''height'']) db) db"

definition create_tx_table :: "'db ddl_env \<Rightarrow> 'db \<Rightarrow> 'db" where
  "create_tx_table D db =
     ddl_then D (CreateTable ''tx'' tx_columns [''hash''])
       (\<lambda>db. run_ddl D (CreateIndex True ''idx_tx_height_blockindex'' ''tx'' [''height'', ''blockindex'']) db) db"

definition create_mempool_table :: "'db ddl_env \<Rightarrow> 'db \<Rightarrow> 'db" where
  "create_mempool_table D db =
     run_ddl D (CreateTable ''mempool'' mempool_columns [''hash'']) db"

definition collection_create_table :: "'db ddl_env \<Rightarrow> 'db \<Rightarrow> 'db" where
  "collection_create_table D db =
     ddl_then D (CreateTable ''collection'' collection_columns [''hash'', ''name''])
       (\<lambda>db. run_ddl D (CreateIndex False ''collect_key'' ''collection'' [''hash'', ''name'']) db) db"

definition ta_create_tables :: "'db ddl_env \<Rightarrow> bool \<Rightarrow> 'db \<Rightarrow> 'db" where
  "ta_create_tables D save_txs db =
     (case list_tables D db of
        None \<Rightarrow> db
      | Some tables \<Rightarrow>
          let db = (if save_txs \<and> \<not> has_table ''tx'' tables then create_tx_table D db else db);
              db = (if \<not> has_table ''mempool'' tables then create_mempool_table D db else db);
              db = (if \<not> has_table ''utxo'' tables then utxo_create_table D db else db)
          in if \<not> has_table ''collection'' tables then collection_create_table D db else db)"

text \<open>
  The block manager: where the table \<open>blocks\<close> cannot be created, the early return leaves out
  the rest, which is a definition of its own here.
\<close>

definition bm_create_orphans :: "'db ddl_env \<Rightarrow> string list \<Rightarrow> 'db \<Rightarrow> 'db" where
  "bm_create_orphans D tables db =
     (let db = (if \<not> has_table ''orphans'' tables
                then run_ddl D (CreateTable ''orphans'' orphans_columns []) db
                else db)
      in run_ddl D DisableSafeUpdates db)"

definition bm_create_tables :: "'db ddl_env \<Rightarrow> 'db \<Rightarrow> 'db" where
  "bm_create_tables D db =
     (case list_tables D db of
        None \<Rightarrow> db
      | Some tables \<Rightarrow>
          if \<not> has_table ''blocks'' tables
          then ddl_then D (CreateTable ''blocks'' blocks_columns [''hash''])
                 (\<lambda>db. bm_create_orphans D tables (run_ddl D (CreateIndex True ''idx_blocks_height'' ''blocks'' [''height'']) db)) db
          else bm_create_orphans D tables db)"

definition am_create_table :: "'db ddl_env \<Rightarrow> 'db \<Rightarrow> 'db" where
  "am_create_table D db =
     (case list_tables D db of
        None \<Rightarrow> db
      | Some tables \<Rightarrow>
          if \<not> has_table ''addr'' tables
          then run_ddl D (CreateTable ''addr'' [(''ip'', ''text''), (''services'', ''int''), (''port'', ''int'')] []) db
          else db)"

definition connection_create_table :: "'db ddl_env \<Rightarrow> 'db \<Rightarrow> 'db" where
  "connection_create_table D db =
     (case list_tables D db of
        None \<Rightarrow> db
      | Some tables \<Rightarrow>
          if \<not> has_table ''connect'' tables
          then run_ddl D (CreateTable ''connect''
                 [(''date'', ''VARCHAR(64)''), (''ip'', ''VARCHAR(64)''), (''event'', ''VARCHAR(64)'')] []) db
          else db)"

section \<open>The migration\<close>

definition table_exists :: "'db ddl_env \<Rightarrow> string \<Rightarrow> 'db \<Rightarrow> bool" where
  "table_exists D table db = positive_count (count_tables D table db)"

definition ensure_index :: "'db ddl_env \<Rightarrow> string \<Rightarrow> ddl \<Rightarrow> 'db \<Rightarrow> 'db" where
  "ensure_index D table stmt db = (if \<not> table_exists D table db then db else run_ddl D stmt db)"

definition ensure_mempool_primary_key :: "'db ddl_env \<Rightarrow> 'db \<Rightarrow> 'db" where
  "ensure_mempool_primary_key D db =
     (if \<not> table_exists D ''mempool'' db then db
      else
        let has_pk = positive_count (count_mempool_pk D db)
        in if has_pk then db
           else
             let db = run_ddl D DeleteLaterMempoolRows db;
                 db = run_ddl D (DropIndexIfExists ''idx_txkey'' ''mempool'') db
             in run_ddl D (AddPrimaryKey ''mempool'' [''hash'']) db)"

definition ensure_performance_indexes :: "'db ddl_env \<Rightarrow> 'db \<Rightarrow> 'db" where
  "ensure_performance_indexes D db =
     (let db = ensure_index D ''blocks'' (CreateIndex True ''idx_blocks_height'' ''blocks'' [''height'']) db;
          db = ensure_index D ''tx'' (CreateIndex True ''idx_tx_height_blockindex'' ''tx'' [''height'', ''blockindex'']) db;
          db = ensure_index D ''utxo'' (CreateIndex True ''idx_utxo_height'' ''utxo'' [''height'']) db
      in ensure_mempool_primary_key D db)"

text \<open>The part of \<open>Logic::setup\<close> that concerns the schema, in the order of the components.\<close>

definition setup_schema :: "'db ddl_env \<Rightarrow> bool \<Rightarrow> 'db \<Rightarrow> 'db" where
  "setup_schema D save_txs db =
     (let db = am_create_table D db;
          db = ta_create_tables D save_txs db;
          db = bm_create_tables D db;
          db = ensure_performance_indexes D db
      in connection_create_table D db)"

section \<open>What the server documents\<close>

text \<open>
  The catalog of a server: the tables of the service's own schema and of all others, the
  indexes by table, the tables with a primary key, and the rows of the mempool table, each
  its hash and time. The list of tables that the code asks for is that of all schemas.
\<close>

record catalog =
  cat_tables :: "string list"
  cat_other :: "string list"
  cat_indexes :: "(string \<times> string) list"
  cat_pks :: "string list"
  cat_mempool :: "(string \<times> int) list"

definition earliest :: "(string \<times> int) list \<Rightarrow> (string \<times> int) list" where
  "earliest rows = filter (\<lambda>(h, t). list_all (\<lambda>(h', t'). h' = h \<longrightarrow> t \<le> t') rows) rows"

fun catalog_exec :: "ddl \<Rightarrow> catalog \<Rightarrow> (unit + unit) \<times> catalog" where
  "catalog_exec (CreateTable name cols pk) c =
     (if name \<in> set (cat_tables c) then (Inl (), c)
      else (Inr (), c\<lparr>cat_tables := cat_tables c @ [name],
                     cat_pks := if pk = [] then cat_pks c else cat_pks c @ [name],
                     cat_mempool := if name = ''mempool'' then [] else cat_mempool c\<rparr>))"
| "catalog_exec (CreateIndex if_not_exists name table cols) c =
     (if table \<notin> set (cat_tables c) then (Inl (), c)
      else if (table, name) \<in> set (cat_indexes c) then (if if_not_exists then Inr () else Inl (), c)
      else (Inr (), c\<lparr>cat_indexes := cat_indexes c @ [(table, name)]\<rparr>))"
| "catalog_exec (DropIndexIfExists name table) c =
     (if table \<notin> set (cat_tables c) then (Inl (), c)
      else (Inr (), c\<lparr>cat_indexes := filter (\<lambda>i. i \<noteq> (table, name)) (cat_indexes c)\<rparr>))"
| "catalog_exec (AddPrimaryKey table cols) c =
     (if table \<notin> set (cat_tables c) \<or> table \<in> set (cat_pks c) \<or>
         (table = ''mempool'' \<and> \<not> distinct (map fst (cat_mempool c))) then (Inl (), c)
      else (Inr (), c\<lparr>cat_pks := cat_pks c @ [table]\<rparr>))"
| "catalog_exec DeleteLaterMempoolRows c =
     (if ''mempool'' \<notin> set (cat_tables c) then (Inl (), c)
      else (Inr (), c\<lparr>cat_mempool := earliest (cat_mempool c)\<rparr>))"
| "catalog_exec DisableSafeUpdates c = (Inr (), c)"

definition catalog_env :: "catalog ddl_env" where
  "catalog_env = \<lparr>list_tables = (\<lambda>c. Some (cat_other c @ cat_tables c)),
     count_tables = (\<lambda>t c. Some (Some (if t \<in> set (cat_tables c) then 1 else 0))),
     count_mempool_pk = (\<lambda>c. Some (Some (if ''mempool'' \<in> set (cat_pks c) then 1 else 0))),
     exec_ddl = catalog_exec\<rparr>"

text \<open>A server with a catalog \<open>cat\<close>: it answers and changes like the catalog does.\<close>

definition ddl_server_ok :: "'db ddl_env \<Rightarrow> ('db \<Rightarrow> catalog) \<Rightarrow> bool" where
  "ddl_server_ok D cat \<longleftrightarrow>
     (\<forall>db. \<exists>ts. list_tables D db = Some ts \<and> set ts = set (cat_other (cat db)) \<union> set (cat_tables (cat db))) \<and>
     (\<forall>t db. positive_count (count_tables D t db) \<longleftrightarrow> t \<in> set (cat_tables (cat db))) \<and>
     (\<forall>db. positive_count (count_mempool_pk D db) \<longleftrightarrow> ''mempool'' \<in> set (cat_pks (cat db))) \<and>
     (\<forall>stmt db. map_prod id cat (exec_ddl D stmt db) = catalog_exec stmt (cat db))"

lemma catalog_env_ok [simp]: "ddl_server_ok catalog_env (\<lambda>c. c)" "ddl_server_ok catalog_env id"
  by (simp_all add: ddl_server_ok_def catalog_env_def positive_count_def map_prod_def split_def)

section \<open>The calls act like the catalog\<close>

lemma exec_ddl_catalog:
  assumes "ddl_server_ok D cat"
  shows "fst (exec_ddl D stmt db) = fst (catalog_exec stmt (cat db))"
    and "cat (snd (exec_ddl D stmt db)) = snd (catalog_exec stmt (cat db))"
  using assms unfolding ddl_server_ok_def by (metis fst_map_prod id_apply, metis snd_map_prod)

lemma catalog_env_sel [simp]:
  "exec_ddl catalog_env = catalog_exec"
  "list_tables catalog_env c = Some (cat_other c @ cat_tables c)"
  "positive_count (count_tables catalog_env t c) \<longleftrightarrow> t \<in> set (cat_tables c)"
  "positive_count (count_mempool_pk catalog_env c) \<longleftrightarrow> ''mempool'' \<in> set (cat_pks c)"
  by (simp_all add: catalog_env_def positive_count_def)

lemma ddl_then_catalog:
  assumes "ddl_server_ok D cat" and "\<And>db. cat (f db) = f' (cat db)"
  shows "cat (ddl_then D stmt f db) = ddl_then catalog_env stmt f' (cat db)"
  using exec_ddl_catalog [OF assms(1), of stmt db] assms(2)
  by (cases "exec_ddl D stmt db"; cases "catalog_exec stmt (cat db)") (auto simp: ddl_then_def split: sum.split)

lemma run_ddl_catalog: "ddl_server_ok D cat \<Longrightarrow> cat (run_ddl D stmt db) = run_ddl catalog_env stmt (cat db)"
  by (simp add: run_ddl_def exec_ddl_catalog)

lemma has_table_catalog:
  assumes "ddl_server_ok D cat" and "list_tables D db = Some ts"
  shows "has_table t ts \<longleftrightarrow> has_table t (cat_other (cat db) @ cat_tables (cat db))"
proof -
  have "set ts = set (cat_other (cat db)) \<union> set (cat_tables (cat db))"
    using assms by (auto simp: ddl_server_ok_def) (metis UnE option.inject, metis UnI1 option.inject, metis UnI2 option.inject)
  then show ?thesis by (auto simp: has_table_def list_ex_iff)
qed

lemma list_tables_Some: "ddl_server_ok D cat \<Longrightarrow> \<exists>ts. list_tables D db = Some ts"
  by (auto simp: ddl_server_ok_def)

lemma create_catalog:
  assumes D: "ddl_server_ok D cat"
  shows "cat (utxo_create_table D db) = utxo_create_table catalog_env (cat db)"
    and "cat (create_tx_table D db) = create_tx_table catalog_env (cat db)"
    and "cat (create_mempool_table D db) = create_mempool_table catalog_env (cat db)"
    and "cat (collection_create_table D db) = collection_create_table catalog_env (cat db)"
  unfolding utxo_create_table_def create_tx_table_def create_mempool_table_def collection_create_table_def
  by (intro ddl_then_catalog [OF D] run_ddl_catalog [OF D]; simp add: run_ddl_catalog [OF D] Let_def)+

lemma setup_catalog:
  assumes D: "ddl_server_ok D cat"
  shows "cat (ta_create_tables D save_txs db) = ta_create_tables catalog_env save_txs (cat db)"
    and "cat (bm_create_tables D db) = bm_create_tables catalog_env (cat db)"
    and "cat (am_create_table D db) = am_create_table catalog_env (cat db)"
    and "cat (connection_create_table D db) = connection_create_table catalog_env (cat db)"
    and "cat (ensure_performance_indexes D db) = ensure_performance_indexes catalog_env (cat db)"
proof -
  obtain ts where ts: "list_tables D db = Some ts" using list_tables_Some [OF D] by blast
  note simps = ts has_table_catalog [OF D ts] create_catalog [OF D] run_ddl_catalog [OF D] Let_def
  show "cat (ta_create_tables D save_txs db) = ta_create_tables catalog_env save_txs (cat db)"
    by (simp add: ta_create_tables_def simps)
  show "cat (am_create_table D db) = am_create_table catalog_env (cat db)"
    and "cat (connection_create_table D db) = connection_create_table catalog_env (cat db)"
    by (simp_all add: am_create_table_def connection_create_table_def simps)
  have orphans: "cat (bm_create_orphans D ts db') = bm_create_orphans catalog_env ts' (cat db')"
    if "has_table ''orphans'' ts = has_table ''orphans'' ts'" for ts' db'
    using that by (simp add: bm_create_orphans_def run_ddl_catalog [OF D] Let_def)
  have "cat (ddl_then D stmt (\<lambda>db. bm_create_orphans D ts (run_ddl D stmt' db)) db) =
      ddl_then catalog_env stmt (\<lambda>c. bm_create_orphans catalog_env (cat_other (cat db) @ cat_tables (cat db))
        (run_ddl catalog_env stmt' c)) (cat db)" for stmt stmt'
    by (rule ddl_then_catalog [OF D]) (simp add: orphans [OF has_table_catalog [OF D ts]] run_ddl_catalog [OF D])
  then show "cat (bm_create_tables D db) = bm_create_tables catalog_env (cat db)"
    by (simp add: bm_create_tables_def ts has_table_catalog [OF D ts] orphans [OF has_table_catalog [OF D ts]])
  have exists: "table_exists D t db' \<longleftrightarrow> table_exists catalog_env t (cat db')" for t db'
    using D by (simp add: table_exists_def ddl_server_ok_def)
  have pk: "positive_count (count_mempool_pk D db') \<longleftrightarrow> ''mempool'' \<in> set (cat_pks (cat db'))" for db'
    using D by (simp add: ddl_server_ok_def)
  have "cat (ensure_index D t stmt db') = ensure_index catalog_env t stmt (cat db')" for t stmt db'
    by (simp add: ensure_index_def exists run_ddl_catalog [OF D])
  moreover have "cat (ensure_mempool_primary_key D db') = ensure_mempool_primary_key catalog_env (cat db')" for db'
    by (simp add: ensure_mempool_primary_key_def exists pk run_ddl_catalog [OF D] Let_def)
  ultimately show "cat (ensure_performance_indexes D db) = ensure_performance_indexes catalog_env (cat db)"
    by (simp add: ensure_performance_indexes_def Let_def)
qed

lemma setup_schema_catalog:
  "ddl_server_ok D cat \<Longrightarrow> cat (setup_schema D save_txs db) = setup_schema catalog_env save_txs (cat db)"
  by (simp add: setup_schema_def setup_catalog Let_def)

end
