(* ===== verification/Schema_Guarantees.thy ===== *)
theory Schema_Guarantees
  imports Schema
begin

text \<open>
  What the setup of the database leaves: which tables exist, the indexes on heights, and when
  the migration gives the mempool table its primary key.
\<close>

section \<open>One statement\<close>

lemma run_ddl_catalog_env [simp]: "run_ddl catalog_env stmt c = snd (catalog_exec stmt c)"
  by (simp add: run_ddl_def)

lemma catalog_exec_other [simp]: "cat_other (snd (catalog_exec stmt c)) = cat_other c"
  by (cases stmt) simp_all

lemma catalog_exec_tables [simp]:
  "set (cat_tables (snd (catalog_exec stmt c))) =
     set (cat_tables c) \<union> (case stmt of CreateTable name _ _ \<Rightarrow> {name} | _ \<Rightarrow> {})"
  by (cases stmt) auto

text \<open>What concerns the table \<open>mempool\<close>: whether it exists and has a key, and its rows.\<close>

definition mempool_part :: "catalog \<Rightarrow> bool \<times> bool \<times> (string \<times> int) list" where
  "mempool_part c = (''mempool'' \<in> set (cat_tables c), ''mempool'' \<in> set (cat_pks c), cat_mempool c)"

fun about_mempool :: "ddl \<Rightarrow> bool" where
  "about_mempool (CreateTable name _ _) = (name = ''mempool'')"
| "about_mempool (AddPrimaryKey name _) = (name = ''mempool'')"
| "about_mempool DeleteLaterMempoolRows = True"
| "about_mempool _ = False"

lemma catalog_exec_mempool [simp]:
  "\<not> about_mempool stmt \<Longrightarrow> mempool_part (snd (catalog_exec stmt c)) = mempool_part c"
  by (cases stmt) (auto simp: mempool_part_def)

text \<open>A statement and what follows it where it succeeds.\<close>

lemma ddl_then_frame:
  assumes "\<And>c. g (f c) = g c"
  shows "g (ddl_then catalog_env stmt f c) = g (snd (catalog_exec stmt c))"
  using assms by (auto simp: ddl_then_def split: prod.split sum.split)

lemmas ddl_then_frames = ddl_then_frame [where g = cat_other] ddl_then_frame [where g = mempool_part]
  ddl_then_frame [where g = "\<lambda>c. set (cat_tables c)"]

lemma has_table_set: "has_table t ts \<longleftrightarrow> t \<in> set ts"
  by (auto simp: has_table_def list_ex_iff)

section \<open>The tables\<close>

lemma create_tables_env [simp]:
  "set (cat_tables (utxo_create_table catalog_env c)) = insert ''utxo'' (set (cat_tables c))"
  "set (cat_tables (create_tx_table catalog_env c)) = insert ''tx'' (set (cat_tables c))"
  "set (cat_tables (create_mempool_table catalog_env c)) = insert ''mempool'' (set (cat_tables c))"
  "set (cat_tables (collection_create_table catalog_env c)) = insert ''collection'' (set (cat_tables c))"
  by (simp_all add: utxo_create_table_def create_tx_table_def create_mempool_table_def collection_create_table_def
      ddl_then_frames Let_def del: catalog_exec.simps)

lemma create_other_env [simp]:
  "cat_other (utxo_create_table catalog_env c) = cat_other c"
  "cat_other (create_tx_table catalog_env c) = cat_other c"
  "cat_other (create_mempool_table catalog_env c) = cat_other c"
  "cat_other (collection_create_table catalog_env c) = cat_other c"
  by (simp_all add: utxo_create_table_def create_tx_table_def create_mempool_table_def collection_create_table_def
      ddl_then_frames Let_def del: catalog_exec.simps)

lemma create_mempool_env [simp]:
  "mempool_part (utxo_create_table catalog_env c) = mempool_part c"
  "mempool_part (create_tx_table catalog_env c) = mempool_part c"
  "mempool_part (collection_create_table catalog_env c) = mempool_part c"
  by (simp_all add: utxo_create_table_def create_tx_table_def collection_create_table_def
      ddl_then_frames Let_def del: catalog_exec.simps)

lemma setup_steps_other [simp]:
  "cat_other (am_create_table catalog_env c) = cat_other c"
  "cat_other (ta_create_tables catalog_env save c) = cat_other c"
  "cat_other (bm_create_orphans catalog_env ts c) = cat_other c"
  "cat_other (bm_create_tables catalog_env c) = cat_other c"
  "cat_other (ensure_performance_indexes catalog_env c) = cat_other c"
  "cat_other (connection_create_table catalog_env c) = cat_other c"
proof -
  show orphans: "cat_other (bm_create_orphans catalog_env ts c) = cat_other c" for ts c
    by (simp add: bm_create_orphans_def Let_def del: catalog_exec.simps)
  show "cat_other (bm_create_tables catalog_env c) = cat_other c"
    by (simp add: bm_create_tables_def orphans ddl_then_frames del: catalog_exec.simps)
  have "cat_other (ensure_index catalog_env t stmt c) = cat_other c" for t stmt c
    by (simp add: ensure_index_def)
  moreover have "cat_other (ensure_mempool_primary_key catalog_env c) = cat_other c" for c
    by (simp add: ensure_mempool_primary_key_def Let_def del: catalog_exec.simps)
  ultimately show "cat_other (ensure_performance_indexes catalog_env c) = cat_other c"
    by (simp add: ensure_performance_indexes_def Let_def)
qed (simp_all add: am_create_table_def ta_create_tables_def connection_create_table_def Let_def del: catalog_exec.simps)

lemma unless_table:
  "set (cat_tables (if \<not> has_table t ts then x else c)) = (if t \<in> set ts then set (cat_tables c) else set (cat_tables x))"
  "set (cat_tables (if b \<and> \<not> has_table t ts then x else c)) =
     (if b \<and> t \<notin> set ts then set (cat_tables x) else set (cat_tables c))"
  by (simp_all add: has_table_set)

lemma insert_table_iff:
  "x \<in> (if b then S else insert t S) \<longleftrightarrow> x \<in> S \<or> (\<not> b \<and> x = t)"
  "x \<in> (if b then insert t S else S) \<longleftrightarrow> x \<in> S \<or> (b \<and> x = t)"
  by auto

text \<open>The tables a component makes: those that no schema of the server has.\<close>

lemma setup_steps_tables [simp]:
  "set (cat_tables (am_create_table catalog_env c)) = set (cat_tables c) \<union> ({''addr''} - set (cat_other c))"
  "set (cat_tables (ta_create_tables catalog_env save c)) = set (cat_tables c) \<union>
     ({''mempool'', ''utxo'', ''collection''} \<union> (if save then {''tx''} else {}) - set (cat_other c))"
  "set (cat_tables (bm_create_tables catalog_env c)) = set (cat_tables c) \<union> ({''blocks'', ''orphans''} - set (cat_other c))"
  "set (cat_tables (ensure_performance_indexes catalog_env c)) = set (cat_tables c)"
  "set (cat_tables (connection_create_table catalog_env c)) = set (cat_tables c) \<union> ({''connect''} - set (cat_other c))"
proof -
  show "set (cat_tables (ta_create_tables catalog_env save c)) = set (cat_tables c) \<union>
     ({''mempool'', ''utxo'', ''collection''} \<union> (if save then {''tx''} else {}) - set (cat_other c))"
    unfolding ta_create_tables_def catalog_env_sel option.case Let_def unless_table create_tables_env
    by (rule set_eqI, unfold insert_table_iff) (cases save; simp; blast)
  have orphans: "set (cat_tables (bm_create_orphans catalog_env ts c)) =
      set (cat_tables c) \<union> (if ''orphans'' \<in> set ts then {} else {''orphans''})" for ts c
    by (simp add: bm_create_orphans_def has_table_set Let_def del: catalog_exec.simps)
  have blocks: "set (cat_tables (ddl_then catalog_env (CreateTable name cols pk)
      (\<lambda>c. bm_create_orphans catalog_env ts (snd (catalog_exec (CreateIndex b i t cs) c))) c)) =
      insert name (set (cat_tables c)) \<union> (if ''orphans'' \<in> set ts then {} else {''orphans''})"
    if "name \<notin> set (cat_tables c)" for name cols pk ts b i t cs
    using that by (simp add: ddl_then_def orphans del: catalog_exec.simps(2))
  show "set (cat_tables (bm_create_tables catalog_env c)) = set (cat_tables c) \<union> ({''blocks'', ''orphans''} - set (cat_other c))"
    by (auto simp: bm_create_tables_def has_table_set orphans blocks simp del: catalog_exec.simps)
  have "set (cat_tables (ensure_index catalog_env t (CreateIndex b i t' cs) c)) = set (cat_tables c)" for t b i t' cs c
    by (simp add: ensure_index_def del: catalog_exec.simps)
  moreover have "set (cat_tables (ensure_mempool_primary_key catalog_env c)) = set (cat_tables c)" for c
    by (simp add: ensure_mempool_primary_key_def Let_def del: catalog_exec.simps)
  ultimately show "set (cat_tables (ensure_performance_indexes catalog_env c)) = set (cat_tables c)"
    by (simp add: ensure_performance_indexes_def Let_def)
qed (auto simp: am_create_table_def connection_create_table_def has_table_set simp del: catalog_exec.simps)

section \<open>The indexes\<close>

lemma ensure_index_indexes:
  "set (cat_indexes c) \<subseteq> set (cat_indexes (ensure_index catalog_env t (CreateIndex True i t cs) c))"
  "t \<in> set (cat_tables c) \<Longrightarrow> (t, i) \<in> set (cat_indexes (ensure_index catalog_env t (CreateIndex True i t cs) c))"
  "set (cat_tables (ensure_index catalog_env t (CreateIndex True i t cs) c)) = set (cat_tables c)"
  by (auto simp: ensure_index_def table_exists_def)

lemma ensure_mempool_indexes:
  "i \<in> set (cat_indexes c) \<Longrightarrow> fst i \<noteq> ''mempool'' \<Longrightarrow> i \<in> set (cat_indexes (ensure_mempool_primary_key catalog_env c))"
  by (auto simp: ensure_mempool_primary_key_def Let_def)

definition height_indexes :: "(string \<times> string) set" where
  "height_indexes = {(''blocks'', ''idx_blocks_height''), (''tx'', ''idx_tx_height_blockindex''), (''utxo'', ''idx_utxo_height'')}"

lemma ensure_three_indexes:
  fixes c :: catalog and t1 i1 cs1 t2 i2 cs2 t3 i3 cs3
  defines "c1 \<equiv> ensure_index catalog_env t1 (CreateIndex True i1 t1 cs1) c"
  defines "c2 \<equiv> ensure_index catalog_env t2 (CreateIndex True i2 t2 cs2) c1"
  defines "c3 \<equiv> ensure_index catalog_env t3 (CreateIndex True i3 t3 cs3) c2"
  assumes "i \<in> {(t1, i1), (t2, i2), (t3, i3)}" and "fst i \<in> set (cat_tables c)"
  shows "i \<in> set (cat_indexes c3)"
proof -
  have "set (cat_tables c1) = set (cat_tables c)" "set (cat_tables c2) = set (cat_tables c)"
    unfolding c1_def c2_def by (simp_all only: ensure_index_indexes(3))
  moreover have "set (cat_indexes c1) \<subseteq> set (cat_indexes c2)" "set (cat_indexes c2) \<subseteq> set (cat_indexes c3)"
    unfolding c2_def c3_def by (simp_all only: ensure_index_indexes(1))
  moreover have "t1 \<in> set (cat_tables c) \<Longrightarrow> (t1, i1) \<in> set (cat_indexes c1)"
    "t2 \<in> set (cat_tables c1) \<Longrightarrow> (t2, i2) \<in> set (cat_indexes c2)"
    "t3 \<in> set (cat_tables c2) \<Longrightarrow> (t3, i3) \<in> set (cat_indexes c3)"
    unfolding c1_def c2_def c3_def by (simp_all only: ensure_index_indexes(2))
  ultimately show ?thesis using assms(4,5) by auto
qed

lemma ensure_height_indexes:
  assumes "i \<in> height_indexes" and "fst i \<in> set (cat_tables c)" and "fst i \<noteq> ''mempool''"
  shows "i \<in> set (cat_indexes (ensure_performance_indexes catalog_env c))"
  unfolding ensure_performance_indexes_def Let_def
  by (rule ensure_mempool_indexes [OF ensure_three_indexes [OF assms(1) [unfolded height_indexes_def] assms(2)] assms(3)])

lemma height_index_tables: "i \<in> height_indexes \<Longrightarrow> fst i \<noteq> ''mempool'' \<and> fst i \<noteq> ''connect''"
  by (auto simp: height_indexes_def)

lemma connection_indexes [simp]: "cat_indexes (connection_create_table catalog_env c) = cat_indexes c"
  by (simp add: connection_create_table_def)

text \<open>The tables of the service.\<close>

definition service_tables :: "bool \<Rightarrow> string set" where
  "service_tables save = {''addr''} \<union> ({''mempool'', ''utxo'', ''collection''} \<union> (if save then {''tx''} else {})) \<union>
     {''blocks'', ''orphans''} \<union> {''connect''}"

lemma union_minus: "S \<union> (A - Z) \<union> (B - Z) \<union> (C - Z) \<union> (D - Z) = S \<union> (A \<union> B \<union> C \<union> D - Z)"
  by blast

text \<open>
  C37: Setting up makes every table of the service that no schema of the server has, and no
  other; the tables \<open>blocks\<close>, \<open>tx\<close> and \<open>utxo\<close> that then exist have their index on the
  height. A table of the same name in another schema keeps the service from making its own.
\<close>

theorem setup_makes_tables:
  assumes "ddl_server_ok D cat"
  shows "let c = cat db; c' = cat (setup_schema D save db) in
     set (cat_tables c') = set (cat_tables c) \<union> (service_tables save - set (cat_other c)) \<and>
     (\<forall>(t, i) \<in> height_indexes. t \<in> set (cat_tables c') \<longrightarrow> (t, i) \<in> set (cat_indexes c'))"
proof -
  let ?c = "cat db"
  let ?c1 = "ensure_performance_indexes catalog_env
      (bm_create_tables catalog_env (ta_create_tables catalog_env save (am_create_table catalog_env ?c)))"
  have whole: "cat (setup_schema D save db) = connection_create_table catalog_env ?c1"
    using setup_schema_catalog [OF assms, of save db] by (simp only: setup_schema_def Let_def)
  have tables: "set (cat_tables (connection_create_table catalog_env ?c1)) =
      set (cat_tables ?c) \<union> (service_tables save - set (cat_other ?c))"
    by (simp only: setup_steps_tables setup_steps_other service_tables_def union_minus)
  have "i \<in> set (cat_indexes (connection_create_table catalog_env ?c1))"
    if i: "i \<in> height_indexes" and t: "fst i \<in> set (cat_tables (connection_create_table catalog_env ?c1))" for i
  proof -
    have "fst i \<in> set (cat_tables (bm_create_tables catalog_env (ta_create_tables catalog_env save (am_create_table catalog_env ?c))))"
      using t height_index_tables [OF i] unfolding setup_steps_tables(4,5) by blast
    then show ?thesis
      unfolding connection_indexes using height_index_tables [OF i] by (intro ensure_height_indexes [OF i]) simp_all
  qed
  with tables show ?thesis unfolding whole Let_def by auto
qed

definition sample_catalog :: catalog where
  "sample_catalog = \<lparr>cat_tables = [''mempool''], cat_other = [''tx''], cat_indexes = [(''mempool'', ''idx_txkey'')],
     cat_pks = [], cat_mempool = [(''a'', 3), (''b'', 4), (''a'', 7)]\<rparr>"

theorem setup_makes_tables_witness:
  "''tx'' \<notin> set (cat_tables (setup_schema catalog_env True sample_catalog)) \<and>
   (''utxo'', ''idx_utxo_height'') \<in> set (cat_indexes (setup_schema catalog_env True sample_catalog))"
  using setup_makes_tables [OF catalog_env_ok(1), of sample_catalog True]
  by (simp add: Let_def sample_catalog_def service_tables_def height_indexes_def)

section \<open>The key of the mempool table\<close>

lemma setup_steps_mempool:
  "mempool_part (am_create_table catalog_env c) = mempool_part c"
  "''mempool'' \<in> set (cat_tables c) \<Longrightarrow> mempool_part (ta_create_tables catalog_env save c) = mempool_part c"
  "mempool_part (bm_create_tables catalog_env c) = mempool_part c"
  "mempool_part (ensure_index catalog_env t (CreateIndex True i t' cs) c) = mempool_part c"
  "mempool_part (connection_create_table catalog_env c) = mempool_part c"
proof -
  have "mempool_part (bm_create_orphans catalog_env ts c) = mempool_part c" for ts c
    by (simp add: bm_create_orphans_def Let_def del: catalog_exec.simps)
  then show "mempool_part (bm_create_tables catalog_env c) = mempool_part c"
    by (simp add: bm_create_tables_def ddl_then_frames del: catalog_exec.simps)
  show "mempool_part (ta_create_tables catalog_env save c) = mempool_part c" if "''mempool'' \<in> set (cat_tables c)"
  proof -
    have "has_table ''mempool'' (cat_other c @ cat_tables c)" using that by (simp only: has_table_set set_append Un_iff simp_thms)
    then show ?thesis
      by (simp only: ta_create_tables_def catalog_env_sel option.case Let_def if_distrib [of mempool_part]
          create_mempool_env if_cancel not_True_eq_False if_False)
  qed
qed (simp_all add: am_create_table_def connection_create_table_def ensure_index_def del: catalog_exec.simps)

lemma distinct_earliest: "distinct (map fst (earliest rows)) \<longleftrightarrow> distinct (earliest rows)"
proof -
  have least: "t \<le> t'" if "(h, t) \<in> set (earliest rows)" "(h, t') \<in> set rows" for h t t'
    using that unfolding earliest_def by (auto simp: list_all_iff)
  have sub: "set (earliest rows) \<subseteq> set rows" unfolding earliest_def by auto
  have "t = t'" if "(h, t) \<in> set (earliest rows)" "(h, t') \<in> set (earliest rows)" for h t t'
    using least [OF that(1), of t'] least [OF that(2), of t] that sub by (meson antisym subsetD)
  then have "inj_on fst (set (earliest rows))" by (auto simp: inj_on_def)
  then show ?thesis by (simp add: distinct_map)
qed

lemma ensure_mempool_part:
  assumes "mempool_part c = (True, False, rows)"
  shows "mempool_part (ensure_mempool_primary_key catalog_env c) = (True, distinct (earliest rows), earliest rows)"
proof -
  have c: "''mempool'' \<in> set (cat_tables c)" "''mempool'' \<notin> set (cat_pks c)" "cat_mempool c = rows"
    using assms by (simp_all only: mempool_part_def prod.inject simp_thms)
  let ?c = "c\<lparr>cat_mempool := earliest rows, cat_indexes := filter (\<lambda>i. i \<noteq> (''mempool'', ''idx_txkey'')) (cat_indexes c)\<rparr>"
  have "ensure_mempool_primary_key catalog_env c = snd (catalog_exec (AddPrimaryKey ''mempool'' [''hash'']) ?c)"
    using c by (simp add: ensure_mempool_primary_key_def table_exists_def Let_def)
  moreover have "mempool_part (snd (catalog_exec (AddPrimaryKey ''mempool'' cs) ?c)) =
      (True, distinct (map fst (earliest rows)), earliest rows)" for cs
    using c unfolding mempool_part_def by simp
  ultimately show ?thesis by (simp only: distinct_earliest)
qed

text \<open>
  C38: A mempool table without a primary key keeps, of the rows with one hash, those with the
  earliest time, and gets the key exactly when that leaves no row twice: two rows with the same
  hash and the same time survive, the key cannot be added, and every start tries again.
\<close>

theorem mempool_key_migration:
  assumes D: "ddl_server_ok D cat" and old: "''mempool'' \<in> set (cat_tables (cat db))" "''mempool'' \<notin> set (cat_pks (cat db))"
  shows "let c = cat db; c' = cat (setup_schema D save db) in
     cat_mempool c' = earliest (cat_mempool c) \<and>
     (''mempool'' \<in> set (cat_pks c') \<longleftrightarrow> distinct (earliest (cat_mempool c)))"
proof -
  let ?c = "cat db"
  let ?c1 = "bm_create_tables catalog_env (ta_create_tables catalog_env save (am_create_table catalog_env ?c))"
  have "''mempool'' \<in> set (cat_tables (am_create_table catalog_env ?c))" using old(1) by simp
  then have "mempool_part ?c1 = mempool_part ?c" by (simp add: setup_steps_mempool)
  then have "mempool_part ?c1 = (True, False, cat_mempool ?c)" using old by (simp add: mempool_part_def)
  then have "mempool_part (ensure_performance_indexes catalog_env ?c1) =
      (True, distinct (earliest (cat_mempool ?c)), earliest (cat_mempool ?c))"
    unfolding ensure_performance_indexes_def Let_def
    by (intro ensure_mempool_part) (simp add: setup_steps_mempool)
  then have "mempool_part (setup_schema catalog_env save ?c) =
      (True, distinct (earliest (cat_mempool ?c)), earliest (cat_mempool ?c))"
    by (simp add: setup_schema_def Let_def setup_steps_mempool)
  then show ?thesis using setup_schema_catalog [OF D, of save db] by (simp add: Let_def mempool_part_def)
qed

theorem mempool_key_migration_witness:
  "''mempool'' \<in> set (cat_pks (setup_schema catalog_env True sample_catalog)) \<and>
   ''mempool'' \<notin> set (cat_pks (setup_schema catalog_env True (sample_catalog\<lparr>cat_mempool := [(''a'', 3), (''a'', 3)]\<rparr>)))"
  using mempool_key_migration [OF catalog_env_ok(1), of sample_catalog True]
    mempool_key_migration [OF catalog_env_ok(1), of "sample_catalog\<lparr>cat_mempool := [(''a'', 3), (''a'', 3)]\<rparr>" True]
  by (simp add: Let_def sample_catalog_def earliest_def)

end
