(* ===== verification/Text_Guarantees.thy ===== *)
theory Text_Guarantees
  imports Util
begin

text \<open>
  The properties of the hexadecimal text: printing and decoding, and the inputs on which
  decoding does not return.
\<close>

definition to_lower :: "char \<Rightarrow> char" where
  "to_lower c = (let n = of_char c :: nat in if 65 \<le> n \<and> n \<le> 90 then char_of (n + 32) else c)"

lemma digit16_Some: "digit16 c = Some d \<Longrightarrow> d < 16 \<and> hex_digit d = to_lower c"
proof -
  assume d: "digit16 c = Some d"
  have "of_char c \<in> {48, 49, 50, 51, 52, 53, 54, 55, 56, 57, 65, 66, 67, 68, 69, 70, 97, 98, 99, 100, 101, 102 :: nat}"
    using d unfolding insert_iff empty_iff by (simp add: digit16_def Let_def split: if_splits) presburger+
  then have "of_char c \<in> (of_char ` set ''0123456789ABCDEFabcdef'' :: nat set)" by simp
  then have "c \<in> set ''0123456789ABCDEFabcdef''" unfolding image_iff of_char_eq_iff by blast
  then show ?thesis using d by (auto simp: digit16_def hex_digit_def to_lower_def char_of_def bit_numeral_rec bit_0)
qed

lemma from_digits16_pair:
  assumes "from_digits16 0 [a, b] = Inr byte"
  shows "fmt_02x byte = [to_lower a, to_lower b]"
proof -
  obtain x y where d: "digit16 a = Some x" "digit16 b = Some y"
    using assms by (cases "digit16 a"; cases "digit16 b") (auto split: if_splits)
  note x = digit16_Some [OF d(1)] and y = digit16_Some [OF d(2)]
  have "byte = of_nat (16 * x + y)" using assms d x y by (auto split: if_splits)
  moreover have "unat (of_nat (16 * x + y) :: u8) = 16 * x + y"
    using x y by (simp add: unat_of_nat del: of_nat_add of_nat_mult)
  ultimately show ?thesis using x y by (simp add: fmt_02x_def)
qed

lemma decode_pairs_print:
  "even (length s) \<Longrightarrow> CHR ''+'' \<notin> set s \<Longrightarrow> decode_pairs s = Ret (Inr bs) \<Longrightarrow> hexslice_fmt bs = map to_lower s"
proof (induction s arbitrary: bs rule: decode_pairs.induct)
  case (1 a b s)
  from "1.prems" obtain byte bytes where d: "from_digits16 0 [a, b] = Inr byte" "decode_pairs s = Ret (Inr bytes)"
    "bs = byte # bytes" "starts_char s"
    by (auto simp: from_str_radix16_def simp del: from_digits16.simps split: if_splits sum.splits outcome.splits)
  then have "hexslice_fmt bytes = map to_lower s"
    using "1.IH" [of byte bytes] "1.prems" by (auto simp: from_str_radix16_def simp del: from_digits16.simps)
  then show ?case using from_digits16_pair [OF d(1)] d(3) by simp
qed simp_all

text \<open>
  C39: Bytes printed as hexadecimal text are decoded to themselves, and conversely a text without
  a plus sign that decodes is the printed text of its bytes, up to the case of its letters.
\<close>

theorem hex_text_roundtrip:
  "decode_hexstr (hexslice_fmt bs) = Ret (Inr bs) \<and>
   (decode_hexstr s = Ret (Inr bs) \<and> CHR ''+'' \<notin> set s \<longrightarrow> map to_lower s = hexslice_fmt bs)"
  using decode_pairs_print [of s bs] by (auto simp: decode_hexstr_def decode_pairs_hexslice split: if_splits)

theorem hex_text_roundtrip_witness: "map to_lower ''0F'' = hexslice_fmt [15]"
proof -
  have "decode_hexstr ''0F'' = Ret (Inr [15])"
    by (simp add: decode_hexstr_def from_str_radix16_def digit16_def starts_char_def)
  then show ?thesis using hex_text_roundtrip [of "[15]" "''0F''"] by simp
qed

text \<open>
  C40: On a text of ASCII characters decoding always returns, with bytes or an error. On a text
  with a character of several bytes it can panic, where a pair of bytes ends inside the
  character; and a plus sign before a digit is taken for a part of the number.
\<close>

theorem decode_hexstr_panics_inside_characters:
  "(list_all (\<lambda>c. of_char c < (128 :: nat)) s \<longrightarrow> decode_hexstr s \<noteq> Panic) \<and>
   decode_hexstr (map char_of [0x61, 0xC3, 0xA9, 0x61 :: nat]) = Panic \<and> decode_hexstr ''+f'' = Ret (Inr [15])"
proof -
  have "decode_hexstr s \<noteq> Panic" if "list_all (\<lambda>c. of_char c < (128 :: nat)) s"
  proof -
    have "list_all (\<lambda>c. \<not> is_continuation c) s"
      using that by (force simp: is_continuation_def list_all_iff Let_def)
    then show ?thesis using decode_pairs_ascii [of s] by (simp add: decode_hexstr_def)
  qed
  moreover have "decode_hexstr (map char_of [0x61, 0xC3, 0xA9, 0x61 :: nat]) = Panic"
    by (simp add: decode_hexstr_def starts_char_def is_continuation_def Let_def)
  moreover have "decode_hexstr ''+f'' = Ret (Inr [15])"
    by (simp add: decode_hexstr_def starts_char_def from_str_radix16_def digit16_def)
  ultimately show ?thesis by blast
qed

theorem decode_hexstr_panics_inside_characters_witness: "decode_hexstr ''zz'' \<noteq> Panic"
  using decode_hexstr_panics_inside_characters [of "''zz''"] by simp

end
