(* ===== verification/Spec2Isabelle.thy ===== *)
theory Spec2Isabelle
  imports Table_Guarantees Tx_Guarantees Schema_Guarantees Text_Guarantees
begin

text \<open>
  A model of the UTXO-as-a-service program, the Rust service under \<open>rust/src\<close>. It connects to
  one Bitcoin SV node at a time, downloads block headers and blocks, follows transactions, keeps the
  set of unspent outputs and the monitored collections in memory, and writes them to a database
  from which a separate web interface reads. The paths below are relative to \<open>rust/src\<close>.

  \<^bold>\<open>The program and its theories.\<close> Each theory has the definitions of its part in the order of
  the code, then facts; the theories named \<open>*_Guarantees\<close>, and \<open>Monitors\<close>, hold properties.

  \<^item> \<open>Prelude\<close>: machine integers, lazy iterators, and the contract \<open>mono_machine\<close> (output that
    only grows). \<open>Hash_Map\<close>: \<open>HashMap\<close> as an association list, behind the contract
    \<open>map_api\<close>. \<open>Height_Store\<close>: the contract of a store pruned by height, met by the outputs
    and by the transactions.
  \<^item> \<open>Util\<close> (\<open>uaas/util.rs\<close>, \<open>uaas/hexslice.rs\<close>), \<open>Text_Guarantees\<close>: hexadecimal text.
  \<^item> \<open>Chain_Types\<close>: blocks, transactions and messages of the \<open>chain-gang\<close> crate, and what the
    code calls of it and of other crates, as the record \<open>ext_lib\<close>.
  \<^item> \<open>Config\<close> (\<open>config.rs\<close>), \<open>Dynamic_Config\<close> (\<open>dynamic_config.rs\<close>).
  \<^item> \<open>Utxo\<close> and \<open>Utxo_Table\<close> (\<open>uaas/utxo.rs\<close>), \<open>Txdb\<close> (\<open>uaas/txdb.rs\<close>), \<open>Collection\<close>
    (\<open>uaas/collection.rs\<close>), \<open>Tx_Analyser\<close> (\<open>uaas/tx_analyser.rs\<close>), with \<open>Tx_Sync\<close>,
    \<open>Tx_Guarantees\<close> and \<open>Monitors\<close>.
  \<^item> \<open>Block_Manager\<close> (\<open>uaas/block_manager.rs\<close>), with \<open>Block_Chain\<close> and \<open>Block_Guarantees\<close>.
  \<^item> \<open>Db_Ops\<close>, \<open>Db_Server\<close>, \<open>Database\<close> (\<open>uaas/database.rs\<close>), with \<open>Database_Guarantees\<close>:
    the writer thread at the other end of the channel. \<open>Schema\<close>, \<open>Schema_Guarantees\<close>
    (\<open>uaas/schema.rs\<close> and the \<open>create_table\<close> methods).
  \<^item> \<open>Peer_Log\<close> (\<open>uaas/address_manager.rs\<close>, \<open>uaas/connection.rs\<close>), \<open>Logic\<close> and
    \<open>Logic_Guarantees\<close> (\<open>uaas/logic.rs\<close>): the state of the server around all these.
  \<^item> \<open>Services\<close> (\<open>services.rs\<close>), \<open>Peer_Events\<close> (\<open>peer_event.rs\<close>, \<open>event_handler.rs\<close>,
    the waiting loop of \<open>peer_connection.rs\<close>), \<open>Thread_Tracker\<close> (\<open>peer_thread.rs\<close>,
    \<open>thread_tracker.rs\<close>), \<open>Rate_Limit\<close> (\<open>rate_limit.rs\<close>), \<open>Rest_Api\<close> (\<open>rest_api.rs\<close>).
  \<^item> \<open>Thread_Manager\<close> and \<open>Manager_Guarantees\<close> (\<open>thread_manager.rs\<close>, \<open>thread_util.rs\<close>, the
    start and the peer manager's loop of \<open>main.rs\<close>).
  \<^item> \<open>Service_System\<close> (\<open>main.rs\<close>): the threads as one system, with the channels between them,
    the shutdown and the exit. \<open>Service_Guarantees\<close> and \<open>Service_State\<close>: what holds in every
    run of it. \<open>Header_Table\<close>, \<open>Pool_Table\<close>: the table of blocks, and the tables of the mempool
    and of the transactions, behind the writer. \<open>Table_Guarantees\<close>: how the tables stand to the memory in
    every run, and what a restart reads from them.

  \<^bold>\<open>How the parts interact.\<close> Peers' threads and REST handlers put events on channels; the peer
  manager takes them off and calls the logic, which calls the block manager and the analyser;
  these send operations on a channel to the writer, which merges and performs them.
  A component is a record; a method takes the record, the channel and what else the method
  changes, and returns them. A channel is what was sent on it. Where what happens outside is
  not the program's to decide (the clock, whether a call of a library succeeds, which event comes),
  it is an argument. The whole service is the record \<open>service\<close> and the relation
  \<open>service_step\<close>, one rule for each thing a thread does between two uses of a channel; a
  run, \<open>service_run\<close>, is any interleaving of such steps.

  \<^bold>\<open>What is proved.\<close> Over every run of the service: the table of unspent outputs is behind the
  memory by exactly what waits on the channel and in memory (\<open>table_lags_by_what_waits\<close>), and the
  tables of the mempool and of the transactions by what is on the channel
  (\<open>pool_tables_lag_by_channel\<close>); the
  headers in memory are the chain of the blocks that came (\<open>service_follows_chain\<close>, below); a
  restart from the tables that the run has written gives the same headers (\<open>restart_after_run\<close>), outputs
  and transactions (\<open>restart_restores_outputs_and_txs\<close>); nothing is
  broadcast that no client asked for, and in the order of the requests
  (\<open>broadcast_only_on_request\<close>); every state is well-formed (\<open>service_well_formed\<close>, below); the
  manager runs its loop whatever the other threads do (\<open>manager_runs_loop\<close>); the oldest entry of
  a channel is taken first and none waits for ever (\<open>oldest_taken_first\<close>); the manager ends
  when it is told to and only then (\<open>stops_when_told\<close>). They rest on contracts: \<open>guarded_channel\<close>, what every
  operation of the analyser keeps together with its channel as long as the blocks are of some kind, and its case
  \<open>channel_kept\<close> that allows any block, by a \<open>sublocale\<close> kept by the block manager
  and the logic around it too (\<open>logic_kept\<close>); \<open>table_server\<close>, what a server promises of one of its
  tables; \<open>block_follower\<close>, what the logic does with the blocks that have
  come, carried over to every run of the service, of which \<open>logic_kept\<close> is the case that does not
  look at them; \<open>block_receiver\<close>, what a receiver of blocks does to the chain. On the components alone:
  the writer performs what it does not drop in order (\<open>writer_performs_or_drops\<close>); blocks may
  arrive in any order; inventories are downloaded in order; every connection and every
  block is followed by one request; broadcasts, fees, monitors, collections, rates and refusals
  behave as stated; the service starts exactly with a valid configuration; the tables and
  indexes that setting up makes.

  \<^bold>\<open>What the model shows to go wrong\<close>, each a theorem: transactions of blocks and inputs of
  transactions are never processed, since the iterators over them are dropped
  (\<open>process_block_skips_transactions\<close>, \<open>standalone_tx_outputs\<close>); merging takes the first
  operation of another kind off the channel and loses it (\<open>flush_at_once_loses_operations\<close>); a transaction that
  comes twice ends the merged batch, and the rows behind it are never written (\<open>repeated_tx_loses_next\<close>);
  a stop saves nothing that waits in memory (\<open>stop_saves_nothing\<close>), and the process can end with
  operations on the channel (\<open>exit_loses_operations\<close>);
  an orphan leaves the last hash processed behind and prunes the wrong height
  (\<open>orphan_leaves_stale_tip\<close>, \<open>orphan_prunes_next_height\<close>); decoding can panic inside a character
  (\<open>decode_hexstr_panics_inside_characters\<close>); the migration of the mempool table can fail for good
  (\<open>mempool_key_migration\<close>); a broadcast is dropped when no peer is connected (\<open>broadcast_once\<close>).

  \<^bold>\<open>Hypotheses.\<close> \<open>hash_codec_ok\<close>: decoding the text of a hash gives the hash. \<open>retry_crate_ok\<close>:
  the documented behaviour of the \<open>retry\<close> crate. \<open>utxo_server_ok\<close>: a server that
  accepts the statements on the table and does what SQL says of them, and on other tables anything;
  \<open>ddl_server_ok\<close>: one that makes tables, indexes and keys as SQL says;
  \<open>blocks_server_ok\<close>, \<open>pool_server_ok\<close>: one that also refuses a
  second row for a key. \<open>writes_txs\<close>: writing a transaction to memory does not fail. \<open>regular_block\<close>: the amounts
  of a block fit their types. \<open>pool_rows_ok\<close>: the rows read at the start are those of the tables.
  \<open>collision_free\<close>: no two headers of a run have the same hash. Each is met by a concrete instance
  (\<open>sample_lib\<close>, \<open>log_env\<close>, \<open>table_env\<close>, \<open>blocks_env\<close>, \<open>tables_env\<close>, \<open>catalog_env\<close>), which the witnesses use.

  \<^bold>\<open>Bounds and termination.\<close> No fuel is used: the loop over the queue of early blocks ends since each
  round takes an entry out of it, the writer's loop since each round takes an arrival, and the
  manager's loop runs over the rounds it is given, its result saying whether it had ended by then.
  Integers wrap as in the release profile; a \<open>usize\<close> is a natural number. Heights are bounded by
  \<open>2 ^ 31\<close> where the code converts them to \<open>i32\<close>.

  \<^bold>\<open>Not modelled.\<close> The text of SQL statements (a constructor each), logging and dates, the
  runtime (sockets, \<open>actix-web\<close> routing and JSON, the signals themselves, the panic hook), parsing of
  TOML, JSON and addresses (parameters), unit tests, and the Python web interface. A panic of the
  manager's thread itself, which ends its loop with the service still up, is not a step of the system.
  The rows of collections, addresses and connections are statements with a result each; what these
  tables hold is not followed, since the service writes them directly, not through the writer.
\<close>

section \<open>Properties of every run\<close>

text \<open>
  C2: Once the stored chain is loaded, the headers in memory are a chain in every run, whatever
  else peers, clients and threads do: linked by their hashes, indexed by height, the last one the
  last hash processed, with no block waiting that could be appended. And when the blocks that
  came from peers are those of a chain on top of the stored one, in any order and with any
  repetitions, memory holds exactly the stored headers and theirs. Orphan detection is off here;
  what it does to the chain is \<open>orphan_leaves_stale_tip\<close>.
\<close>

theorem service_follows_chain:
  assumes L: "hash_codec_ok L" and off: "\<not> oc_detect (cf_orphan cf)"
    and db: "get_network_settings cf = Inr ns" "ns_startup_load_from_database ns"
    and stored: "linked L base hs" "hs \<noteq> []" "sr_headers srows = Some (map (stored_header L) (enumerate h0 hs))"
    and start: "run_start L E F parse cfg logger pool conns ta_conns file srows db0 disk = Inr (app, cf, m, ips)"
    and run: "service_run L E F W connect cf ips (service_init app m w0) acts s"
    and room: "h0 + length hs + length (blocks_taken acts) < 2 ^ 31"
  shows "let now = bm (lg_sys (mg_logic (sc_manager s))) in chain_inv L base h0 now \<and>
     (\<forall>bs. new_chain L (tip L base hs) bs \<and> set (blocks_taken acts) = set bs \<and>
        header_hash L ` set (map blk_header bs) \<inter> header_hash L ` set hs = {} \<longrightarrow>
        block_headers now = hs @ map blk_header bs \<and> block_queue now = [])"
proof -
  let ?s0 = "lg_sys (mg_logic m)"
  have "h0 + length hs < 2 ^ 31" using room by simp
  note m = start_chain [OF L off db stored this start] and now = run_chain [OF L off db stored this start run]
  have "unat (bm_height (bm ?s0)) = h0 + length hs" using m(1,2) by (simp add: chain_inv_def)
  then have "chain_inv L base h0 (bm (fold (bm_on_block L E F) (blocks_taken acts) ?s0))"
    using room m(3) by (intro on_block.run_keeps_chain [OF m(1)]) simp
  then show ?thesis
    unfolding now Let_def using new_blocks_appended [OF m(1-3) _ _ _ room, of _ E F] by blast
qed

theorem service_follows_chain_witness:
  "\<exists>s :: (unit, sql_stmt list, nat, utxo_table) service.
     block_headers (bm (lg_sys (mg_logic (sc_manager s)))) = [sample_header 1 100 5, sample_header 5 1000 6]"
proof -
  obtain app m s where run: "sample_run = Inr (app, sample_config, m, [''ip''])"
    and runs: "sample_runs (service_init app m (table_of [])) sample_block_acts s"
    by (rule sample_block_run)
  have room: "1 + length [sample_header 1 100 5] + length (blocks_taken sample_block_acts) < 2 ^ 31"
    by (simp add: sample_new_block(1))
  from service_follows_chain [OF sample_codec_ok sample_stored run [unfolded sample_run_def] runs room, unfolded Let_def]
  have "block_headers (bm (lg_sys (mg_logic (sc_manager s)))) = [sample_header 1 100 5] @ map blk_header [sample_block 5 6]"
    using sample_new_block(2,3) unfolding sample_new_block(1) by blast
  then show ?thesis by (intro exI [of _ s]) (simp add: sample_block_def)
qed

text \<open>
  C7: Every state that a run reaches is well-formed: no outpoint, hash or address stands twice in a map,
  every row waits under the key it will have in its table, the first entry of the inventory is not
  empty, threads and handlers belong to addresses of the configuration, no counter is ahead of its
  channel, and the manager's ends of the channels are there exactly as long as it runs.
\<close>

theorem service_well_formed:
  assumes "run_start L E F parse cfg logger pool conns ta_conns file srows db disk = Inr (app, cf, m, ips)"
    and run: "service_run L E F W connect cf ips (service_init app m db0) acts s"
  shows "service_formed L ips s"
proof -
  note start = start_formed [OF assms(1)]
  have app: "rx_alive (msg_from_rest_api app)"
    using assms(1) by (auto simp: run_start_def Let_def split: sum.splits)
  have "threads_formed ips (service_init app m db0)" "ends_formed (service_init app m db0)"
    using start(2) app by (simp_all add: threads_formed_def tracks_def wf_tt_ops ends_formed_def, simp add: tt_new_def)
  from run_formed [OF run this] run_counters [OF run] formed_logic.following.service_run_follows [OF run]
  show ?thesis by (simp add: service_formed_def start(1))
qed

theorem service_well_formed_witness:
  "\<exists>s :: (unit, sql_stmt list, nat, utxo_table) service. service_formed sample_lib [''ip''] s \<and>
     (7, MsgTx sample_request_tx) \<in> set (mg_to_peers (sc_manager s))"
proof -
  obtain app m s where run: "sample_run = Inr (app, sample_config, m, [''ip''])"
    "sample_runs (service_init app m (table_of [])) sample_acts s"
    "(7, MsgTx sample_request_tx) \<in> set (mg_to_peers (sc_manager s))"
    by (rule sample_service)
  from service_well_formed [OF run(1) [unfolded sample_run_def] run(2)] run(3) show ?thesis by blast
qed

text \<open>
  C26: Collections and dynamic configuration stay in step in every run. From a state in which no name is
  used twice, every dynamic monitor has its collection and no collection holds a transaction twice,
  every run leads to such states, and the collections that are not dynamic (those of the
  configuration file and the broadcast collection) are neither removed nor reordered.
\<close>

theorem monitors_in_every_run:
  assumes "service_run L E F W connect cf ips s0 acts s" and "a0 = ta (lg_sys (mg_logic (sc_manager s0)))"
    and "monitors_ok a0" and "collections_distinct a0"
  shows "let a = ta (lg_sys (mg_logic (sc_manager s))) in
     monitors_ok a \<and> static_names a = static_names a0 \<and> collections_distinct a"
  using assms named.in_logic.following.service_run_follows [OF assms(1), of "static_names a0"] distinct.in_logic.following.service_run_follows [OF assms(1)]
  by (simp add: Let_def named.sys_kept_def distinct.sys_kept_def)

text \<open>Here a client has asked for a monitor, and the round adds it.\<close>

theorem monitors_in_every_run_witness:
  "\<exists>s :: (unit, sql_stmt list, nat, utxo_table) service. let a = ta (lg_sys (mg_logic (sc_manager s))) in
     monitors_ok a \<and> static_names a = [''broadcast''] \<and> coll_names a = [''broadcast'', ''m1'']"
proof -
  let ?app = "sample_app\<lparr>msg_from_rest_api := \<lparr>rx_alive = True, sent = [AddMonitor sample_monitor]\<rparr>\<rparr>"
  let ?s = "(service_init ?app sample_manager (table_of []))\<lparr>sc_phase := Looping False\<rparr>
    :: (unit, sql_stmt list, nat, utxo_table) service"
  let ?rd = "sample_round None (Some (AddMonitor sample_monitor))"
  let ?m = "rest_part sample_lib log_env ?rd sample_manager"
  have "sample_step ?s (Round ?rd) (after_round True (stop_after ?rd False) ?m ?s)"
    by (intro service_step.On_Round)
      (simp_all add: sample_round_def next_event_def next_rest_def next_msg_def rest_msgs_def peer_part_def)
  from service_run.Step [OF service_run.Nothing this]
  have run: "sample_runs ?s ([] @ [Round ?rd]) (after_round True (stop_after ?rd False) ?m ?s)" .
  have ta: "ta (lg_sys (mg_logic sample_manager)) = sample_ta" by (simp add: sample_manager_def sample_lg_def sample_sys_def)
  obtain wc where wc: "wc_new sample_lib sample_monitor (ta_network sample_ta) = Inr wc"
    by (simp add: wc_new_def sample_monitor_def sample_lib_def)
  have "coll_names (ta (lg_sys (mg_logic ?m))) = [''broadcast'', ''m1'']"
    using add_monitor_new(1) [OF _ wc, of True] add_monitor_new(3) [OF _ wc]
    by (simp add: rest_part_def rest_half_def sample_round_def lg_monitor_def ta coll_names_def, simp add: sample_ta_def sample_monitor_def)
  moreover have "static_names sample_ta = [''broadcast'']"
    by (simp add: static_names_def coll_names_def dynamic_names_def sample_ta_def)
  ultimately show ?thesis
    using monitors_in_every_run [OF run _ sample_ta_monitors(1,2)] by (intro exI [of _ "after_round True (stop_after ?rd False) ?m ?s"]) (simp add: Let_def ta)
qed

end
